theory Spec2Isabelle
  imports Main "HOL-Library.Word"
begin

section \<open>The Strava MCP server's OAuth front end (src/index.ts)\<close>

text \<open>
  The development embeds \<^verbatim>\<open>src/index.ts\<close>: the signed-state codec
  (\<^verbatim>\<open>encodeState\<close>, \<^verbatim>\<open>decodeState\<close>) and the HTTP handlers registered
  on the Hono application. What the handlers take from the platform is made explicit:
  \<^item> a JavaScript string is the list of its UTF-16 code units, each a natural number;
  \<^item> \<^verbatim>\<open>btoa\<close>, \<^verbatim>\<open>atob\<close>, \<^verbatim>\<open>JSON.stringify\<close> and \<^verbatim>\<open>JSON.parse\<close>
    are written out as functions, following their specifications;
  \<^item> HMAC-SHA256 (\<^verbatim>\<open>crypto.subtle\<close> applied to the \<^verbatim>\<open>TextEncoder\<close> bytes of
    key and message), the URL parser \<^verbatim>\<open>new URL\<close>, the clock \<^verbatim>\<open>Date.now()\<close>,
    \<^verbatim>\<open>crypto.randomUUID()\<close> and the upstream \<^verbatim>\<open>fetch\<close> are parameters of the
    functions that use them;
  \<^item> an exception is the left summand of the result; \<^verbatim>\<open>console.error\<close> is not
    modelled.
\<close>

subsection \<open>JavaScript strings\<close>

type_synonym jsstring = "nat list"

text \<open>A string literal of the source, as code units.\<close>

definition js :: "string \<Rightarrow> jsstring" where
  "js s = map of_char s"

text \<open>
  The exceptions the modelled code can raise. \<open>OutsideModel\<close> is not an exception of
  the program: it marks the inputs on which the program goes on with a JavaScript number
  that is not an integer or with an implicit conversion between types, and the
  \<^verbatim>\<open>HEAD\<close> requests, none of which is modelled. No statement below concludes anything
  from it.
\<close>

datatype error = InvalidCharacterError | DataError | SyntaxError | TypeError | OutsideModel

fun startsWith :: "jsstring \<Rightarrow> jsstring \<Rightarrow> bool" where
  "startsWith s [] = True"
| "startsWith [] (p # ps) = False"
| "startsWith (c # cs) (p # ps) = (c = p \<and> startsWith cs ps)"

text \<open>\<^verbatim>\<open>s.includes(sub)\<close>.\<close>

fun js_includes :: "jsstring \<Rightarrow> jsstring \<Rightarrow> bool" where
  "js_includes [] sub = (sub = [])"
| "js_includes (c # cs) sub = (startsWith (c # cs) sub \<or> js_includes cs sub)"

text \<open>\<^verbatim>\<open>s.split(sep)\<close> for a separator of one code unit.\<close>

fun js_split :: "nat \<Rightarrow> jsstring \<Rightarrow> jsstring list" where
  "js_split sep [] = [[]]"
| "js_split sep (c # cs) =
     (if c = sep then [] # js_split sep cs
      else (case js_split sep cs of [] \<Rightarrow> [[c]] | seg # segs \<Rightarrow> (c # seg) # segs))"

text \<open>
  \<^verbatim>\<open>s.replace(pat, rep)\<close> for a string pattern: the first occurrence only. The
  source's replacement is the empty string, so no replacement pattern arises.
\<close>

fun js_replace :: "jsstring \<Rightarrow> jsstring \<Rightarrow> jsstring \<Rightarrow> jsstring" where
  "js_replace [] pat rep = (if pat = [] then rep else [])"
| "js_replace (c # cs) pat rep =
     (if startsWith (c # cs) pat then rep @ drop (length pat) (c # cs)
      else c # js_replace cs pat rep)"

definition is_high_surrogate :: "nat \<Rightarrow> bool" where
  "is_high_surrogate c = (0xD800 \<le> c \<and> c \<le> 0xDBFF)"

definition is_low_surrogate :: "nat \<Rightarrow> bool" where
  "is_low_surrogate c = (0xDC00 \<le> c \<and> c \<le> 0xDFFF)"

text \<open>
  The conversion to a \<^verbatim>\<open>USVString\<close> that the URL interfaces apply to their
  arguments: a surrogate that is not part of a pair becomes U+FFFD.
\<close>

fun usv :: "jsstring \<Rightarrow> jsstring" where
  "usv [] = []"
| "usv [c] = (if is_high_surrogate c \<or> is_low_surrogate c then [0xFFFD] else [c])"
| "usv (c # d # cs) =
     (if is_high_surrogate c \<and> is_low_surrogate d then c # d # usv cs
      else if is_high_surrogate c \<or> is_low_surrogate c then 0xFFFD # usv (d # cs)
      else c # usv (d # cs))"

text \<open>A string \<^verbatim>\<open>btoa\<close> accepts: every code unit is at most 0xFF.\<close>

definition latin1 :: "jsstring \<Rightarrow> bool" where
  "latin1 s = (\<not> list_ex (\<lambda>c. 255 < c) s)"

subsection \<open>Base64: btoa and atob\<close>

definition b64_char :: "nat \<Rightarrow> nat" where
  "b64_char n =
     (if n < 26 then 65 + n
      else if n < 52 then 71 + n
      else if n < 62 then n - 4
      else if n = 62 then 43
      else 47)"

definition b64_val :: "nat \<Rightarrow> nat option" where
  "b64_val c =
     (if 65 \<le> c \<and> c \<le> 90 then Some (c - 65)
      else if 97 \<le> c \<and> c \<le> 122 then Some (c - 71)
      else if 48 \<le> c \<and> c \<le> 57 then Some (c + 4)
      else if c = 43 then Some 62
      else if c = 47 then Some 63
      else None)"

fun sextets :: "nat list \<Rightarrow> nat list" where
  "sextets (a # b # c # rest) =
     (a div 4) # ((a mod 4) * 16 + b div 16) # ((b mod 16) * 4 + c div 64) # (c mod 64)
       # sextets rest"
| "sextets [a, b] = [a div 4, (a mod 4) * 16 + b div 16, (b mod 16) * 4]"
| "sextets [a] = [a div 4, (a mod 4) * 16]"
| "sextets [] = []"

definition b64_encode :: "nat list \<Rightarrow> jsstring" where
  "b64_encode bs = map b64_char (sextets bs) @ replicate ((3 - length bs mod 3) mod 3) 61"

text \<open>\<^verbatim>\<open>btoa\<close> throws on a code unit above 0xFF.\<close>

definition btoa :: "jsstring \<Rightarrow> error + jsstring" where
  "btoa s = (if latin1 s then Inr (b64_encode s) else Inl InvalidCharacterError)"

definition is_ascii_whitespace :: "nat \<Rightarrow> bool" where
  "is_ascii_whitespace c = (c = 9 \<or> c = 10 \<or> c = 12 \<or> c = 13 \<or> c = 32)"

definition strip_padding :: "jsstring \<Rightarrow> jsstring" where
  "strip_padding d =
     (if d \<noteq> [] \<and> last d = 61
      then (if butlast d \<noteq> [] \<and> last (butlast d) = 61 then butlast (butlast d) else butlast d)
      else d)"

fun unsextets :: "nat list \<Rightarrow> nat list" where
  "unsextets (p # q # r # s # rest) =
     (p * 4 + q div 16) # ((q mod 16) * 16 + r div 4) # ((r mod 4) * 64 + s) # unsextets rest"
| "unsextets [p, q, r] = [p * 4 + q div 16, (q mod 16) * 16 + r div 4]"
| "unsextets [p, q] = [p * 4 + q div 16]"
| "unsextets [p] = []"
| "unsextets [] = []"

fun those_vals :: "jsstring \<Rightarrow> nat list option" where
  "those_vals [] = Some []"
| "those_vals (c # cs) =
     (case b64_val c of
        None \<Rightarrow> None
      | Some v \<Rightarrow> (case those_vals cs of None \<Rightarrow> None | Some vs \<Rightarrow> Some (v # vs)))"

text \<open>
  \<^verbatim>\<open>atob\<close> is the forgiving base64 decoding: ASCII whitespace is removed, one or two
  trailing \<^verbatim>\<open>=\<close> are removed when the length is a multiple of four, a length of
  one modulo four or a code unit outside the alphabet fails (\<open>None\<close> stands for the
  exception), and the bits left over at the end are dropped.
\<close>

definition atob :: "jsstring \<Rightarrow> jsstring option" where
  "atob s =
     (let d0 = filter (\<lambda>c. \<not> is_ascii_whitespace c) s;
          d = (if length d0 mod 4 = 0 then strip_padding d0 else d0)
      in if length d mod 4 = 1 then None
         else (case those_vals d of None \<Rightarrow> None | Some vs \<Rightarrow> Some (unsextets vs)))"

subsection \<open>JSON values, JSON.stringify and JSON.parse\<close>

text \<open>
  A number is an integer: the payloads of the program carry no other number (the
  timestamp is \<^verbatim>\<open>Date.now()\<close>). The integers are exact and unbounded here, where a
  JavaScript number is a double: the two agree on the integers up to \<open>2 ^ 53\<close> in absolute
  value, which \<^verbatim>\<open>JSON.stringify\<close> writes digit by digit as \<open>number_to_string\<close>
  does. The members of a \<open>JObj\<close> stand in the order in which \<^verbatim>\<open>JSON.stringify\<close>
  writes them; \<^verbatim>\<open>JSON.parse\<close> keeps the members of the text, duplicate keys too, and
  \<open>own_prop\<close> reads the last of them, which is the one JavaScript keeps.
\<close>

datatype json =
    JNull
  | JBool bool
  | JNum int
  | JStr jsstring
  | JArr "json list"
  | JObj "(jsstring \<times> json) list"

definition hex_digit :: "nat \<Rightarrow> nat" where
  "hex_digit d = (if d < 10 then 48 + d else 87 + d)"

definition unicode_escape :: "nat \<Rightarrow> jsstring" where
  "unicode_escape c =
     [92, 117, hex_digit (c div 4096 mod 16), hex_digit (c div 256 mod 16),
      hex_digit (c div 16 mod 16), hex_digit (c mod 16)]"

definition escape_unit :: "nat \<Rightarrow> jsstring" where
  "escape_unit c =
     (if c = 8 then [92, 98]
      else if c = 9 then [92, 116]
      else if c = 10 then [92, 110]
      else if c = 12 then [92, 102]
      else if c = 13 then [92, 114]
      else if c = 34 then [92, 34]
      else if c = 92 then [92, 92]
      else if c < 32 then unicode_escape c
      else [c])"

text \<open>
  The body of \<^verbatim>\<open>QuoteJSONString\<close>: a surrogate pair is copied, a lone surrogate and
  a control character are escaped.
\<close>

fun quote_units :: "jsstring \<Rightarrow> jsstring" where
  "quote_units [] = []"
| "quote_units [c] =
     (if is_high_surrogate c \<or> is_low_surrogate c then unicode_escape c else escape_unit c)"
| "quote_units (c # d # cs) =
     (if is_high_surrogate c \<and> is_low_surrogate d then c # d # quote_units cs
      else if is_high_surrogate c \<or> is_low_surrogate c then unicode_escape c @ quote_units (d # cs)
      else escape_unit c @ quote_units (d # cs))"

definition QuoteJSONString :: "jsstring \<Rightarrow> jsstring" where
  "QuoteJSONString s = 34 # quote_units s @ [34]"

function dec_digits :: "nat \<Rightarrow> nat list" where
  "dec_digits n = (if n < 10 then [n] else dec_digits (n div 10) @ [n mod 10])"
  by pat_completeness auto
termination
  by (relation "measure id") auto

declare dec_digits.simps [simp del]

definition digit_chars :: "nat \<Rightarrow> jsstring" where
  "digit_chars n = map (\<lambda>d. 48 + d) (dec_digits n)"

definition number_to_string :: "int \<Rightarrow> jsstring" where
  "number_to_string i = (if i < 0 then 45 # digit_chars (nat (- i)) else digit_chars (nat i))"

text \<open>\<^verbatim>\<open>parts.join(",")\<close>.\<close>

fun commas :: "jsstring list \<Rightarrow> jsstring" where
  "commas [] = []"
| "commas [x] = x"
| "commas (x # y # ys) = x @ 44 # commas (y # ys)"

fun JSON_stringify :: "json \<Rightarrow> jsstring" where
  "JSON_stringify JNull = js ''null''"
| "JSON_stringify (JBool b) = (if b then js ''true'' else js ''false'')"
| "JSON_stringify (JNum i) = number_to_string i"
| "JSON_stringify (JStr s) = QuoteJSONString s"
| "JSON_stringify (JArr vs) = 91 # commas (map JSON_stringify vs) @ [93]"
| "JSON_stringify (JObj kvs) =
     123 # commas (map (\<lambda>kv. QuoteJSONString (fst kv) @ 58 # JSON_stringify (snd kv)) kvs) @ [125]"

definition is_json_ws :: "nat \<Rightarrow> bool" where
  "is_json_ws c = (c = 32 \<or> c = 9 \<or> c = 10 \<or> c = 13)"

definition skip_ws :: "jsstring \<Rightarrow> jsstring" where
  "skip_ws s = dropWhile is_json_ws s"

definition hex_val :: "nat \<Rightarrow> nat option" where
  "hex_val c =
     (if 48 \<le> c \<and> c \<le> 57 then Some (c - 48)
      else if 97 \<le> c \<and> c \<le> 102 then Some (c - 87)
      else if 65 \<le> c \<and> c \<le> 70 then Some (c - 55)
      else None)"

definition hex4 :: "nat \<Rightarrow> nat \<Rightarrow> nat \<Rightarrow> nat \<Rightarrow> nat option" where
  "hex4 a b c d =
     (case (hex_val a, hex_val b, hex_val c, hex_val d) of
        (Some p, Some q, Some r, Some s) \<Rightarrow> Some (p * 4096 + q * 256 + r * 16 + s)
      | _ \<Rightarrow> None)"

definition simple_escape :: "nat \<Rightarrow> nat option" where
  "simple_escape e =
     (if e = 34 then Some 34
      else if e = 92 then Some 92
      else if e = 47 then Some 47
      else if e = 98 then Some 8
      else if e = 102 then Some 12
      else if e = 110 then Some 10
      else if e = 114 then Some 13
      else if e = 116 then Some 9
      else None)"

definition cons_unit :: "nat \<Rightarrow> (jsstring \<times> jsstring) option \<Rightarrow> (jsstring \<times> jsstring) option" where
  "cons_unit u r = (case r of None \<Rightarrow> None | Some (s, rest) \<Rightarrow> Some (u # s, rest))"

text \<open>The code units of a JSON string up to its closing quote, and the text after it.\<close>

fun parse_units :: "jsstring \<Rightarrow> (jsstring \<times> jsstring) option" where
  "parse_units [] = None"
| "parse_units (c # cs) =
     (if c = 34 then Some ([], cs)
      else if c = 92 then
        (case cs of
           [] \<Rightarrow> None
         | e # r \<Rightarrow>
             if e = 117 then
               (case r of
                  h1 # h2 # h3 # h4 # r' \<Rightarrow>
                    (case hex4 h1 h2 h3 h4 of
                       None \<Rightarrow> None
                     | Some u \<Rightarrow> cons_unit u (parse_units r'))
                | _ \<Rightarrow> None)
             else
               (case simple_escape e of
                  None \<Rightarrow> None
                | Some u \<Rightarrow> cons_unit u (parse_units r)))
      else if c < 32 then None
      else cons_unit c (parse_units cs))"

definition is_digit :: "nat \<Rightarrow> bool" where
  "is_digit c = (48 \<le> c \<and> c \<le> 57)"

definition digits_value :: "jsstring \<Rightarrow> nat" where
  "digits_value ds = foldl (\<lambda>a d. 10 * a + (d - 48)) 0 ds"

definition parse_int_part :: "jsstring \<Rightarrow> (nat \<times> jsstring) option" where
  "parse_int_part s =
     (let ds = takeWhile is_digit s
      in if ds = [] \<or> (1 < length ds \<and> hd ds = 48) then None
         else Some (digits_value ds, dropWhile is_digit s))"

definition skip_fraction :: "jsstring \<Rightarrow> jsstring option" where
  "skip_fraction r =
     (case r of
        [] \<Rightarrow> Some r
      | c # r1 \<Rightarrow>
          if c = 46 then (if takeWhile is_digit r1 = [] then None else Some (dropWhile is_digit r1))
          else Some r)"

definition skip_exponent :: "jsstring \<Rightarrow> jsstring option" where
  "skip_exponent r =
     (case r of
        [] \<Rightarrow> Some r
      | c # r1 \<Rightarrow>
          if c = 101 \<or> c = 69 then
            (let r2 = (case r1 of [] \<Rightarrow> r1 | sg # r' \<Rightarrow> if sg = 43 \<or> sg = 45 then r' else r1)
             in if takeWhile is_digit r2 = [] then None else Some (dropWhile is_digit r2))
          else Some r)"

definition starts_fraction_or_exponent :: "jsstring \<Rightarrow> bool" where
  "starts_fraction_or_exponent r = (case r of [] \<Rightarrow> False | c # _ \<Rightarrow> c = 46 \<or> c = 101 \<or> c = 69)"

text \<open>
  A numeral with a fraction or an exponent has no value in this model. The strict parser
  (\<open>lenient = False\<close>) rejects it; the lenient one reads it over, so that
  \<open>JSON_parse\<close> can tell such a text from a syntax error.
\<close>

definition parse_number :: "bool \<Rightarrow> jsstring \<Rightarrow> (json \<times> jsstring) option" where
  "parse_number lenient s =
     (let neg = (case s of [] \<Rightarrow> False | c # _ \<Rightarrow> c = 45);
          s1 = (if neg then tl s else s)
      in case parse_int_part s1 of
           None \<Rightarrow> None
         | Some (n, r) \<Rightarrow>
             if starts_fraction_or_exponent r then
               (if lenient then
                  (case skip_fraction r of
                     None \<Rightarrow> None
                   | Some r1 \<Rightarrow>
                       (case skip_exponent r1 of None \<Rightarrow> None | Some r2 \<Rightarrow> Some (JNum 0, r2)))
                else None)
             else Some (JNum (if neg then - int n else int n), r))"

definition parse_literal :: "jsstring \<Rightarrow> (json \<times> jsstring) option" where
  "parse_literal s =
     (if startsWith s (js ''true'') then Some (JBool True, drop 4 s)
      else if startsWith s (js ''false'') then Some (JBool False, drop 5 s)
      else if startsWith s (js ''null'') then Some (JNull, drop 4 s)
      else None)"

definition parse_scalar :: "bool \<Rightarrow> jsstring \<Rightarrow> (json \<times> jsstring) option" where
  "parse_scalar lenient s =
     (case s of
        [] \<Rightarrow> None
      | c # cs \<Rightarrow>
          if c = 34 then
            (case parse_units cs of None \<Rightarrow> None | Some (str, r) \<Rightarrow> Some (JStr str, r))
          else if c = 45 \<or> is_digit c then parse_number lenient s
          else parse_literal s)"

text \<open>
  The recursive descent over arrays and objects. Each function returns the value read
  and the text left. The tests \<open>length r' < length s\<close> before a recursive call on the
  text left by an earlier call hold whenever they are reached (\<open>parse_value_shorter\<close>,
  \<open>parse_elements_unguarded\<close> and \<open>parse_members_unguarded\<close> below); they are what
  the termination proof uses.
\<close>

lemma skip_ws_length: "skip_ws s = c # cs \<Longrightarrow> length cs < length s"
proof -
  assume a: "skip_ws s = c # cs"
  have "length (dropWhile is_json_ws s) \<le> length s" by (rule length_dropWhile_le)
  with a show ?thesis by (simp add: skip_ws_def)
qed

function parse_value :: "bool \<Rightarrow> jsstring \<Rightarrow> (json \<times> jsstring) option"
  and parse_elements :: "bool \<Rightarrow> jsstring \<Rightarrow> (json list \<times> jsstring) option"
  and parse_members :: "bool \<Rightarrow> jsstring \<Rightarrow> ((jsstring \<times> json) list \<times> jsstring) option"
where
  "parse_value lenient s =
     (case skip_ws s of
        [] \<Rightarrow> None
      | c # cs \<Rightarrow>
          if c = 91 then
            (case skip_ws cs of
               [] \<Rightarrow> None
             | d # r \<Rightarrow>
                 if d = 93 then Some (JArr [], r)
                 else (case parse_elements lenient cs of
                         None \<Rightarrow> None
                       | Some (vs, r') \<Rightarrow> Some (JArr vs, r')))
          else if c = 123 then
            (case skip_ws cs of
               [] \<Rightarrow> None
             | d # r \<Rightarrow>
                 if d = 125 then Some (JObj [], r)
                 else (case parse_members lenient cs of
                         None \<Rightarrow> None
                       | Some (kvs, r') \<Rightarrow> Some (JObj kvs, r')))
          else parse_scalar lenient (c # cs))"
| "parse_elements lenient s =
     (case parse_value lenient s of
        None \<Rightarrow> None
      | Some (v, r) \<Rightarrow>
          (case skip_ws r of
             [] \<Rightarrow> None
           | c # r' \<Rightarrow>
               if c = 93 then Some ([v], r')
               else if c = 44 \<and> length r' < length s then
                 (case parse_elements lenient r' of
                    None \<Rightarrow> None
                  | Some (vs, r'') \<Rightarrow> Some (v # vs, r''))
               else None))"
| "parse_members lenient s =
     (case skip_ws s of
        [] \<Rightarrow> None
      | q # cs \<Rightarrow>
          if q \<noteq> 34 then None
          else
            (case parse_units cs of
               None \<Rightarrow> None
             | Some (k, r) \<Rightarrow>
                 (case skip_ws r of
                    [] \<Rightarrow> None
                  | colon # r1 \<Rightarrow>
                      if colon = 58 \<and> length r1 < length s then
                        (case parse_value lenient r1 of
                           None \<Rightarrow> None
                         | Some (v, r2) \<Rightarrow>
                             (case skip_ws r2 of
                                [] \<Rightarrow> None
                              | c # r3 \<Rightarrow>
                                  if c = 125 then Some ([(k, v)], r3)
                                  else if c = 44 \<and> length r3 < length s then
                                    (case parse_members lenient r3 of
                                       None \<Rightarrow> None
                                     | Some (kvs, r4) \<Rightarrow> Some ((k, v) # kvs, r4))
                                  else None))
                      else None)))"
  by pat_completeness auto

termination
  apply (relation "measure (\<lambda>x. case x of
        Inl (l, s) \<Rightarrow> 2 * length s
      | Inr (Inl (l, s)) \<Rightarrow> 2 * length s + 1
      | Inr (Inr (l, s)) \<Rightarrow> 2 * length s + 1)")
      apply simp_all
   apply (auto dest: skip_ws_length)
  done

declare parse_value.simps [simp del] parse_elements.simps [simp del] parse_members.simps [simp del]

text \<open>
  \<^verbatim>\<open>JSON.parse\<close>: the value of the whole text, \<open>SyntaxError\<close> for a text that is
  not JSON, and \<open>OutsideModel\<close> for a JSON text with a numeral that is not an integer
  numeral.
\<close>

definition JSON_parse :: "jsstring \<Rightarrow> error + json" where
  "JSON_parse s =
     (case parse_value False s of
        Some (v, r) \<Rightarrow> if skip_ws r = [] then Inr v else Inl SyntaxError
      | None \<Rightarrow>
          (case parse_value True s of
             Some (v, r) \<Rightarrow> if skip_ws r = [] then Inl OutsideModel else Inl SyntaxError
           | None \<Rightarrow> Inl SyntaxError))"

subsection \<open>The signed-state codec\<close>

text \<open>
  \<open>HMAC key message\<close> is the HMAC-SHA256 tag, a 256-bit word, of the UTF-8 bytes of
  \<open>message\<close> under the UTF-8 bytes of \<open>key\<close>: what \<^verbatim>\<open>crypto.subtle.sign\<close>
  returns for the imported key. \<^verbatim>\<open>crypto.subtle.verify\<close> compares a signature with
  that tag.
\<close>

type_synonym hmac = "jsstring \<Rightarrow> jsstring \<Rightarrow> 256 word"

text \<open>The 32 bytes of a tag, most significant first.\<close>

definition mac_bytes :: "256 word \<Rightarrow> 8 word list" where
  "mac_bytes w = map (\<lambda>i. ucast (drop_bit (8 * (31 - i)) w)) [0..<32]"

text \<open>
  \<^verbatim>\<open>crypto.subtle.importKey("raw", encoder.encode(secret), {name: "HMAC", ...})\<close>:
  Web Cryptography rejects key data of length zero with a \<^verbatim>\<open>DataError\<close>.
\<close>

definition importKey :: "jsstring \<Rightarrow> error + jsstring" where
  "importKey secret = (if secret = [] then Inl DataError else Inr secret)"

definition encodeState :: "hmac \<Rightarrow> json \<Rightarrow> jsstring \<Rightarrow> error + jsstring" where
  "encodeState HMAC data secret =
     (let dataStr = JSON_stringify data
      in case importKey secret of
           Inl e \<Rightarrow> Inl e
         | Inr key \<Rightarrow>
             (let signature = mac_bytes (HMAC key dataStr)
              in case btoa (map unat signature) of
                   Inl e \<Rightarrow> Inl e
                 | Inr sigBase64 \<Rightarrow>
                     (case btoa dataStr of
                        Inl e \<Rightarrow> Inl e
                      | Inr dataBase64 \<Rightarrow> Inr (dataBase64 @ 46 # sigBase64))))"

text \<open>
  \<^verbatim>\<open>decodeState\<close> catches every exception and returns \<^verbatim>\<open>null\<close>, here
  \<open>Inr None\<close>; \<open>Inr (Some v)\<close> is a value other than \<^verbatim>\<open>null\<close>.
\<close>

definition decodeState :: "hmac \<Rightarrow> jsstring \<Rightarrow> jsstring \<Rightarrow> error + json option" where
  "decodeState HMAC state secret =
     (case js_split 46 state of
        dataBase64 # sigBase64 # _ \<Rightarrow>
          if dataBase64 = [] \<or> sigBase64 = [] then Inr None
          else
            (case atob dataBase64 of
               None \<Rightarrow> Inr None
             | Some dataStr \<Rightarrow>
                 (case importKey secret of
                    Inl _ \<Rightarrow> Inr None
                  | Inr key \<Rightarrow>
                      (case atob sigBase64 of
                         None \<Rightarrow> Inr None
                       | Some sigStr \<Rightarrow>
                           (let signature = map of_nat sigStr;
                                valid = (signature = mac_bytes (HMAC key dataStr))
                            in if \<not> valid then Inr None
                               else
                                 (case JSON_parse dataStr of
                                    Inl x \<Rightarrow> if x = OutsideModel then Inl x else Inr None
                                  | Inr v \<Rightarrow> if v = JNull then Inr None else Inr (Some v))))))
      | _ \<Rightarrow> Inr None)"

text \<open>The second segment of the token \<open>encodeState\<close> builds.\<close>

definition sign_b64 :: "hmac \<Rightarrow> jsstring \<Rightarrow> jsstring \<Rightarrow> jsstring" where
  "sign_b64 HMAC secret dataStr = b64_encode (map unat (mac_bytes (HMAC secret dataStr)))"

subsection \<open>Requests, responses and the environment\<close>

definition STRAVA_AUTHORIZE_URL :: jsstring where
  "STRAVA_AUTHORIZE_URL = js ''https://www.strava.com/oauth/authorize''"

definition STRAVA_TOKEN_URL :: jsstring where
  "STRAVA_TOKEN_URL = js ''https://www.strava.com/oauth/token''"

definition STRAVA_SCOPE_LIST :: "jsstring list" where
  "STRAVA_SCOPE_LIST =
     [js ''read'', js ''read_all'', js ''profile:read_all'', js ''activity:read'',
      js ''activity:read_all'', js ''activity:write'']"

definition STRAVA_SCOPES :: jsstring where
  "STRAVA_SCOPES = commas STRAVA_SCOPE_LIST"

text \<open>\<^verbatim>\<open>c.env\<close>: a binding that is not configured is \<open>None\<close>.\<close>

record env =
  STRAVA_CLIENT_ID :: "jsstring option"
  STRAVA_CLIENT_SECRET :: "jsstring option"
  OAUTH_STATE_SECRET :: "jsstring option"

text \<open>
  What the handlers read of a request: \<^verbatim>\<open>c.req.header(name)\<close>,
  \<^verbatim>\<open>c.req.query(name)\<close>, and the body as the handlers consume it:
  \<open>req_text_params\<close> is \<^verbatim>\<open>new URLSearchParams(await c.req.text())\<close>,
  \<open>req_json\<close> is \<^verbatim>\<open>await c.req.json()\<close> and \<open>req_json_params\<close> is
  \<^verbatim>\<open>new URLSearchParams(await c.req.json())\<close>, each \<open>None\<close> when the body is not
  JSON.
\<close>

record request =
  req_method :: jsstring
  req_path :: jsstring
  req_header :: "jsstring \<Rightarrow> jsstring option"
  req_query :: "jsstring \<Rightarrow> jsstring option"
  req_text_params :: "(jsstring \<times> jsstring) list"
  req_json_params :: "(jsstring \<times> jsstring) list option"
  req_json :: "json option"

text \<open>
  A parsed \<^verbatim>\<open>URL\<close>: its serialization without the query, and the pairs of its
  \<^verbatim>\<open>searchParams\<close>.
\<close>

record url =
  url_base :: jsstring
  url_params :: "(jsstring \<times> jsstring) list"

text \<open>
  The upstream answer: \<^verbatim>\<open>tokenResponse.ok\<close>, and
  \<^verbatim>\<open>await tokenResponse.json()\<close>, \<open>None\<close> when the body is not JSON.
\<close>

record fetch_response =
  resp_ok :: bool
  resp_json :: "json option"

text \<open>A POST of a form to a URL.\<close>

type_synonym fetch = "jsstring \<Rightarrow> (jsstring \<times> jsstring) list \<Rightarrow> fetch_response"

text \<open>
  \<open>Json status body\<close> is \<^verbatim>\<open>c.json(body, status)\<close>, \<open>Text\<close> is
  \<^verbatim>\<open>c.text\<close>, \<open>Redirect u\<close> is \<^verbatim>\<open>c.redirect(u.toString())\<close>, a 302, and
  \<open>Transport token\<close> is the answer of the MCP transport for a \<^verbatim>\<open>StravaClient\<close>
  built on \<open>token\<close>.
\<close>

datatype response =
    Json nat json
  | Text nat jsstring
  | Redirect url
  | Transport jsstring

text \<open>A string or \<^verbatim>\<open>undefined\<close> in a condition: \<open>None\<close> when it is falsy.\<close>

definition truthy_str :: "jsstring option \<Rightarrow> jsstring option" where
  "truthy_str x = (case x of None \<Rightarrow> None | Some s \<Rightarrow> if s = [] then None else Some s)"

fun truthy :: "json \<Rightarrow> bool" where
  "truthy JNull = False"
| "truthy (JBool b) = b"
| "truthy (JNum n) = (n \<noteq> 0)"
| "truthy (JStr s) = (s \<noteq> [])"
| "truthy (JArr vs) = True"
| "truthy (JObj kvs) = True"

text \<open>
  Reading a property of a parsed value, for the names the source reads (none of them is
  inherited): the last member with the name, since \<^verbatim>\<open>JSON.parse\<close> lets a later
  member overwrite an earlier one; \<open>None\<close> is \<^verbatim>\<open>undefined\<close>.
\<close>

fun own_prop :: "json \<Rightarrow> jsstring \<Rightarrow> json option" where
  "own_prop (JObj kvs) k = map_of (rev kvs) k"
| "own_prop v k = None"

definition truthy_prop :: "json \<Rightarrow> jsstring \<Rightarrow> json option" where
  "truthy_prop v k =
     (case own_prop v k of None \<Rightarrow> None | Some x \<Rightarrow> if truthy x then Some x else None)"

text \<open>
  A property the source's type assertion declares a string (a number), read in a
  condition and then used: \<open>None\<close> when it is falsy, \<open>OutsideModel\<close> when it is truthy
  and of another type, where JavaScript would convert it.
\<close>

definition string_prop :: "json \<Rightarrow> jsstring \<Rightarrow> error + jsstring option" where
  "string_prop v k =
     (case truthy_prop v k of
        None \<Rightarrow> Inr None
      | Some (JStr s) \<Rightarrow> Inr (Some s)
      | Some _ \<Rightarrow> Inl OutsideModel)"

definition number_prop :: "json \<Rightarrow> jsstring \<Rightarrow> error + int option" where
  "number_prop v k =
     (case truthy_prop v k of
        None \<Rightarrow> Inr None
      | Some (JNum n) \<Rightarrow> Inr (Some n)
      | Some _ \<Rightarrow> Inl OutsideModel)"

text \<open>
  An object literal as \<^verbatim>\<open>JSON.stringify\<close> and \<^verbatim>\<open>c.json\<close> see it: a property
  whose value is \<^verbatim>\<open>undefined\<close> is left out.
\<close>

definition object_literal :: "(jsstring \<times> json option) list \<Rightarrow> json" where
  "object_literal props =
     JObj (concat (map (\<lambda>(k, v). case v of None \<Rightarrow> [] | Some x \<Rightarrow> [(k, x)]) props))"

text \<open>
  \<^verbatim>\<open>searchParams.set(name, value)\<close>: the first pair with the name takes the value and
  the other pairs with the name are removed; without such a pair, one is appended.
\<close>

fun params_set :: "jsstring \<Rightarrow> jsstring \<Rightarrow> (jsstring \<times> jsstring) list \<Rightarrow> (jsstring \<times> jsstring) list" where
  "params_set k v [] = [(k, v)]"
| "params_set k v (p # ps) =
     (if fst p = k then (k, v) # filter (\<lambda>q. fst q \<noteq> k) ps else p # params_set k v ps)"

definition searchParams_set :: "jsstring \<Rightarrow> jsstring \<Rightarrow> url \<Rightarrow> url" where
  "searchParams_set k v u = u\<lparr>url_params := params_set (usv k) (usv v) (url_params u)\<rparr>"

definition searchParams_get :: "url \<Rightarrow> jsstring \<Rightarrow> jsstring option" where
  "searchParams_get u k = map_of (url_params u) k"

text \<open>\<^verbatim>\<open>new URLSearchParams({...})\<close> of a record of strings.\<close>

definition URLSearchParams :: "(jsstring \<times> jsstring) list \<Rightarrow> (jsstring \<times> jsstring) list" where
  "URLSearchParams init = map (\<lambda>(k, v). (usv k, usv v)) init"

subsection \<open>The handlers\<close>

text \<open>The \<^verbatim>\<open>baseUrl\<close> every metadata handler and the authorize handler compute.\<close>

definition base_url :: "request \<Rightarrow> jsstring" where
  "base_url req =
     (let host = (case truthy_str (req_header req (js ''host'')) of
                    None \<Rightarrow> js ''localhost'' | Some h \<Rightarrow> h);
          protocol = (if js_includes host (js ''localhost'') then js ''http'' else js ''https'')
      in protocol @ js ''://'' @ host)"

definition health :: "request \<Rightarrow> error + response" where
  "health req = Inr (Text 200 (js ''Strava MCP server''))"

definition protected_resource_metadata :: "request \<Rightarrow> error + response" where
  "protected_resource_metadata req =
     (let baseUrl = base_url req
      in Inr (Json 200 (JObj
           [(js ''resource'', JStr (baseUrl @ js ''/mcp'')),
            (js ''authorization_servers'', JArr [JStr baseUrl]),
            (js ''scopes_supported'', JArr (map JStr (js_split 44 STRAVA_SCOPES)))])))"

definition authorization_server_metadata :: "request \<Rightarrow> error + response" where
  "authorization_server_metadata req =
     (let baseUrl = base_url req
      in Inr (Json 200 (JObj
           [(js ''issuer'', JStr baseUrl),
            (js ''authorization_endpoint'', JStr (baseUrl @ js ''/oauth/authorize'')),
            (js ''token_endpoint'', JStr (baseUrl @ js ''/oauth/token'')),
            (js ''registration_endpoint'', JStr (baseUrl @ js ''/oauth/register'')),
            (js ''scopes_supported'', JArr (map JStr (js_split 44 STRAVA_SCOPES))),
            (js ''response_types_supported'', JArr [JStr (js ''code'')]),
            (js ''grant_types_supported'',
               JArr [JStr (js ''authorization_code''), JStr (js ''refresh_token'')]),
            (js ''token_endpoint_auth_methods_supported'', JArr [JStr (js ''none'')]),
            (js ''code_challenge_methods_supported'', JArr [JStr (js ''S256'')])])))"

text \<open>
  \<^verbatim>\<open>POST /oauth/register\<close>. \<open>randomUUID\<close> is the value of
  \<^verbatim>\<open>crypto.randomUUID()\<close>. Reading a property of \<^verbatim>\<open>null\<close> throws.
\<close>

definition oauth_register :: "jsstring \<Rightarrow> request \<Rightarrow> error + response" where
  "oauth_register randomUUID req =
     (case req_json req of
        None \<Rightarrow> Inl SyntaxError
      | Some body \<Rightarrow>
          if body = JNull then Inl TypeError
          else
            (let clientId = randomUUID
             in Inr (Json 200 (JObj
                [(js ''client_id'', JStr clientId),
                 (js ''client_secret_expires_at'', JNum 0),
                 (js ''redirect_uris'',
                    (case truthy_prop body (js ''redirect_uris'') of
                       None \<Rightarrow> JArr [] | Some uris \<Rightarrow> uris)),
                 (js ''grant_types'',
                    JArr [JStr (js ''authorization_code''), JStr (js ''refresh_token'')]),
                 (js ''response_types'', JArr [JStr (js ''code'')]),
                 (js ''token_endpoint_auth_method'', JStr (js ''none''))]))))"

text \<open>
  What both grants of \<^verbatim>\<open>POST /oauth/token\<close> do with the upstream answer; the two
  copies in the source differ in the description of the failure only.
\<close>

definition token_result :: "jsstring \<Rightarrow> fetch_response \<Rightarrow> error + response" where
  "token_result failure tokenResponse =
     (if \<not> resp_ok tokenResponse then
        Inr (Json 400 (JObj [(js ''error'', JStr (js ''invalid_grant'')),
                            (js ''error_description'', JStr failure)]))
      else
        (case resp_json tokenResponse of
           None \<Rightarrow> Inl SyntaxError
         | Some tokenData \<Rightarrow>
             if tokenData = JNull then Inl TypeError
             else
               (case truthy_prop tokenData (js ''error'') of
                  Some err \<Rightarrow> Inr (Json 400 (JObj [(js ''error'', err)]))
                | None \<Rightarrow>
                    Inr (Json 200 (object_literal
                      [(js ''access_token'', own_prop tokenData (js ''access_token'')),
                       (js ''token_type'',
                          (case truthy_prop tokenData (js ''token_type'') of
                             None \<Rightarrow> Some (JStr (js ''Bearer'')) | Some tt \<Rightarrow> Some tt)),
                       (js ''expires_in'', own_prop tokenData (js ''expires_in'')),
                       (js ''refresh_token'', own_prop tokenData (js ''refresh_token'')),
                       (js ''scope'', Some (JStr STRAVA_SCOPES))])))))"

text \<open>
  \<^verbatim>\<open>codeData.strava_code\<close> as a value of \<^verbatim>\<open>URLSearchParams\<close>: a missing
  property is written \<^verbatim>\<open>undefined\<close>.
\<close>

definition strava_code_of :: "json \<Rightarrow> error + jsstring" where
  "strava_code_of codeData =
     (case own_prop codeData (js ''strava_code'') of
        None \<Rightarrow> Inr (js ''undefined'')
      | Some (JStr s) \<Rightarrow> Inr s
      | Some _ \<Rightarrow> Inl OutsideModel)"

definition oauth_token :: "hmac \<Rightarrow> fetch \<Rightarrow> env \<Rightarrow> request \<Rightarrow> error + response" where
  "oauth_token HMAC fetch e req =
     (case (truthy_str (STRAVA_CLIENT_ID e), truthy_str (STRAVA_CLIENT_SECRET e),
            truthy_str (OAUTH_STATE_SECRET e)) of
        (Some clientId, Some clientSecret, Some stateSecret) \<Rightarrow>
          (let contentType = (case truthy_str (req_header req (js ''content-type'')) of
                                None \<Rightarrow> [] | Some h \<Rightarrow> h)
           in case (if js_includes contentType (js ''application/x-www-form-urlencoded'')
                    then Some (req_text_params req) else req_json_params req) of
                None \<Rightarrow> Inl SyntaxError
              | Some params \<Rightarrow>
                  (let grantType = map_of params (js ''grant_type'');
                       code = map_of params (js ''code'');
                       refreshToken = map_of params (js ''refresh_token'')
                   in if grantType = Some (js ''refresh_token'') then
                        (case truthy_str refreshToken of
                           None \<Rightarrow>
                             Inr (Json 400 (JObj
                               [(js ''error'', JStr (js ''invalid_request'')),
                                (js ''error_description'', JStr (js ''Missing refresh_token''))]))
                         | Some rt \<Rightarrow>
                             token_result (js ''Token refresh failed'')
                               (fetch STRAVA_TOKEN_URL (URLSearchParams
                                  [(js ''client_id'', clientId),
                                   (js ''client_secret'', clientSecret),
                                   (js ''grant_type'', js ''refresh_token''),
                                   (js ''refresh_token'', rt)])))
                      else if grantType \<noteq> Some (js ''authorization_code'') then
                        Inr (Json 400 (JObj [(js ''error'', JStr (js ''unsupported_grant_type''))]))
                      else
                        (case truthy_str code of
                           None \<Rightarrow>
                             Inr (Json 400 (JObj
                               [(js ''error'', JStr (js ''invalid_request'')),
                                (js ''error_description'', JStr (js ''Missing code''))]))
                         | Some wrapped \<Rightarrow>
                             (case decodeState HMAC wrapped stateSecret of
                                Inl x \<Rightarrow> Inl x
                              | Inr decoded \<Rightarrow>
                                  (case (case decoded of
                                           None \<Rightarrow> None
                                         | Some cd \<Rightarrow> if truthy cd then Some cd else None) of
                                     None \<Rightarrow>
                                       Inr (Json 400 (JObj
                                         [(js ''error'', JStr (js ''invalid_grant'')),
                                          (js ''error_description'', JStr (js ''Invalid code''))]))
                                   | Some codeData \<Rightarrow>
                                       (case strava_code_of codeData of
                                          Inl x \<Rightarrow> Inl x
                                        | Inr strava_code \<Rightarrow>
                                            token_result (js ''Token exchange failed'')
                                              (fetch STRAVA_TOKEN_URL (URLSearchParams
                                                 [(js ''client_id'', clientId),
                                                  (js ''client_secret'', clientSecret),
                                                  (js ''code'', strava_code),
                                                  (js ''grant_type'', js ''authorization_code'')]))))))))
      | _ \<Rightarrow>
          Inr (Json 500 (JObj [(js ''error'', JStr (js ''server_error'')),
                              (js ''error_description'', JStr (js ''OAuth not configured''))])))"

text \<open>
  \<^verbatim>\<open>GET /oauth/authorize\<close>. \<open>now\<close> is \<^verbatim>\<open>Date.now()\<close>.
  \<^verbatim>\<open>new URL(STRAVA_AUTHORIZE_URL)\<close> is the constant's URL, with no query.
\<close>

definition oauth_authorize :: "hmac \<Rightarrow> int \<Rightarrow> env \<Rightarrow> request \<Rightarrow> error + response" where
  "oauth_authorize HMAC now e req =
     (case (truthy_str (STRAVA_CLIENT_ID e), truthy_str (OAUTH_STATE_SECRET e)) of
        (Some clientId, Some stateSecret) \<Rightarrow>
          (let ourCallbackUrl = base_url req @ js ''/oauth/callback'';
               clientRedirectUri = req_query req (js ''redirect_uri'');
               clientState = req_query req (js ''state'')
           in case encodeState HMAC
                     (object_literal
                        [(js ''redirect_uri'', map_option JStr clientRedirectUri),
                         (js ''client_state'', map_option JStr clientState),
                         (js ''timestamp'', Some (JNum now))])
                     stateSecret of
                Inl x \<Rightarrow> Inl x
              | Inr state \<Rightarrow>
                  (let authUrl = \<lparr>url_base = STRAVA_AUTHORIZE_URL, url_params = []\<rparr>;
                       authUrl = searchParams_set (js ''client_id'') clientId authUrl;
                       authUrl = searchParams_set (js ''response_type'') (js ''code'') authUrl;
                       authUrl = searchParams_set (js ''redirect_uri'') ourCallbackUrl authUrl;
                       authUrl = searchParams_set (js ''scope'') STRAVA_SCOPES authUrl;
                       authUrl = searchParams_set (js ''state'') state authUrl;
                       authUrl = searchParams_set (js ''approval_prompt'') (js ''auto'') authUrl
                   in Inr (Redirect authUrl)))
      | _ \<Rightarrow> Inr (Json 500 (JObj [(js ''error'', JStr (js ''OAuth not configured''))])))"

text \<open>
  The redirect both branches of the callback end with: \<^verbatim>\<open>new URL(redirect_uri)\<close>,
  which throws a \<^verbatim>\<open>TypeError\<close> when the string is not a URL, one parameter set, and
  \<^verbatim>\<open>state\<close> set when the state carries a \<^verbatim>\<open>client_state\<close>.
\<close>

definition redirect_to_client ::
  "(jsstring \<Rightarrow> url option) \<Rightarrow> json \<Rightarrow> jsstring \<Rightarrow> jsstring \<Rightarrow> jsstring \<Rightarrow> error + response" where
  "redirect_to_client new_URL stateData redirect_uri name val =
     (case new_URL redirect_uri of
        None \<Rightarrow> Inl TypeError
      | Some redirectUrl \<Rightarrow>
          (let redirectUrl = searchParams_set name val redirectUrl
           in case string_prop stateData (js ''client_state'') of
                Inl x \<Rightarrow> Inl x
              | Inr None \<Rightarrow> Inr (Redirect redirectUrl)
              | Inr (Some client_state) \<Rightarrow>
                  Inr (Redirect (searchParams_set (js ''state'') client_state redirectUrl))))"

text \<open>
  The end of the callback, from \<^verbatim>\<open>const wrappedCode = await encodeState(...)\<close> on:
  what the handler does with a state it has accepted.
\<close>

definition wrap_and_redirect ::
  "hmac \<Rightarrow> (jsstring \<Rightarrow> url option) \<Rightarrow> jsstring \<Rightarrow> json \<Rightarrow> jsstring \<Rightarrow> error + response" where
  "wrap_and_redirect HMAC new_URL stateSecret stateData code =
     (case encodeState HMAC (JObj [(js ''strava_code'', JStr code)]) stateSecret of
        Inl x \<Rightarrow> Inl x
      | Inr wrappedCode \<Rightarrow>
          (case string_prop stateData (js ''redirect_uri'') of
             Inl x \<Rightarrow> Inl x
           | Inr (Some redirect_uri) \<Rightarrow>
               redirect_to_client new_URL stateData redirect_uri (js ''code'') wrappedCode
           | Inr None \<Rightarrow> Inr (Json 200 (JObj [(js ''code'', JStr wrappedCode)]))))"

definition oauth_callback ::
  "hmac \<Rightarrow> (jsstring \<Rightarrow> url option) \<Rightarrow> int \<Rightarrow> env \<Rightarrow> request \<Rightarrow> error + response" where
  "oauth_callback HMAC new_URL now e req =
     (case truthy_str (OAUTH_STATE_SECRET e) of
        None \<Rightarrow> Inr (Json 500 (JObj [(js ''error'', JStr (js ''OAuth not configured''))]))
      | Some stateSecret \<Rightarrow>
          (let code = req_query req (js ''code'');
               state = req_query req (js ''state'');
               error = req_query req (js ''error'')
           in case truthy_str error of
                Some err \<Rightarrow>
                  (let errorDesc = (case truthy_str (req_query req (js ''error_description'')) of
                                      None \<Rightarrow> err | Some d \<Rightarrow> d);
                       direct = Inr (Json 400 (JObj
                                  [(js ''error'', JStr (js ''OAuth error: '' @ errorDesc))]))
                   in case truthy_str state of
                        None \<Rightarrow> direct
                      | Some st \<Rightarrow>
                          (case decodeState HMAC st stateSecret of
                             Inl x \<Rightarrow> Inl x
                           | Inr None \<Rightarrow> direct
                           | Inr (Some stateData) \<Rightarrow>
                               (case string_prop stateData (js ''redirect_uri'') of
                                  Inl x \<Rightarrow> Inl x
                                | Inr None \<Rightarrow> direct
                                | Inr (Some redirect_uri) \<Rightarrow>
                                    redirect_to_client new_URL stateData redirect_uri
                                      (js ''error'') err)))
              | None \<Rightarrow>
                  (case (truthy_str code, truthy_str state) of
                     (Some cd, Some st) \<Rightarrow>
                       (case decodeState HMAC st stateSecret of
                          Inl x \<Rightarrow> Inl x
                        | Inr decoded \<Rightarrow>
                            (case (case decoded of
                                     None \<Rightarrow> None
                                   | Some sd \<Rightarrow> if truthy sd then Some sd else None) of
                               None \<Rightarrow>
                                 Inr (Json 400 (JObj [(js ''error'', JStr (js ''Invalid state''))]))
                             | Some stateData \<Rightarrow>
                                 (case number_prop stateData (js ''timestamp'') of
                                    Inl x \<Rightarrow> Inl x
                                  | Inr timestamp \<Rightarrow>
                                      if (case timestamp of
                                            None \<Rightarrow> False
                                          | Some t \<Rightarrow> now - t > 10 * 60 * 1000)
                                      then Inr (Json 400 (JObj
                                             [(js ''error'', JStr (js ''State expired''))]))
                                      else wrap_and_redirect HMAC new_URL stateSecret stateData cd)))
                   | _ \<Rightarrow>
                       Inr (Json 400 (JObj [(js ''error'', JStr (js ''Missing code or state''))])))))"

definition mcp_post :: "request \<Rightarrow> error + response" where
  "mcp_post req =
     (let authHeader = req_header req (js ''authorization'');
          accessToken = map_option (\<lambda>h. js_replace h (js ''Bearer '') []) authHeader
      in case truthy_str accessToken of
           None \<Rightarrow>
             Inr (Json 401 (JObj
               [(js ''jsonrpc'', JStr (js ''2.0'')),
                (js ''error'', JObj [(js ''code'', JNum (- 32001)),
                                    (js ''message'', JStr (js ''Missing authorization token''))]),
                (js ''id'', JNull)]))
         | Some token \<Rightarrow> Inr (Transport token))"

definition mcp_method_not_allowed :: "request \<Rightarrow> error + response" where
  "mcp_method_not_allowed req =
     Inr (Json 405 (JObj
       [(js ''jsonrpc'', JStr (js ''2.0'')),
        (js ''error'', JObj [(js ''code'', JNum (- 32000)),
                            (js ''message'', JStr (js ''Method not allowed in stateless mode''))]),
        (js ''id'', JNull)]))"

text \<open>
  The application: the routes in the order the source registers them, matched on the
  method and the exact path; Hono answers 404 when none matches. Hono serves a
  \<^verbatim>\<open>HEAD\<close> request through the \<^verbatim>\<open>GET\<close> routes and drops the body, which the
  responses here cannot express: such a request is \<open>OutsideModel\<close>.
\<close>

definition app ::
  "hmac \<Rightarrow> (jsstring \<Rightarrow> url option) \<Rightarrow> fetch \<Rightarrow> int \<Rightarrow> jsstring \<Rightarrow> env \<Rightarrow> request
     \<Rightarrow> error + response" where
  "app HMAC new_URL fetch now randomUUID e req =
     (let m = req_method req; p = req_path req
      in if m = js ''HEAD'' then Inl OutsideModel
         else if m = js ''GET'' \<and> p = js ''/'' then health req
         else if m = js ''GET'' \<and> p = js ''/.well-known/oauth-protected-resource''
           then protected_resource_metadata req
         else if m = js ''GET'' \<and> p = js ''/.well-known/oauth-protected-resource/mcp''
           then protected_resource_metadata req
         else if m = js ''GET'' \<and> p = js ''/.well-known/oauth-authorization-server''
           then authorization_server_metadata req
         else if m = js ''POST'' \<and> p = js ''/oauth/register'' then oauth_register randomUUID req
         else if m = js ''POST'' \<and> p = js ''/oauth/token'' then oauth_token HMAC fetch e req
         else if m = js ''GET'' \<and> p = js ''/oauth/authorize'' then oauth_authorize HMAC now e req
         else if m = js ''GET'' \<and> p = js ''/oauth/callback''
           then oauth_callback HMAC new_URL now e req
         else if m = js ''POST'' \<and> p = js ''/mcp'' then mcp_post req
         else if (m = js ''GET'' \<or> m = js ''DELETE'') \<and> p = js ''/mcp''
           then mcp_method_not_allowed req
         else Inr (Text 404 (js ''404 Not Found'')))"

subsection \<open>Example inputs\<close>

text \<open>
  Concrete values for the examples that accompany the theorems: a keyed checksum in the
  place of HMAC-SHA256 (the theorems hold for every function in that place), the URL
  parser at the one URL the examples redirect to (every other string is rejected, as
  \<^verbatim>\<open>new URL\<close> rejects the strings the examples use that are not URLs), an upstream
  that answers every request to the token URL with the same token data, an environment
  with the three secrets, and requests as the tests of the repository build them.
\<close>

definition example_hmac :: hmac where
  "example_hmac key message =
     of_nat (sum_list key * 65599 + sum_list message * 31 + length message)"

definition example_URL :: "jsstring \<Rightarrow> url option" where
  "example_URL s =
     (if s = js ''https://client.example/cb'' then Some \<lparr>url_base = s, url_params = []\<rparr>
      else None)"

definition example_token_data :: json where
  "example_token_data =
     JObj [(js ''access_token'', JStr (js ''tok'')),
           (js ''token_type'', JStr (js ''Bearer'')),
           (js ''expires_in'', JNum 21600),
           (js ''refresh_token'', JStr (js ''r1'')),
           (js ''scope'', JStr (js ''read''))]"

definition example_fetch :: fetch where
  "example_fetch u form = \<lparr>resp_ok = (u = STRAVA_TOKEN_URL), resp_json = Some example_token_data\<rparr>"

definition example_env :: env where
  "example_env =
     \<lparr>STRAVA_CLIENT_ID = Some (js ''12345''),
      STRAVA_CLIENT_SECRET = Some (js ''shhh''),
      OAUTH_STATE_SECRET = Some (js ''state-secret'')\<rparr>"

definition GET :: "jsstring \<Rightarrow> (jsstring \<times> jsstring) list \<Rightarrow> request" where
  "GET path query =
     \<lparr>req_method = js ''GET'', req_path = path,
      req_header = map_of [(js ''host'', js ''localhost'')],
      req_query = map_of query,
      req_text_params = [], req_json_params = None, req_json = None\<rparr>"

definition POST_form :: "jsstring \<Rightarrow> (jsstring \<times> jsstring) list \<Rightarrow> request" where
  "POST_form path form =
     \<lparr>req_method = js ''POST'', req_path = path,
      req_header = map_of [(js ''host'', js ''localhost''),
                           (js ''content-type'', js ''application/x-www-form-urlencoded'')],
      req_query = map_of [],
      req_text_params = form, req_json_params = None, req_json = None\<rparr>"

definition POST_json :: "jsstring \<Rightarrow> (jsstring \<times> jsstring) list \<Rightarrow> json \<Rightarrow> request" where
  "POST_json path hdrs body =
     \<lparr>req_method = js ''POST'', req_path = path,
      req_header = map_of ((js ''content-type'', js ''application/json'') # hdrs),
      req_query = map_of [],
      req_text_params = [], req_json_params = None, req_json = Some body\<rparr>"

definition example_token_response :: json where
  "example_token_response =
     JObj [(js ''access_token'', JStr (js ''tok'')),
           (js ''token_type'', JStr (js ''Bearer'')),
           (js ''expires_in'', JNum 21600),
           (js ''refresh_token'', JStr (js ''r1'')),
           (js ''scope'', JStr STRAVA_SCOPES)]"

definition unconfigured_env :: env where
  "unconfigured_env =
     \<lparr>STRAVA_CLIENT_ID = None, STRAVA_CLIENT_SECRET = None, OAUTH_STATE_SECRET = None\<rparr>"

definition example_uuid :: jsstring where
  "example_uuid = js ''3b241101-e2bb-4255-8caf-4136c566a962''"

definition env_without_client_secret :: env where
  "env_without_client_secret = example_env\<lparr>STRAVA_CLIENT_SECRET := None\<rparr>"

definition example_state_payload :: json where
  "example_state_payload =
     JObj [(js ''redirect_uri'', JStr (js ''https://client.example/cb'')),
           (js ''client_state'', JStr (js ''xyz'')),
           (js ''timestamp'', JNum 1700000000000)]"

definition example_state_json :: jsstring where
  "example_state_json =
     js ''{\"redirect_uri\":\"https://client.example/cb\",\"client_state\":\"xyz\",\"timestamp\":1700000000000}''"

definition example_state :: jsstring where
  "example_state =
     b64_encode example_state_json @ 46 # sign_b64 example_hmac (js ''state-secret'') example_state_json"

definition authorize_request :: request where
  "authorize_request =
     GET (js ''/oauth/authorize'')
       [(js ''redirect_uri'', js ''https://client.example/cb''), (js ''state'', js ''xyz'')]"

definition issue_token :: "hmac \<Rightarrow> json \<Rightarrow> jsstring \<Rightarrow> jsstring" where
  "issue_token HMAC data secret =
     b64_encode (JSON_stringify data) @ 46 # sign_b64 HMAC secret (JSON_stringify data)"

definition example_code_payload :: json where
  "example_code_payload = JObj [(js ''strava_code'', JStr (js ''ABC123''))]"

definition example_wrapped_code :: jsstring where
  "example_wrapped_code = issue_token example_hmac example_code_payload (js ''state-secret'')"

definition untimed_payload :: json where
  "untimed_payload =
     JObj [(js ''redirect_uri'', JStr (js ''https://client.example/cb'')),
           (js ''client_state'', JStr (js ''xyz''))]"

definition untimed_state :: jsstring where
  "untimed_state = issue_token example_hmac untimed_payload (js ''state-secret'')"

definition callback_request :: "jsstring \<Rightarrow> request" where
  "callback_request state =
     GET (js ''/oauth/callback'') [(js ''code'', js ''ABC123''), (js ''state'', state)]"

definition callback_request_without_code :: "jsstring \<Rightarrow> request" where
  "callback_request_without_code state = GET (js ''/oauth/callback'') [(js ''state'', state)]"

definition bad_redirect_payload :: json where
  "bad_redirect_payload =
     JObj [(js ''redirect_uri'', JStr (js ''not a url'')), (js ''timestamp'', JNum 1700000000000)]"

definition bad_redirect_state :: jsstring where
  "bad_redirect_state = issue_token example_hmac bad_redirect_payload (js ''state-secret'')"

definition bad_authorize_request :: request where
  "bad_authorize_request = GET (js ''/oauth/authorize'') [(js ''redirect_uri'', js ''not a url'')]"

definition error_callback_request :: "jsstring \<Rightarrow> request" where
  "error_callback_request state =
     GET (js ''/oauth/callback'') [(js ''error'', js ''access_denied''), (js ''state'', state)]"

definition token_request :: "jsstring \<Rightarrow> request" where
  "token_request code =
     POST_form (js ''/oauth/token'')
       [(js ''grant_type'', js ''authorization_code''), (js ''code'', code)]"

definition wide_state_request :: request where
  "wide_state_request =
     GET (js ''/oauth/authorize'')
       [(js ''redirect_uri'', js ''https://client.example/cb''), (js ''state'', [0x20AC])]"

definition empty_state_payload :: json where
  "empty_state_payload =
     JObj [(js ''redirect_uri'', JStr (js ''https://client.example/cb'')),
           (js ''client_state'', JStr []),
           (js ''timestamp'', JNum 1700000000000)]"

definition empty_state_token :: jsstring where
  "empty_state_token = issue_token example_hmac empty_state_payload (js ''state-secret'')"

definition wide_state_payload :: json where
  "wide_state_payload =
     JObj [(js ''redirect_uri'', JStr (js ''https://client.example/cb'')),
           (js ''client_state'', JStr [0x20AC]),
           (js ''timestamp'', JNum 1700000000000)]"

definition zero_time_payload :: json where
  "zero_time_payload =
     JObj [(js ''redirect_uri'', JStr (js ''https://client.example/cb'')),
           (js ''client_state'', JStr (js ''xyz'')),
           (js ''timestamp'', JNum 0)]"

definition zero_time_state :: jsstring where
  "zero_time_state = issue_token example_hmac zero_time_payload (js ''state-secret'')"

definition error_code_callback_request :: "jsstring \<Rightarrow> request" where
  "error_code_callback_request state =
     GET (js ''/oauth/callback'')
       [(js ''code'', js ''ABC123''), (js ''error'', js ''access_denied''), (js ''state'', state)]"

subsection \<open>Notions used in the proofs\<close>

text \<open>A text that may follow a value inside an array or an object, or end the input.\<close>

definition value_end :: "jsstring \<Rightarrow> bool" where
  "value_end rest = (rest = [] \<or> hd rest = 44 \<or> hd rest = 93 \<or> hd rest = 125)"

definition starts_value :: "jsstring \<Rightarrow> bool" where
  "starts_value s = (\<exists>c cs. s = c # cs \<and> \<not> is_json_ws c \<and> c \<noteq> 93 \<and> c \<noteq> 125)"

definition member_text :: "jsstring \<times> json \<Rightarrow> jsstring" where
  "member_text kv = QuoteJSONString (fst kv) @ 58 # JSON_stringify (snd kv)"

section \<open>Properties of the platform functions\<close>

subsection \<open>Base64\<close>

lemma latin1_alt: "latin1 s \<longleftrightarrow> (\<forall>c\<in>set s. c < 256)"
  by (auto simp: latin1_def list_ex_iff not_less)

lemma latin1_bytes: "latin1 s \<Longrightarrow> \<forall>b\<in>set s. b < 256"
  by (simp add: latin1_alt)

lemma b64_val_char: "n < 64 \<Longrightarrow> b64_val (b64_char n) = Some n"
  by (auto simp: b64_val_def b64_char_def)

lemma b64_char_not_pad: "n < 64 \<Longrightarrow> b64_char n \<noteq> 61"
  by (auto simp: b64_char_def)

lemma b64_char_not_ws: "n < 64 \<Longrightarrow> \<not> is_ascii_whitespace (b64_char n)"
  by (auto simp: b64_char_def is_ascii_whitespace_def)

lemma sextets_lt: "\<forall>b\<in>set bs. b < 256 \<Longrightarrow> \<forall>v\<in>set (sextets bs). v < 64"
  by (induction bs rule: sextets.induct) auto

lemma unsextets_sextets: "\<forall>b\<in>set bs. b < 256 \<Longrightarrow> unsextets (sextets bs) = bs"
  by (induction bs rule: sextets.induct) auto

lemma mod3_Suc3: "Suc (Suc (Suc n)) mod 3 = n mod 3"
  by presburger

lemma mod4_Suc4: "Suc (Suc (Suc (Suc n))) mod 4 = n mod 4"
  by presburger

lemma length_sextets_mod4:
  "length (sextets bs) mod 4 = (if length bs mod 3 = 0 then 0 else length bs mod 3 + 1)"
  by (induction bs rule: sextets.induct) (simp_all add: mod3_Suc3 mod4_Suc4)

lemma pad_length:
  "(length (sextets bs) + (3 - length bs mod 3) mod 3) mod 4 = 0"
proof -
  define n where "n = length (sextets bs)"
  define m where "m = length bs mod 3"
  have m: "m = 0 \<or> m = 1 \<or> m = 2" unfolding m_def by presburger
  have n: "n mod 4 = (if m = 0 then 0 else m + 1)"
    unfolding n_def m_def by (rule length_sextets_mod4)
  have "(n + (3 - m) mod 3) mod 4 = 0"
    using m n by (elim disjE) (simp_all, presburger+)
  then show ?thesis unfolding n_def m_def .
qed

lemma strip_padding_none: "xs = [] \<or> last xs \<noteq> 61 \<Longrightarrow> strip_padding xs = xs"
  by (auto simp: strip_padding_def)

lemma strip_padding_one: "xs \<noteq> [] \<Longrightarrow> last xs \<noteq> 61 \<Longrightarrow> strip_padding (xs @ [61]) = xs"
  by (simp add: strip_padding_def)

lemma strip_padding_two: "strip_padding (xs @ [61, 61]) = xs"
  by (simp add: strip_padding_def butlast_append)

lemma sextets_Nil_iff: "sextets bs = [] \<longleftrightarrow> bs = []"
  by (induction bs rule: sextets.induct) simp_all

lemma strip_padding_encode:
  assumes "\<forall>b\<in>set bs. b < 256"
  shows "strip_padding (b64_encode bs) = map b64_char (sextets bs)"
proof -
  let ?body = "map b64_char (sextets bs)"
  have lt: "\<forall>v\<in>set (sextets bs). v < 64" using assms by (rule sextets_lt)
  have nopad: "?body = [] \<or> last ?body \<noteq> 61"
  proof (cases "sextets bs = []")
    case True then show ?thesis by simp
  next
    case False
    then have "last (sextets bs) \<in> set (sextets bs)" by simp
    with lt have "last (sextets bs) < 64" by blast
    then show ?thesis using False by (simp add: last_map b64_char_not_pad)
  qed
  have cases: "length bs mod 3 = 0 \<or> length bs mod 3 = 1 \<or> length bs mod 3 = 2" by presburger
  from cases show ?thesis
  proof (elim disjE)
    assume "length bs mod 3 = 0"
    then show ?thesis using nopad by (simp add: b64_encode_def strip_padding_none)
  next
    assume m: "length bs mod 3 = 1"
    then have "bs \<noteq> []" by auto
    have "(3 - length bs mod 3) mod 3 = Suc (Suc 0)" using m by simp
    then have "replicate ((3 - length bs mod 3) mod 3) (61::nat) = [61, 61]"
      by simp
    then show ?thesis by (simp add: b64_encode_def strip_padding_two)
  next
    assume m: "length bs mod 3 = 2"
    then have "bs \<noteq> []" by auto
    then have ne: "?body \<noteq> []" by (simp add: sextets_Nil_iff)
    have "(3 - length bs mod 3) mod 3 = Suc 0" using m by simp
    then have "replicate ((3 - length bs mod 3) mod 3) (61::nat) = [61]"
      by simp
    then show ?thesis using ne nopad by (simp add: b64_encode_def strip_padding_one)
  qed
qed

lemma those_vals_chars: "\<forall>v\<in>set vs. v < 64 \<Longrightarrow> those_vals (map b64_char vs) = Some vs"
  by (induction vs) (simp_all add: b64_val_char)

lemma filter_ws_encode:
  assumes "\<forall>b\<in>set bs. b < 256"
  shows "filter (\<lambda>c. \<not> is_ascii_whitespace c) (b64_encode bs) = b64_encode bs"
proof -
  have lt: "\<forall>v\<in>set (sextets bs). v < 64" using assms by (rule sextets_lt)
  have "\<not> is_ascii_whitespace 61" by (simp add: is_ascii_whitespace_def)
  then have "\<forall>c\<in>set (b64_encode bs). \<not> is_ascii_whitespace c"
    using lt by (auto simp: b64_encode_def b64_char_not_ws)
  then show ?thesis by (simp add: filter_id_conv)
qed

lemma atob_b64_encode:
  assumes "\<forall>b\<in>set bs. b < 256"
  shows "atob (b64_encode bs) = Some bs"
proof -
  have lt: "\<forall>v\<in>set (sextets bs). v < 64" using assms by (rule sextets_lt)
  have len: "length (b64_encode bs) mod 4 = 0"
    by (simp add: b64_encode_def pad_length)
  have not1: "length (map b64_char (sextets bs)) mod 4 \<noteq> 1"
    using length_sextets_mod4 [of bs] by (simp split: if_splits)
  show ?thesis
    using not1
    by (simp add: atob_def filter_ws_encode [OF assms] len strip_padding_encode [OF assms]
        those_vals_chars [OF lt] unsextets_sextets [OF assms] del: length_map)
qed

lemma atob_btoa:
  assumes "btoa s = Inr t"
  shows "atob t = Some s"
proof -
  from assms have "latin1 s" and t: "t = b64_encode s"
    by (auto simp: btoa_def split: if_splits)
  then have "\<forall>b\<in>set s. b < 256" by (auto simp: latin1_def list_ex_iff not_less)
  then show ?thesis unfolding t by (rule atob_b64_encode)
qed

subsection \<open>JSON strings and numbers\<close>

lemma hex_val_hex_digit: "d < 16 \<Longrightarrow> hex_val (hex_digit d) = Some d"
  by (auto simp: hex_val_def hex_digit_def)

lemma hex4_digits:
  assumes "p < 16" "q < 16" "r < 16" "s < 16"
  shows "hex4 (hex_digit p) (hex_digit q) (hex_digit r) (hex_digit s)
         = Some (p * 4096 + q * 256 + r * 16 + s)"
  using assms by (simp add: hex4_def hex_val_hex_digit)

lemma unicode_value:
  assumes "c < 65536"
  shows "c div 4096 mod 16 * 4096 + c div 256 mod 16 * 256 + c div 16 mod 16 * 16 + c mod 16 = (c::nat)"
proof -
  have 1: "c mod 256 = 16 * (c div 16 mod 16) + c mod 16"
    using mod_mult2_eq [of c 16 16] by simp
  have 2: "c mod 4096 = 256 * (c div 256 mod 16) + c mod 256"
    using mod_mult2_eq [of c 256 16] by simp
  have 3: "c mod 65536 = 4096 * (c div 4096 mod 16) + c mod 4096"
    using mod_mult2_eq [of c 4096 16] by simp
  have "c mod 65536 = c" using assms by simp
  with 1 2 3 show ?thesis by linarith
qed

lemma parse_units_u:
  "parse_units (92 # 117 # h1 # h2 # h3 # h4 # r) =
     (case hex4 h1 h2 h3 h4 of None \<Rightarrow> None | Some u \<Rightarrow> cons_unit u (parse_units r))"
  by simp

lemma parse_units_unicode_escape:
  assumes "c < 65536"
  shows "parse_units (unicode_escape c @ r) = cons_unit c (parse_units r)"
proof -
  have a: "c div 4096 mod 16 < 16" "c div 256 mod 16 < 16" "c div 16 mod 16 < 16" "c mod 16 < 16"
    by simp_all
  have "hex4 (hex_digit (c div 4096 mod 16)) (hex_digit (c div 256 mod 16))
           (hex_digit (c div 16 mod 16)) (hex_digit (c mod 16))
        = Some (c div 4096 mod 16 * 4096 + c div 256 mod 16 * 256 + c div 16 mod 16 * 16 + c mod 16)"
    by (rule hex4_digits [OF a])
  then have h: "hex4 (hex_digit (c div 4096 mod 16)) (hex_digit (c div 256 mod 16))
           (hex_digit (c div 16 mod 16)) (hex_digit (c mod 16)) = Some c"
    by (simp only: unicode_value [OF assms])
  have "parse_units (unicode_escape c @ r)
      = parse_units (92 # 117 # hex_digit (c div 4096 mod 16) # hex_digit (c div 256 mod 16)
           # hex_digit (c div 16 mod 16) # hex_digit (c mod 16) # r)"
    by (simp only: unicode_escape_def append_Cons append_Nil)
  also have "\<dots> = cons_unit c (parse_units r)"
    by (simp only: parse_units_u h option.case)
  finally show ?thesis .
qed


lemma parse_units_raw:
  "c \<noteq> 34 \<Longrightarrow> c \<noteq> 92 \<Longrightarrow> 32 \<le> c \<Longrightarrow> parse_units (c # r) = cons_unit c (parse_units r)"
  by simp

lemma parse_units_simple:
  "simple_escape e = Some u \<Longrightarrow> e \<noteq> 117 \<Longrightarrow>
   parse_units (92 # e # r) = cons_unit u (parse_units r)"
  by simp

lemma parse_units_escape_unit:
  assumes "c < 65536 \<or> 32 \<le> c"
  shows "parse_units (escape_unit c @ r) = cons_unit c (parse_units r)"
proof -
  consider "c = 8" | "c = 9" | "c = 10" | "c = 12" | "c = 13" | "c = 34" | "c = 92"
    | "c < 32" "c \<noteq> 8" "c \<noteq> 9" "c \<noteq> 10" "c \<noteq> 12" "c \<noteq> 13"
    | "32 \<le> c" "c \<noteq> 34" "c \<noteq> 92"
    by linarith
  then show ?thesis
  proof cases
    case 8
    then have "c < 65536" by simp
    from parse_units_unicode_escape [OF this] 8 show ?thesis
      by (simp only: escape_unit_def) simp
  next
    case 9
    then have "escape_unit c = [c]" by (simp add: escape_unit_def)
    with 9 show ?thesis by (simp add: parse_units_raw del: parse_units.simps)
  qed (simp_all add: escape_unit_def simple_escape_def)
qed

lemma surrogate_lt: "is_high_surrogate c \<or> is_low_surrogate c \<Longrightarrow> c < 65536"
  by (auto simp: is_high_surrogate_def is_low_surrogate_def)

lemma surrogate_raw:
  "is_high_surrogate c \<or> is_low_surrogate c \<Longrightarrow> c \<noteq> 34 \<and> c \<noteq> 92 \<and> 32 \<le> c"
  by (auto simp: is_high_surrogate_def is_low_surrogate_def)

lemma cons_unit_Some: "cons_unit c (Some (s, r)) = Some (c # s, r)"
  by (simp add: cons_unit_def)

lemma parse_units_quote_units:
  "parse_units (quote_units s @ 34 # rest) = Some (s, rest)"
proof (induction s rule: quote_units.induct)
  case 1
  show ?case by simp
next
  case (2 c)
  have fin: "parse_units (34 # rest) = Some ([], rest)" by simp
  show ?case
  proof (cases "is_high_surrogate c \<or> is_low_surrogate c")
    case True
    then have "quote_units [c] = unicode_escape c" by simp
    then show ?thesis
      by (simp only: parse_units_unicode_escape [OF surrogate_lt [OF True]] fin cons_unit_Some)
  next
    case False
    then have "quote_units [c] = escape_unit c" by simp
    moreover have "c < 65536 \<or> 32 \<le> c" by linarith
    ultimately show ?thesis
      by (simp only: parse_units_escape_unit fin cons_unit_Some)
  qed
next
  case (3 c d cs)
  show ?case
  proof (cases "is_high_surrogate c \<and> is_low_surrogate d")
    case True
    then have q: "quote_units (c # d # cs) = c # d # quote_units cs" by simp
    have ih: "parse_units (quote_units cs @ 34 # rest) = Some (cs, rest)"
      using 3(1) True by simp
    have rc: "c \<noteq> 34 \<and> c \<noteq> 92 \<and> 32 \<le> c" using True surrogate_raw [of c] by simp
    have rd: "d \<noteq> 34 \<and> d \<noteq> 92 \<and> 32 \<le> d" using True surrogate_raw [of d] by simp
    have pc: "parse_units (c # r) = cons_unit c (parse_units r)" for r
      using rc by (intro parse_units_raw) simp_all
    have pd: "parse_units (d # r) = cons_unit d (parse_units r)" for r
      using rd by (intro parse_units_raw) simp_all
    show ?thesis
      by (simp only: q append_Cons pc pd ih cons_unit_Some)
  next
    case nopair: False
    have ih: "parse_units (quote_units (d # cs) @ 34 # rest) = Some (d # cs, rest)"
    proof (cases "is_high_surrogate c \<or> is_low_surrogate c")
      case True then show ?thesis using 3(2) nopair by simp
    next
      case False then show ?thesis using 3(3) nopair by simp
    qed
    show ?thesis
    proof (cases "is_high_surrogate c \<or> is_low_surrogate c")
      case True
      then have q: "quote_units (c # d # cs) = unicode_escape c @ quote_units (d # cs)"
        using nopair by (simp only: quote_units.simps(3) if_True if_False)
      show ?thesis
        by (simp only: q append_assoc parse_units_unicode_escape [OF surrogate_lt [OF True]] ih
            cons_unit_Some)
    next
      case False
      then have q: "quote_units (c # d # cs) = escape_unit c @ quote_units (d # cs)"
        using nopair by (simp only: quote_units.simps(3) if_True if_False)
      have "c < 65536 \<or> 32 \<le> c" by linarith
      then show ?thesis
        by (simp only: q append_assoc parse_units_escape_unit ih cons_unit_Some)
    qed
  qed
qed

lemma dec_digits_lt: "\<forall>d\<in>set (dec_digits n). d < 10"
proof (induction n rule: dec_digits.induct)
  case (1 n)
  show ?case
  proof (cases "n < 10")
    case True
    then show ?thesis by (subst dec_digits.simps) simp
  next
    case False
    then show ?thesis using 1 by (subst dec_digits.simps) auto
  qed
qed

lemma dec_digits_ne: "dec_digits n \<noteq> []"
  by (subst dec_digits.simps) simp

lemma dec_digits_hd: "10 \<le> n \<Longrightarrow> hd (dec_digits n) \<noteq> 0"
proof (induction n rule: dec_digits.induct)
  case (1 n)
  from 1(2) have nl: "\<not> n < 10" by simp
  show ?case
  proof (cases "n div 10 < 10")
    case True
    have "n div 10 \<noteq> 0" using nl by simp
    moreover have "dec_digits (n div 10) = [n div 10]" using True by (subst dec_digits.simps) simp
    ultimately show ?thesis using nl by (subst dec_digits.simps) simp
  next
    case False
    then have "hd (dec_digits (n div 10)) \<noteq> 0" using 1(1) nl by simp
    then show ?thesis using nl dec_digits_ne [of "n div 10"]
      by (subst dec_digits.simps) simp
  qed
qed

lemma dec_digits_length: "1 < length (dec_digits n) \<Longrightarrow> 10 \<le> n"
  by (subst (asm) dec_digits.simps) (simp split: if_splits)

lemma digits_value_snoc: "digits_value (ds @ [d]) = 10 * digits_value ds + (d - 48)"
  by (simp add: digits_value_def)

lemma digits_value_dec: "digits_value (map (\<lambda>d. 48 + d) (dec_digits n)) = n"
proof (induction n rule: dec_digits.induct)
  case (1 n)
  show ?case
  proof (cases "n < 10")
    case True
    then show ?thesis by (subst dec_digits.simps) (simp add: digits_value_def)
  next
    case False
    then have "digits_value (map (\<lambda>d. 48 + d) (dec_digits (n div 10))) = n div 10"
      using 1 by simp
    then show ?thesis using False
      by (subst dec_digits.simps) (simp add: digits_value_snoc)
  qed
qed


lemma digit_chars_all: "\<forall>c\<in>set (digit_chars n). is_digit c"
  using dec_digits_lt [of n] by (auto simp: digit_chars_def is_digit_def)

lemma takeWhile_digit_chars:
  "rest = [] \<or> \<not> is_digit (hd rest) \<Longrightarrow> takeWhile is_digit (digit_chars n @ rest) = digit_chars n"
  using digit_chars_all [of n] by (cases rest) (simp_all add: takeWhile_append2)

lemma dropWhile_digit_chars:
  "rest = [] \<or> \<not> is_digit (hd rest) \<Longrightarrow> dropWhile is_digit (digit_chars n @ rest) = rest"
  using digit_chars_all [of n] by (cases rest) (simp_all add: dropWhile_append2)

lemma parse_int_part_digit_chars:
  assumes "rest = [] \<or> \<not> is_digit (hd rest)"
  shows "parse_int_part (digit_chars n @ rest) = Some (n, rest)"
proof -
  have ne: "digit_chars n \<noteq> []" by (simp add: digit_chars_def dec_digits_ne)
  have lz: "\<not> (1 < length (digit_chars n) \<and> hd (digit_chars n) = 48)"
  proof
    assume a: "1 < length (digit_chars n) \<and> hd (digit_chars n) = 48"
    then have "10 \<le> n" using dec_digits_length [of n] by (simp add: digit_chars_def)
    then have "hd (dec_digits n) \<noteq> 0" by (rule dec_digits_hd)
    moreover have "hd (digit_chars n) = 48 + hd (dec_digits n)"
      using dec_digits_ne [of n] by (simp add: digit_chars_def hd_map)
    ultimately show False using a by simp
  qed
  have v: "digits_value (digit_chars n) = n" by (simp add: digit_chars_def digits_value_dec)
  show ?thesis
    using ne lz v
    by (simp add: parse_int_part_def takeWhile_digit_chars [OF assms]
        dropWhile_digit_chars [OF assms] Let_def)
qed


lemma value_end_not_digit: "value_end rest \<Longrightarrow> rest = [] \<or> \<not> is_digit (hd rest)"
  by (auto simp: value_end_def is_digit_def)

lemma value_end_not_frac: "value_end rest \<Longrightarrow> \<not> starts_fraction_or_exponent rest"
  by (cases rest) (auto simp: value_end_def starts_fraction_or_exponent_def)

lemma digit_chars_hd: "\<exists>c cs. digit_chars n = c # cs \<and> is_digit c"
  using digit_chars_all [of n] dec_digits_ne [of n]
  by (cases "digit_chars n") (auto simp: digit_chars_def)

lemma parse_number_number_to_string:
  assumes "value_end rest"
  shows "parse_number lenient (number_to_string i @ rest) = Some (JNum i, rest)"
proof (cases "i < 0")
  case True
  have "parse_int_part (digit_chars (nat (- i)) @ rest) = Some (nat (- i), rest)"
    by (rule parse_int_part_digit_chars [OF value_end_not_digit [OF assms]])
  then show ?thesis
    using True value_end_not_frac [OF assms]
    by (simp add: parse_number_def number_to_string_def)
next
  case False
  obtain c cs where d: "digit_chars (nat i) = c # cs" and c: "is_digit c"
    using digit_chars_hd by blast
  then have c45: "c \<noteq> 45" by (auto simp: is_digit_def)
  have "parse_int_part (digit_chars (nat i) @ rest) = Some (nat i, rest)"
    by (rule parse_int_part_digit_chars [OF value_end_not_digit [OF assms]])
  then show ?thesis
    using False value_end_not_frac [OF assms] c45
    by (simp add: parse_number_def number_to_string_def d)
qed

subsection \<open>JSON.parse after JSON.stringify\<close>

lemma skip_ws_starts_value: "starts_value s \<Longrightarrow> skip_ws s = s"
  by (auto simp: starts_value_def skip_ws_def)

lemma starts_value_append: "starts_value s \<Longrightarrow> starts_value (s @ r)"
  by (auto simp: starts_value_def)

lemma starts_value_Cons: "\<not> is_json_ws c \<Longrightarrow> c \<noteq> 93 \<Longrightarrow> c \<noteq> 125 \<Longrightarrow> starts_value (c # cs)"
  by (simp add: starts_value_def)

lemma starts_value_number: "starts_value (number_to_string i)"
proof -
  obtain c cs where "digit_chars (nat i) = c # cs" "is_digit c" using digit_chars_hd by blast
  then show ?thesis
    by (auto simp: number_to_string_def starts_value_def is_json_ws_def is_digit_def)
qed

lemma starts_value_stringify: "starts_value (JSON_stringify v)"
proof (cases v)
  case (JNum i)
  then show ?thesis by (simp add: starts_value_number)
qed (simp_all add: js_def starts_value_def is_json_ws_def QuoteJSONString_def)

lemma skip_ws_Cons: "\<not> is_json_ws c \<Longrightarrow> skip_ws (c # cs) = c # cs"
  by (simp add: skip_ws_def)

lemma parse_scalar_string:
  "parse_scalar lenient (QuoteJSONString s @ rest) = Some (JStr s, rest)"
  by (simp add: parse_scalar_def QuoteJSONString_def parse_units_quote_units)

lemma parse_scalar_number:
  assumes "value_end rest"
  shows "parse_scalar lenient (number_to_string i @ rest) = Some (JNum i, rest)"
proof -
  obtain c cs where d: "number_to_string i = c # cs" and c: "c = 45 \<or> is_digit c"
  proof (cases "i < 0")
    case True
    then show ?thesis using that by (simp add: number_to_string_def)
  next
    case False
    obtain c cs where "digit_chars (nat i) = c # cs" "is_digit c" using digit_chars_hd by blast
    then show ?thesis using that False by (simp add: number_to_string_def)
  qed
  have c34: "c \<noteq> 34" using c by (auto simp: is_digit_def)
  have "parse_scalar lenient (number_to_string i @ rest)
        = parse_number lenient (number_to_string i @ rest)"
    using c c34 by (auto simp: parse_scalar_def d)
  then show ?thesis by (simp add: parse_number_number_to_string [OF assms])
qed

lemma parse_scalar_literals:
  "parse_scalar lenient (js ''null'' @ rest) = Some (JNull, rest)"
  "parse_scalar lenient (js ''true'' @ rest) = Some (JBool True, rest)"
  "parse_scalar lenient (js ''false'' @ rest) = Some (JBool False, rest)"
  by (simp_all add: parse_scalar_def parse_literal_def js_def is_digit_def)

lemma parse_value_scalar:
  assumes "s = c # cs" "\<not> is_json_ws c" "c \<noteq> 91" "c \<noteq> 123"
  shows "parse_value lenient s = parse_scalar lenient s"
  using assms by (subst parse_value.simps) (simp add: skip_ws_Cons)

lemma commas_Cons: "xs \<noteq> [] \<Longrightarrow> commas (x # xs) = x @ 44 # commas xs"
  by (cases xs) simp_all

lemma parse_elements_commas:
  assumes "vs \<noteq> []"
    and "\<And>v rest. v \<in> set vs \<Longrightarrow> value_end rest \<Longrightarrow>
           parse_value lenient (JSON_stringify v @ rest) = Some (v, rest)"
  shows "parse_elements lenient (commas (map JSON_stringify vs) @ 93 # rest) = Some (vs, rest)"
  using assms
proof (induction vs rule: list_nonempty_induct)
  case (single v)
  have "parse_value lenient (JSON_stringify v @ 93 # rest) = Some (v, 93 # rest)"
    by (rule single) (simp_all add: value_end_def)
  then show ?case
    by (subst parse_elements.simps) (simp add: skip_ws_Cons is_json_ws_def)
next
  case (cons v vs)
  let ?tail = "commas (map JSON_stringify vs) @ 93 # rest"
  have pv: "parse_value lenient (JSON_stringify v @ 44 # ?tail) = Some (v, 44 # ?tail)"
    by (rule cons(3)) (simp_all add: value_end_def)
  have ih: "parse_elements lenient ?tail = Some (vs, rest)"
    by (rule cons(2)) (simp_all add: cons(3))
  have c: "commas (map JSON_stringify (v # vs)) @ 93 # rest = JSON_stringify v @ 44 # ?tail"
    using cons(1) by (simp add: commas_Cons)
  show ?case
    unfolding c
    by (subst parse_elements.simps) (simp add: pv ih skip_ws_Cons is_json_ws_def)
qed


lemma parse_members_one:
  assumes pv: "parse_value lenient (JSON_stringify v @ c # r3) = Some (v, c # r3)"
    and c: "c = 125 \<or> c = 44"
  shows "parse_members lenient (member_text (k, v) @ c # r3) =
     (if c = 125 then Some ([(k, v)], r3)
      else (case parse_members lenient r3 of
              None \<Rightarrow> None
            | Some (kvs, r4) \<Rightarrow> Some ((k, v) # kvs, r4)))"
proof -
  have s: "member_text (k, v) @ c # r3
      = 34 # (quote_units k @ 34 # (58 # JSON_stringify v @ c # r3))"
    by (simp add: member_text_def QuoteJSONString_def)
  have pu: "parse_units (quote_units k @ 34 # (58 # JSON_stringify v @ c # r3))
      = Some (k, 58 # JSON_stringify v @ c # r3)"
    by (rule parse_units_quote_units)
  have ws: "\<not> is_json_ws 34" "\<not> is_json_ws 58" "\<not> is_json_ws c"
    using c by (auto simp: is_json_ws_def)
  show ?thesis
    unfolding s
    using c
    by (subst parse_members.simps) (auto simp: pu pv skip_ws_Cons ws)
qed

lemma parse_members_commas:
  assumes "kvs \<noteq> []"
    and "\<And>kv rest. kv \<in> set kvs \<Longrightarrow> value_end rest \<Longrightarrow>
           parse_value lenient (JSON_stringify (snd kv) @ rest) = Some (snd kv, rest)"
  shows "parse_members lenient (commas (map member_text kvs) @ 125 # rest) = Some (kvs, rest)"
  using assms
proof (induction kvs rule: list_nonempty_induct)
  case (single kv)
  obtain k v where kv: "kv = (k, v)" by (cases kv)
  have "parse_value lenient (JSON_stringify v @ 125 # rest) = Some (v, 125 # rest)"
    using single [of kv "125 # rest"] by (simp add: kv value_end_def)
  from parse_members_one [OF this] show ?case by (simp add: kv)
next
  case (cons kv kvs)
  obtain k v where kv: "kv = (k, v)" by (cases kv)
  let ?tail = "commas (map member_text kvs) @ 125 # rest"
  have pv: "parse_value lenient (JSON_stringify v @ 44 # ?tail) = Some (v, 44 # ?tail)"
    using cons(3) [of kv "44 # ?tail"] by (simp add: kv value_end_def)
  have ih: "parse_members lenient ?tail = Some (kvs, rest)"
    by (rule cons(2)) (simp_all add: cons(3))
  have c: "commas (map member_text (kv # kvs)) @ 125 # rest = member_text (k, v) @ 44 # ?tail"
    using cons(1) by (simp add: commas_Cons kv)
  show ?case
    unfolding c using parse_members_one [OF pv] by (simp add: ih kv)
qed

lemma JSON_stringify_JObj:
  "JSON_stringify (JObj kvs) = 123 # commas (map member_text kvs) @ [125]"
proof -
  have "member_text = (\<lambda>kv. QuoteJSONString (fst kv) @ 58 # JSON_stringify (snd kv))"
    by (rule ext) (simp add: member_text_def)
  then show ?thesis by simp
qed

lemma starts_value_commas:
  "xs \<noteq> [] \<Longrightarrow> starts_value (hd xs) \<Longrightarrow> starts_value (commas xs @ r)"
  by (cases xs rule: commas.cases) (auto simp: starts_value_def)

lemma starts_value_member: "starts_value (member_text kv)"
  by (simp add: member_text_def QuoteJSONString_def starts_value_def is_json_ws_def)

lemma parse_value_stringify:
  "value_end rest \<Longrightarrow> parse_value lenient (JSON_stringify v @ rest) = Some (v, rest)"
proof (induction v arbitrary: rest)
  case JNull
  show ?case
    using parse_value_scalar [of "js ''null'' @ rest" 110 "js ''ull'' @ rest" lenient]
      parse_scalar_literals(1) [of lenient rest]
    by (simp add: js_def is_json_ws_def)
next
  case (JBool b)
  show ?case
  proof (cases b)
    case True
    then show ?thesis
      using parse_value_scalar [of "js ''true'' @ rest" 116 "js ''rue'' @ rest" lenient]
        parse_scalar_literals(2) [of lenient rest]
      by (simp add: js_def is_json_ws_def)
  next
    case False
    then show ?thesis
      using parse_value_scalar [of "js ''false'' @ rest" 102 "js ''alse'' @ rest" lenient]
        parse_scalar_literals(3) [of lenient rest]
      by (simp add: js_def is_json_ws_def)
  qed
next
  case (JNum i)
  obtain c cs where d: "number_to_string i = c # cs" and c: "c = 45 \<or> is_digit c"
  proof (cases "i < 0")
    case True
    then show ?thesis using that by (simp add: number_to_string_def)
  next
    case False
    obtain c cs where "digit_chars (nat i) = c # cs" "is_digit c" using digit_chars_hd by blast
    then show ?thesis using that False by (simp add: number_to_string_def)
  qed
  have "parse_value lenient (number_to_string i @ rest) = parse_scalar lenient (number_to_string i @ rest)"
    using c by (intro parse_value_scalar [of _ c "cs @ rest"]) (auto simp: d is_digit_def is_json_ws_def)
  then show ?case by (simp add: parse_scalar_number [OF JNum])
next
  case (JStr s)
  have "parse_value lenient (QuoteJSONString s @ rest) = parse_scalar lenient (QuoteJSONString s @ rest)"
    by (intro parse_value_scalar [of _ 34 "quote_units s @ 34 # rest"])
      (simp_all add: QuoteJSONString_def is_json_ws_def)
  then show ?case by (simp add: parse_scalar_string)
next
  case (JArr vs)
  show ?case
  proof (cases "vs = []")
    case True
    then show ?thesis
      by (subst parse_value.simps) (simp add: skip_ws_Cons is_json_ws_def)
  next
    case False
    let ?body = "commas (map JSON_stringify vs) @ 93 # rest"
    have pe: "parse_elements lenient ?body = Some (vs, rest)"
      using False JArr(1) by (intro parse_elements_commas) simp_all
    have "starts_value ?body"
      using False by (intro starts_value_commas) (simp_all add: hd_map starts_value_stringify)
    then obtain d r where b: "?body = d # r" and d: "\<not> is_json_ws d" "d \<noteq> 93"
      by (auto simp: starts_value_def)
    have "parse_value lenient (91 # ?body) = Some (JArr vs, rest)"
      using d by (subst parse_value.simps)
        (simp add: skip_ws_Cons is_json_ws_def pe [unfolded b] b)
    then show ?thesis by simp
  qed
next
  case (JObj kvs)
  show ?case
  proof (cases "kvs = []")
    case True
    then show ?thesis
      by (subst parse_value.simps) (simp add: skip_ws_Cons is_json_ws_def)
  next
    case False
    let ?body = "commas (map member_text kvs) @ 125 # rest"
    have pm: "parse_members lenient ?body = Some (kvs, rest)"
    proof (rule parse_members_commas [OF False])
      fix kv r
      assume kv: "kv \<in> set kvs" and r: "value_end r"
      obtain k v where e: "kv = (k, v)" by (cases kv)
      show "parse_value lenient (JSON_stringify (snd kv) @ r) = Some (snd kv, r)"
        using JObj(1) [of kv v r] kv r by (simp add: e)
    qed
    have "starts_value ?body"
      using False by (intro starts_value_commas) (simp_all add: hd_map starts_value_member)
    then obtain d r where b: "?body = d # r" and d: "\<not> is_json_ws d" "d \<noteq> 125"
      by (auto simp: starts_value_def)
    have "parse_value lenient (123 # ?body) = Some (JObj kvs, rest)"
      using d by (subst parse_value.simps)
        (simp add: skip_ws_Cons is_json_ws_def pm [unfolded b] b)
    then show ?thesis by (simp add: JSON_stringify_JObj del: JSON_stringify.simps)
  qed
qed

lemma JSON_parse_stringify: "JSON_parse (JSON_stringify v) = Inr v"
  using parse_value_stringify [of "[]" False v]
  by (simp add: JSON_parse_def value_end_def skip_ws_def)

section \<open>Properties of the codec\<close>

lemma js_split_no_sep: "sep \<notin> set a \<Longrightarrow> js_split sep a = [a]"
  by (induction a) auto

lemma js_split_append: "sep \<notin> set a \<Longrightarrow> js_split sep (a @ sep # r) = a # js_split sep r"
  by (induction a) auto

lemma js_split_ne: "js_split sep s \<noteq> []"
  by (cases s) (auto split: list.splits)

lemma b64_char_not_dot: "n < 64 \<Longrightarrow> b64_char n \<noteq> 46"
  by (auto simp: b64_char_def)

lemma b64_encode_no_dot:
  assumes "\<forall>b\<in>set bs. b < 256"
  shows "46 \<notin> set (b64_encode bs)"
proof -
  have lt: "\<forall>v\<in>set (sextets bs). v < 64" using assms by (rule sextets_lt)
  then show ?thesis by (auto simp: b64_encode_def b64_char_not_dot)
qed

lemma b64_encode_Nil_iff: "b64_encode bs = [] \<longleftrightarrow> bs = []"
  by (auto simp: b64_encode_def sextets_Nil_iff)

lemma mac_bytes_length: "length (mac_bytes w) = 32"
  by (simp add: mac_bytes_def)

lemma mac_bytes_roundtrip: "map (of_nat \<circ> unat) (mac_bytes w) = mac_bytes w"
  by (simp add: o_def)

lemma unat_byte_lt: "\<forall>b\<in>set (map unat (bs :: 8 word list)). b < 256"
proof -
  have "unat (b :: 8 word) < 256" for b using unsigned_less [of b] by simp
  then show ?thesis by simp
qed




lemma encodeState_eq:
  assumes "secret \<noteq> []"
  shows "encodeState HMAC data secret =
     (if latin1 (JSON_stringify data)
      then Inr (b64_encode (JSON_stringify data) @ 46 # sign_b64 HMAC secret (JSON_stringify data))
      else Inl InvalidCharacterError)"
proof -
  have "latin1 (map unat (mac_bytes w))" for w :: "256 word"
    using unat_byte_lt [of "mac_bytes w"] by (simp add: latin1_alt)
  then show ?thesis
    using assms by (simp add: encodeState_def importKey_def btoa_def Let_def sign_b64_def)
qed

lemma decodeState_token:
  assumes s: "secret \<noteq> []" and l: "latin1 dataStr" and ne: "dataStr \<noteq> []"
    and rest: "rest = [] \<or> hd rest = 46"
  shows "decodeState HMAC (b64_encode dataStr @ 46 # sign_b64 HMAC secret dataStr @ rest) secret =
     (case JSON_parse dataStr of
        Inl x \<Rightarrow> if x = OutsideModel then Inl x else Inr None
      | Inr v \<Rightarrow> if v = JNull then Inr None else Inr (Some v))"
proof -
  let ?sig = "map unat (mac_bytes (HMAC secret dataStr))"
  have bytes: "\<forall>b\<in>set dataStr. b < 256" using l by (rule latin1_bytes)
  have sb: "\<forall>b\<in>set ?sig. b < 256" by (rule unat_byte_lt)
  have nd: "46 \<notin> set (b64_encode dataStr)" using bytes by (rule b64_encode_no_dot)
  have ns: "46 \<notin> set (sign_b64 HMAC secret dataStr)"
    unfolding sign_b64_def using sb by (rule b64_encode_no_dot)
  have sig_ne: "sign_b64 HMAC secret dataStr \<noteq> []"
    by (simp add: sign_b64_def b64_encode_Nil_iff mac_bytes_def)
  have data_ne: "b64_encode dataStr \<noteq> []" using ne by (simp add: b64_encode_Nil_iff)
  have split: "\<exists>more. js_split 46 (b64_encode dataStr @ 46 # sign_b64 HMAC secret dataStr @ rest)
      = b64_encode dataStr # sign_b64 HMAC secret dataStr # more"
  proof (cases rest)
    case Nil
    then show ?thesis by (simp add: js_split_append [OF nd] js_split_no_sep [OF ns])
  next
    case (Cons c r)
    with rest have "rest = 46 # r" by simp
    then show ?thesis by (simp add: js_split_append [OF nd] js_split_append [OF ns])
  qed
  then obtain more where sp: "js_split 46 (b64_encode dataStr @ 46 # sign_b64 HMAC secret dataStr @ rest)
      = b64_encode dataStr # sign_b64 HMAC secret dataStr # more" by blast
  have a1: "atob (b64_encode dataStr) = Some dataStr" using bytes by (rule atob_b64_encode)
  have a2: "atob (sign_b64 HMAC secret dataStr) = Some ?sig"
    unfolding sign_b64_def using sb by (rule atob_b64_encode)
  show ?thesis
    using s sig_ne data_ne
    by (simp add: decodeState_def sp a1 a2 importKey_def mac_bytes_roundtrip Let_def)
qed

lemma latin1_Nil: "latin1 []"
  by (simp add: latin1_alt)

lemma latin1_Cons: "latin1 (c # s) \<longleftrightarrow> c < 256 \<and> latin1 s"
  by (auto simp: latin1_alt)

lemma latin1_append: "latin1 (a @ b) \<longleftrightarrow> latin1 a \<and> latin1 b"
  by (auto simp: latin1_alt)

lemma hex_digit_lt: "d < 16 \<Longrightarrow> hex_digit d < 256"
  by (simp add: hex_digit_def)

lemma latin1_unicode_escape: "latin1 (unicode_escape c)"
  by (simp add: unicode_escape_def latin1_Cons latin1_Nil hex_digit_lt)

lemma latin1_escape_unit: "c < 256 \<Longrightarrow> latin1 (escape_unit c)"
  by (simp add: escape_unit_def latin1_Cons latin1_Nil latin1_unicode_escape)

lemma not_surrogate_latin1: "c < 256 \<Longrightarrow> \<not> is_high_surrogate c \<and> \<not> is_low_surrogate c"
  by (simp add: is_high_surrogate_def is_low_surrogate_def)

lemma latin1_quote_units: "latin1 s \<Longrightarrow> latin1 (quote_units s)"
proof (induction s rule: quote_units.induct)
  case 1
  show ?case by (simp add: latin1_Nil)
next
  case (2 c)
  then show ?case
    using not_surrogate_latin1 [of c] by (simp add: latin1_Cons latin1_escape_unit)
next
  case (3 c d cs)
  from 3(4) have c: "c < 256" and rest: "latin1 (d # cs)" by (simp_all add: latin1_Cons)
  have ns: "\<not> is_high_surrogate c" "\<not> is_low_surrogate c"
    using not_surrogate_latin1 [OF c] by simp_all
  have r: "latin1 (quote_units (d # cs))" using 3(3) ns rest by simp
  have q: "quote_units (c # d # cs) = escape_unit c @ quote_units (d # cs)"
    using ns by (simp only: quote_units.simps(3) simp_thms if_False)
  show ?case
    unfolding q using r c by (simp add: latin1_append latin1_escape_unit)
qed

lemma latin1_QuoteJSONString: "latin1 s \<Longrightarrow> latin1 (QuoteJSONString s)"
  by (simp add: QuoteJSONString_def latin1_Cons latin1_append latin1_Nil latin1_quote_units)

lemma latin1_number_to_string: "latin1 (number_to_string i)"
proof -
  have "\<forall>c\<in>set (digit_chars n). c < 256" for n
    using digit_chars_all [of n] by (auto simp: is_digit_def)
  then have "latin1 (digit_chars n)" for n by (simp add: latin1_alt)
  then show ?thesis by (simp add: number_to_string_def latin1_Cons)
qed

lemma b64_char_lt: "n < 64 \<Longrightarrow> b64_char n < 256"
  by (auto simp: b64_char_def)

lemma latin1_b64_encode:
  assumes "\<forall>b\<in>set bs. b < 256"
  shows "latin1 (b64_encode bs)"
proof -
  have lt: "\<forall>v\<in>set (sextets bs). v < 64" using assms by (rule sextets_lt)
  then show ?thesis by (auto simp: latin1_alt b64_encode_def b64_char_lt)
qed

lemma latin1_sign_b64: "latin1 (sign_b64 HMAC secret d)"
  unfolding sign_b64_def by (rule latin1_b64_encode) (rule unat_byte_lt)

lemma usv_no_surrogates:
  "\<forall>c\<in>set s. \<not> is_high_surrogate c \<and> \<not> is_low_surrogate c \<Longrightarrow> usv s = s"
  by (induction s rule: usv.induct) simp_all

lemma usv_latin1: "latin1 s \<Longrightarrow> usv s = s"
  by (rule usv_no_surrogates) (auto simp: latin1_alt not_surrogate_latin1)

lemma map_of_params_set_same: "map_of (params_set k v ps) k = Some v"
  by (induction ps) auto

lemma map_of_filter_neq: "k' \<noteq> k \<Longrightarrow> map_of (filter (\<lambda>q. fst q \<noteq> k) ps) k' = map_of ps k'"
  by (induction ps) auto

lemma map_of_params_set_other: "k' \<noteq> k \<Longrightarrow> map_of (params_set k v ps) k' = map_of ps k'"
  by (induction ps) (auto simp: map_of_filter_neq)

lemma searchParams_get_set_same:
  "usv k = k \<Longrightarrow> searchParams_get (searchParams_set k v u) k = Some (usv v)"
  by (simp add: searchParams_get_def searchParams_set_def map_of_params_set_same)

lemma searchParams_get_set_other:
  "usv k = k \<Longrightarrow> k' \<noteq> k \<Longrightarrow>
   searchParams_get (searchParams_set k v u) k' = searchParams_get u k'"
  by (simp add: searchParams_get_def searchParams_set_def map_of_params_set_other)

lemma url_base_set: "url_base (searchParams_set k v u) = url_base u"
  by (simp add: searchParams_set_def)

lemma JSON_stringify_ne: "JSON_stringify v \<noteq> []"
  using starts_value_stringify [of v] by (auto simp: starts_value_def)

lemma encodeState_Inr:
  "encodeState HMAC data secret = Inr t \<longleftrightarrow>
     secret \<noteq> [] \<and> latin1 (JSON_stringify data) \<and>
     t = b64_encode (JSON_stringify data) @ 46 # sign_b64 HMAC secret (JSON_stringify data)"
proof (cases "secret = []")
  case True
  then show ?thesis by (simp add: encodeState_def importKey_def)
next
  case False
  then show ?thesis by (auto simp: encodeState_eq)
qed

lemma decodeState_encodeState:
  assumes enc: "encodeState HMAC data secret = Inr t"
    and nn: "data \<noteq> JNull"
    and rest: "rest = [] \<or> hd rest = 46"
  shows "decodeState HMAC (t @ rest) secret = Inr (Some data)"
proof -
  let ?d = "JSON_stringify data"
  from enc have s: "secret \<noteq> []" and l: "latin1 ?d"
    and t: "t = b64_encode ?d @ 46 # sign_b64 HMAC secret ?d"
    by (simp_all add: encodeState_Inr)
  have "decodeState HMAC (b64_encode ?d @ 46 # sign_b64 HMAC secret ?d @ rest) secret
      = (case JSON_parse ?d of
           Inl x \<Rightarrow> if x = OutsideModel then Inl x else Inr None
         | Inr v \<Rightarrow> if v = JNull then Inr None else Inr (Some v))"
    by (rule decodeState_token [OF s l JSON_stringify_ne rest])
  then show ?thesis using nn by (simp add: t JSON_parse_stringify)
qed

lemma latin1_token: "encodeState HMAC data secret = Inr t \<Longrightarrow> latin1 t"
  by (auto simp: encodeState_Inr latin1_append latin1_Cons latin1_sign_b64
      intro!: latin1_b64_encode latin1_bytes)

lemma token_ne: "encodeState HMAC data secret = Inr t \<Longrightarrow> t \<noteq> []"
  by (auto simp: encodeState_Inr)

section \<open>Properties of the handlers\<close>

lemma own_prop_object_literal_last:
  "own_prop (object_literal (props @ [(k, Some v)])) k = Some v"
  by (simp add: object_literal_def)

lemma token_result_ok:
  assumes "resp_ok r" "resp_json r = Some td" "td \<noteq> JNull"
  shows "token_result failure r =
     (case truthy_prop td (js ''error'') of
        Some err \<Rightarrow> Inr (Json 400 (JObj [(js ''error'', err)]))
      | None \<Rightarrow>
          Inr (Json 200 (object_literal
            [(js ''access_token'', own_prop td (js ''access_token'')),
             (js ''token_type'',
                (case truthy_prop td (js ''token_type'') of
                   None \<Rightarrow> Some (JStr (js ''Bearer'')) | Some tt \<Rightarrow> Some tt)),
             (js ''expires_in'', own_prop td (js ''expires_in'')),
             (js ''refresh_token'', own_prop td (js ''refresh_token'')),
             (js ''scope'', Some (JStr STRAVA_SCOPES))])))"
  using assms by (simp add: token_result_def)

lemma token_result_200:
  assumes "token_result failure r = Inr (Json 200 body)"
  shows "\<exists>td. resp_ok r \<and> resp_json r = Some td \<and> td \<noteq> JNull
           \<and> truthy_prop td (js ''error'') = None
           \<and> body = object_literal
               [(js ''access_token'', own_prop td (js ''access_token'')),
                (js ''token_type'',
                   (case truthy_prop td (js ''token_type'') of
                      None \<Rightarrow> Some (JStr (js ''Bearer'')) | Some tt \<Rightarrow> Some tt)),
                (js ''expires_in'', own_prop td (js ''expires_in'')),
                (js ''refresh_token'', own_prop td (js ''refresh_token'')),
                (js ''scope'', Some (JStr STRAVA_SCOPES))]"
proof -
  from assms have ok: "resp_ok r" by (auto simp: token_result_def split: if_splits)
  from assms ok obtain td where td: "resp_json r = Some td"
    by (cases "resp_json r") (simp_all add: token_result_def)
  from assms ok td have nn: "td \<noteq> JNull" by (auto simp: token_result_def)
  from assms show ?thesis
    unfolding token_result_ok [OF ok td nn]
    using ok td nn by (auto split: option.splits)
qed

lemma token_result_scope:
  assumes "token_result failure r = Inr (Json 200 body)"
  shows "own_prop body (js ''scope'') = Some (JStr STRAVA_SCOPES)"
proof -
  from token_result_200 [OF assms] obtain td where
    "body = object_literal
       ([(js ''access_token'', own_prop td (js ''access_token'')),
         (js ''token_type'',
            (case truthy_prop td (js ''token_type'') of
               None \<Rightarrow> Some (JStr (js ''Bearer'')) | Some tt \<Rightarrow> Some tt)),
         (js ''expires_in'', own_prop td (js ''expires_in'')),
         (js ''refresh_token'', own_prop td (js ''refresh_token''))]
        @ [(js ''scope'', Some (JStr STRAVA_SCOPES))])"
    by auto
  then show ?thesis by (simp only: own_prop_object_literal_last)
qed

lemmas handler_eval =
  js_def truthy_str_def truthy_prop_def Let_def object_literal_def URLSearchParams_def
  STRAVA_TOKEN_URL_def example_env_def example_fetch_def example_token_data_def
  GET_def POST_form_def POST_json_def

lemma example_refresh:
  "oauth_token example_hmac example_fetch example_env
     (POST_form (js ''/oauth/token'')
        [(js ''grant_type'', js ''refresh_token''), (js ''refresh_token'', js ''r0'')])
   = Inr (Json 200 example_token_response)"
  by (simp add: oauth_token_def token_result_def example_token_response_def handler_eval)

lemma oauth_token_unconfigured:
  assumes "truthy_str (STRAVA_CLIENT_ID e) = None \<or> truthy_str (STRAVA_CLIENT_SECRET e) = None
           \<or> truthy_str (OAUTH_STATE_SECRET e) = None"
  shows "oauth_token HMAC fetch e req =
     Inr (Json 500 (JObj [(js ''error'', JStr (js ''server_error'')),
                         (js ''error_description'', JStr (js ''OAuth not configured''))]))"
  using assms unfolding oauth_token_def
  by (auto split: option.splits)

lemma oauth_authorize_unconfigured:
  assumes "truthy_str (STRAVA_CLIENT_ID e) = None \<or> truthy_str (OAUTH_STATE_SECRET e) = None"
  shows "oauth_authorize HMAC now e req =
     Inr (Json 500 (JObj [(js ''error'', JStr (js ''OAuth not configured''))]))"
  using assms unfolding oauth_authorize_def
  by (auto split: option.splits)

lemma oauth_callback_unconfigured:
  assumes "truthy_str (OAUTH_STATE_SECRET e) = None"
  shows "oauth_callback HMAC new_URL now e req =
     Inr (Json 500 (JObj [(js ''error'', JStr (js ''OAuth not configured''))]))"
  using assms unfolding oauth_callback_def by simp

lemma oauth_authorize_ok:
  assumes "truthy_str (STRAVA_CLIENT_ID e) = Some clientId"
    and "truthy_str (OAUTH_STATE_SECRET e) = Some stateSecret"
    and "encodeState HMAC
           (object_literal
              [(js ''redirect_uri'', map_option JStr (req_query req (js ''redirect_uri''))),
               (js ''client_state'', map_option JStr (req_query req (js ''state''))),
               (js ''timestamp'', Some (JNum now))])
           stateSecret = Inr state"
  shows "oauth_authorize HMAC now e req =
     Inr (Redirect
       (searchParams_set (js ''approval_prompt'') (js ''auto'')
         (searchParams_set (js ''state'') state
           (searchParams_set (js ''scope'') STRAVA_SCOPES
             (searchParams_set (js ''redirect_uri'') (base_url req @ js ''/oauth/callback'')
               (searchParams_set (js ''response_type'') (js ''code'')
                 (searchParams_set (js ''client_id'') clientId
                   \<lparr>url_base = STRAVA_AUTHORIZE_URL, url_params = []\<rparr>)))))))"
  using assms by (simp add: oauth_authorize_def Let_def)

lemmas route_eval = app_def js_def Let_def GET_def POST_form_def POST_json_def

lemmas json_eval =
  js_def QuoteJSONString_def escape_unit_def unicode_escape_def hex_digit_def
  number_to_string_def digit_chars_def dec_digits.simps is_high_surrogate_def is_low_surrogate_def

lemma example_state_stringify: "JSON_stringify example_state_payload = example_state_json"
  by (simp add: example_state_payload_def example_state_json_def json_eval)

lemma example_state_latin1: "latin1 example_state_json"
  by (simp add: example_state_json_def js_def latin1_def)

lemma example_state_encode:
  "encodeState example_hmac example_state_payload (js ''state-secret'') = Inr example_state"
proof -
  have ne: "js ''state-secret'' \<noteq> []" by (simp add: js_def)
  show ?thesis
    using encodeState_eq [OF ne, of example_hmac example_state_payload]
    by (simp only: example_state_stringify example_state_latin1 if_True example_state_def)
qed

lemma example_state_decode:
  "decodeState example_hmac example_state (js ''state-secret'') = Inr (Some example_state_payload)"
  using decodeState_encodeState [OF example_state_encode, of "[]"]
  by (simp add: example_state_payload_def)

lemma authorize_request_payload:
  "object_literal
     [(js ''redirect_uri'', map_option JStr (req_query authorize_request (js ''redirect_uri''))),
      (js ''client_state'', map_option JStr (req_query authorize_request (js ''state''))),
      (js ''timestamp'', Some (JNum 1700000000000))]
   = example_state_payload"
  by (simp add: authorize_request_def GET_def object_literal_def example_state_payload_def js_def)

lemma example_authorize:
  assumes "truthy_str (STRAVA_CLIENT_ID e) = Some clientId"
    and "truthy_str (OAUTH_STATE_SECRET e) = Some (js ''state-secret'')"
  shows "oauth_authorize example_hmac 1700000000000 e authorize_request =
     Inr (Redirect
       (searchParams_set (js ''approval_prompt'') (js ''auto'')
         (searchParams_set (js ''state'') example_state
           (searchParams_set (js ''scope'') STRAVA_SCOPES
             (searchParams_set (js ''redirect_uri'')
                (base_url authorize_request @ js ''/oauth/callback'')
               (searchParams_set (js ''response_type'') (js ''code'')
                 (searchParams_set (js ''client_id'') clientId
                   \<lparr>url_base = STRAVA_AUTHORIZE_URL, url_params = []\<rparr>)))))))"
  by (rule oauth_authorize_ok [OF assms])
     (simp only: authorize_request_payload example_state_encode)

lemma js_split_hd_append:
  "hd (js_split sep (r @ sep # x)) = hd (js_split sep r)"
  by (induction r) (auto simp: js_split_ne split: list.splits)

lemma js_split_two_segments:
  assumes "sep \<in> set t"
  shows "\<exists>a b m1 m2. js_split sep t = a # b # m1 \<and> js_split sep (t @ sep # x) = a # b # m2"
proof -
  from assms obtain a r where t: "t = a @ sep # r" and a: "sep \<notin> set a"
    by (meson split_list_first)
  have 1: "js_split sep t = a # js_split sep r"
    unfolding t by (rule js_split_append [OF a])
  have 2: "js_split sep (t @ sep # x) = a # js_split sep (r @ sep # x)"
    unfolding t using js_split_append [OF a, of "r @ sep # x"] by simp
  obtain b m1 where 3: "js_split sep r = b # m1"
    using js_split_ne [of sep r] by (cases "js_split sep r") auto
  obtain b' m2 where 4: "js_split sep (r @ sep # x) = b' # m2"
    using js_split_ne [of sep "r @ sep # x"] by (cases "js_split sep (r @ sep # x)") auto
  have "b' = b" using js_split_hd_append [of sep r x] 3 4 by simp
  then show ?thesis using 1 2 3 4 by simp
qed

lemma decodeState_extra_segments:
  assumes "46 \<in> set t"
  shows "decodeState HMAC (t @ 46 # x) secret = decodeState HMAC t secret"
proof -
  from js_split_two_segments [OF assms, of x] obtain a b m1 m2
    where "js_split 46 t = a # b # m1" "js_split 46 (t @ 46 # x) = a # b # m2" by blast
  then show ?thesis by (simp add: decodeState_def)
qed

lemma oauth_callback_decoded:
  assumes "truthy_str (OAUTH_STATE_SECRET e) = Some stateSecret"
    and "truthy_str (req_query req (js ''error'')) = None"
    and "truthy_str (req_query req (js ''code'')) = Some code"
    and "truthy_str (req_query req (js ''state'')) = Some state"
    and "decodeState HMAC state stateSecret = Inr (Some stateData)"
    and "truthy stateData"
  shows "oauth_callback HMAC new_URL now e req =
     (case number_prop stateData (js ''timestamp'') of
        Inl x \<Rightarrow> Inl x
      | Inr timestamp \<Rightarrow>
          if (case timestamp of None \<Rightarrow> False | Some t \<Rightarrow> now - t > 10 * 60 * 1000)
          then Inr (Json 400 (JObj [(js ''error'', JStr (js ''State expired''))]))
          else wrap_and_redirect HMAC new_URL stateSecret stateData code)"
  using assms by (simp add: oauth_callback_def Let_def)

lemma oauth_callback_missing:
  assumes "truthy_str (OAUTH_STATE_SECRET e) = Some stateSecret"
    and "truthy_str (req_query req (js ''error'')) = None"
    and "truthy_str (req_query req (js ''code'')) = None \<or> truthy_str (req_query req (js ''state'')) = None"
  shows "oauth_callback HMAC new_URL now e req =
     Inr (Json 400 (JObj [(js ''error'', JStr (js ''Missing code or state''))]))"
  using assms by (auto simp: oauth_callback_def Let_def split: option.splits)

lemma number_prop_num:
  "own_prop v k = Some (JNum t) \<Longrightarrow> number_prop v k = Inr (if t = 0 then None else Some t)"
  by (simp add: number_prop_def truthy_prop_def)

lemma number_prop_absent: "own_prop v k = None \<Longrightarrow> number_prop v k = Inr None"
  by (simp add: number_prop_def truthy_prop_def)

lemma string_prop_str:
  "own_prop v k = Some (JStr s) \<Longrightarrow> string_prop v k = Inr (if s = [] then None else Some s)"
  by (simp add: string_prop_def truthy_prop_def)

lemma string_prop_absent: "own_prop v k = None \<Longrightarrow> string_prop v k = Inr None"
  by (simp add: string_prop_def truthy_prop_def)

lemma own_prop_truthy: "own_prop v k = Some x \<Longrightarrow> truthy v"
  by (cases v) simp_all

lemma redirect_to_client_not_400:
  "redirect_to_client new_URL stateData redirect_uri name val \<noteq> Inr (Json status body)"
  by (auto simp: redirect_to_client_def Let_def split: option.splits sum.splits)

lemma wrap_and_redirect_not_400:
  "wrap_and_redirect HMAC new_URL stateSecret stateData code \<noteq> Inr (Json 400 body)"
  by (auto simp: wrap_and_redirect_def redirect_to_client_not_400 split: sum.splits option.splits)

lemma encodeState_issue_token:
  "secret \<noteq> [] \<Longrightarrow> latin1 (JSON_stringify data) \<Longrightarrow>
   encodeState HMAC data secret = Inr (issue_token HMAC data secret)"
  by (simp add: encodeState_eq issue_token_def)

lemma example_state_issue:
  "example_state = issue_token example_hmac example_state_payload (js ''state-secret'')"
  by (simp only: example_state_def issue_token_def example_state_stringify)

lemma example_secret_ne: "js ''state-secret'' \<noteq> []"
  by (simp add: js_def)

lemma example_code_encode:
  "encodeState example_hmac example_code_payload (js ''state-secret'') = Inr example_wrapped_code"
proof -
  have "JSON_stringify example_code_payload = js ''{\"strava_code\":\"ABC123\"}''"
    by (simp add: example_code_payload_def json_eval)
  then have "latin1 (JSON_stringify example_code_payload)" by (simp add: latin1_def js_def)
  then show ?thesis
    unfolding example_wrapped_code_def
    by (rule encodeState_issue_token [OF example_secret_ne])
qed

lemma untimed_encode:
  "encodeState example_hmac untimed_payload (js ''state-secret'') = Inr untimed_state"
proof -
  have "JSON_stringify untimed_payload
      = js ''{\"redirect_uri\":\"https://client.example/cb\",\"client_state\":\"xyz\"}''"
    by (simp add: untimed_payload_def json_eval)
  then have "latin1 (JSON_stringify untimed_payload)" by (simp add: latin1_def js_def)
  then show ?thesis
    unfolding untimed_state_def
    by (rule encodeState_issue_token [OF example_secret_ne])
qed

lemma untimed_decode:
  "decodeState example_hmac untimed_state (js ''state-secret'') = Inr (Some untimed_payload)"
  using decodeState_encodeState [OF untimed_encode, of "[]"]
  by (simp add: untimed_payload_def)

lemma example_env_secret:
  "truthy_str (OAUTH_STATE_SECRET example_env) = Some (js ''state-secret'')"
  by (simp add: example_env_def truthy_str_def js_def)

lemma state_ne: "encodeState HMAC data secret = Inr t \<Longrightarrow> truthy_str (Some t) = Some t"
  using token_ne [of HMAC data secret t] by (simp add: truthy_str_def)

lemma callback_request_query:
  assumes "state \<noteq> []"
  shows "truthy_str (req_query (callback_request state) (js ''error'')) = None"
    and "truthy_str (req_query (callback_request state) (js ''code'')) = Some (js ''ABC123'')"
    and "truthy_str (req_query (callback_request state) (js ''state'')) = Some state"
  using assms by (simp_all add: callback_request_def GET_def truthy_str_def js_def)

lemma callback_request_without_code_query:
  assumes "state \<noteq> []"
  shows "truthy_str (req_query (callback_request_without_code state) (js ''error'')) = None"
    and "truthy_str (req_query (callback_request_without_code state) (js ''code'')) = None"
    and "truthy_str (req_query (callback_request_without_code state) (js ''state'')) = Some state"
  using assms by (simp_all add: callback_request_without_code_def GET_def truthy_str_def js_def)

lemma example_state_ne: "example_state \<noteq> []"
  by (rule token_ne [OF example_state_encode])

lemma untimed_state_ne: "untimed_state \<noteq> []"
  by (rule token_ne [OF untimed_encode])

lemma example_state_timestamp:
  "own_prop example_state_payload (js ''timestamp'') = Some (JNum 1700000000000)"
  by (simp add: example_state_payload_def js_def)

lemma example_wrap:
  assumes "own_prop stateData (js ''redirect_uri'') = Some (JStr (js ''https://client.example/cb''))"
    and "own_prop stateData (js ''client_state'') = Some (JStr (js ''xyz''))"
  shows "wrap_and_redirect example_hmac example_URL (js ''state-secret'') stateData (js ''ABC123'')
     = Inr (Redirect
         (searchParams_set (js ''state'') (js ''xyz'')
           (searchParams_set (js ''code'') example_wrapped_code
             \<lparr>url_base = js ''https://client.example/cb'', url_params = []\<rparr>)))"
proof -
  have enc: "encodeState example_hmac (JObj [(js ''strava_code'', JStr (js ''ABC123''))])
      (js ''state-secret'') = Inr example_wrapped_code"
    using example_code_encode by (simp only: example_code_payload_def)
  have r: "string_prop stateData (js ''redirect_uri'') = Inr (Some (js ''https://client.example/cb''))"
    by (simp add: string_prop_str [OF assms(1)]) (simp add: js_def)
  have c: "string_prop stateData (js ''client_state'') = Inr (Some (js ''xyz''))"
    by (simp add: string_prop_str [OF assms(2)]) (simp add: js_def)
  have u: "example_URL (js ''https://client.example/cb'')
      = Some \<lparr>url_base = js ''https://client.example/cb'', url_params = []\<rparr>"
    by (simp add: example_URL_def)
  show ?thesis
    by (simp add: wrap_and_redirect_def enc r redirect_to_client_def u c)
qed

lemma oauth_callback_error:
  assumes "truthy_str (OAUTH_STATE_SECRET e) = Some stateSecret"
    and "truthy_str (req_query req (js ''error'')) = Some err"
  shows "oauth_callback HMAC new_URL now e req =
     (let direct = Inr (Json 400 (JObj
            [(js ''error'', JStr (js ''OAuth error: '' @
                (case truthy_str (req_query req (js ''error_description'')) of
                   None \<Rightarrow> err | Some d \<Rightarrow> d)))]))
      in case truthy_str (req_query req (js ''state'')) of
           None \<Rightarrow> direct
         | Some st \<Rightarrow>
             (case decodeState HMAC st stateSecret of
                Inl x \<Rightarrow> Inl x
              | Inr None \<Rightarrow> direct
              | Inr (Some stateData) \<Rightarrow>
                  (case string_prop stateData (js ''redirect_uri'') of
                     Inl x \<Rightarrow> Inl x
                   | Inr None \<Rightarrow> direct
                   | Inr (Some redirect_uri) \<Rightarrow>
                       redirect_to_client new_URL stateData redirect_uri (js ''error'') err)))"
  using assms by (simp add: oauth_callback_def Let_def)

lemma string_prop_None_iff: "string_prop v k = Inr None \<longleftrightarrow> truthy_prop v k = None"
  by (auto simp: string_prop_def split: option.splits json.splits)

lemma bad_redirect_encode:
  "encodeState example_hmac bad_redirect_payload (js ''state-secret'') = Inr bad_redirect_state"
proof -
  have "JSON_stringify bad_redirect_payload
      = js ''{\"redirect_uri\":\"not a url\",\"timestamp\":1700000000000}''"
    by (simp add: bad_redirect_payload_def json_eval)
  then have "latin1 (JSON_stringify bad_redirect_payload)" by (simp add: latin1_def js_def)
  then show ?thesis
    unfolding bad_redirect_state_def
    by (rule encodeState_issue_token [OF example_secret_ne])
qed

lemma bad_redirect_decode:
  "decodeState example_hmac bad_redirect_state (js ''state-secret'') = Inr (Some bad_redirect_payload)"
  using decodeState_encodeState [OF bad_redirect_encode, of "[]"]
  by (simp add: bad_redirect_payload_def)

lemma error_callback_request_query:
  assumes "state \<noteq> []"
  shows "truthy_str (req_query (error_callback_request state) (js ''error'')) = Some (js ''access_denied'')"
    and "truthy_str (req_query (error_callback_request state) (js ''state'')) = Some state"
    and "truthy_str (req_query (error_callback_request state) (js ''error_description'')) = None"
  using assms by (simp_all add: error_callback_request_def GET_def truthy_str_def js_def)

lemma example_env_client_id: "truthy_str (STRAVA_CLIENT_ID example_env) = Some (js ''12345'')"
  by (simp add: example_env_def truthy_str_def js_def)

lemma latin1_js_keys:
  "latin1 (js ''redirect_uri'')" "latin1 (js ''client_state'')" "latin1 (js ''timestamp'')"
  "latin1 (js ''strava_code'')"
  by (simp_all add: latin1_def js_def)

lemma latin1_authorize_payload:
  assumes "latin1 R" "latin1 X"
  shows "latin1 (JSON_stringify (JObj [(js ''redirect_uri'', JStr R), (js ''client_state'', JStr X),
                                       (js ''timestamp'', JNum n)]))"
  using assms
  by (simp add: latin1_Cons latin1_append latin1_Nil latin1_QuoteJSONString latin1_js_keys
      latin1_number_to_string)

lemma latin1_code_payload:
  assumes "latin1 C"
  shows "latin1 (JSON_stringify (JObj [(js ''strava_code'', JStr C)]))"
  using assms
  by (simp add: latin1_Cons latin1_append latin1_Nil latin1_QuoteJSONString latin1_js_keys)

lemma latin1_issue_token: "latin1 (JSON_stringify data) \<Longrightarrow> latin1 (issue_token HMAC data secret)"
  by (simp add: issue_token_def latin1_append latin1_Cons latin1_sign_b64 latin1_b64_encode
      latin1_bytes)

lemma issue_token_ne: "issue_token HMAC data secret \<noteq> []"
  by (simp add: issue_token_def)

lemma usv_js_names:
  "usv (js ''client_id'') = js ''client_id''"
  "usv (js ''response_type'') = js ''response_type''"
  "usv (js ''redirect_uri'') = js ''redirect_uri''"
  "usv (js ''scope'') = js ''scope''"
  "usv (js ''state'') = js ''state''"
  "usv (js ''approval_prompt'') = js ''approval_prompt''"
  "usv (js ''code'') = js ''code''"
  "usv (js ''error'') = js ''error''"
  by (rule usv_latin1, simp add: latin1_def js_def)+

lemma oauth_token_code:
  assumes env: "truthy_str (STRAVA_CLIENT_ID e) = Some clientId"
      "truthy_str (STRAVA_CLIENT_SECRET e) = Some clientSecret"
      "truthy_str (OAUTH_STATE_SECRET e) = Some stateSecret"
    and body: "(if js_includes (case truthy_str (req_header req (js ''content-type'')) of
                                 None \<Rightarrow> [] | Some h \<Rightarrow> h)
                     (js ''application/x-www-form-urlencoded'')
                then Some (req_text_params req) else req_json_params req) = Some params"
    and grant: "map_of params (js ''grant_type'') = Some (js ''authorization_code'')"
    and code: "map_of params (js ''code'') = Some wrapped" "wrapped \<noteq> []"
    and dec: "decodeState HMAC wrapped stateSecret = Inr (Some (JObj [(js ''strava_code'', JStr C)]))"
  shows "oauth_token HMAC fetch e req =
     token_result (js ''Token exchange failed'')
       (fetch STRAVA_TOKEN_URL (URLSearchParams
          [(js ''client_id'', clientId),
           (js ''client_secret'', clientSecret),
           (js ''code'', C),
           (js ''grant_type'', js ''authorization_code'')]))"
proof -
  have g: "js ''authorization_code'' \<noteq> js ''refresh_token''" by (simp add: js_def)
  have sc: "strava_code_of (JObj [(js ''strava_code'', JStr C)]) = Inr C"
    by (simp add: strava_code_of_def)
  show ?thesis
    unfolding oauth_token_def
    using env body grant code dec g sc
    by (simp add: Let_def truthy_str_def)
qed

lemma example_wrapped_decode:
  "decodeState example_hmac example_wrapped_code (js ''state-secret'') = Inr (Some example_code_payload)"
  using decodeState_encodeState [OF example_code_encode, of "[]"]
  by (simp add: example_code_payload_def)

lemma js_replace_absent:
  "pat \<noteq> [] \<Longrightarrow> \<not> js_includes s pat \<Longrightarrow> js_replace s pat rep = s"
  by (induction s) auto

subsection \<open>The length tests of the JSON parser\<close>

text \<open>
  Every parser leaves a text shorter than the one it was given, so the length tests in
  \<open>parse_elements\<close> and \<open>parse_members\<close> always succeed: both functions satisfy
  their equations without the tests.
\<close>

lemma cons_unit_SomeD: "cons_unit u p = Some (x, r) \<Longrightarrow> \<exists>y. p = Some (y, r)"
  by (auto simp: cons_unit_def split: option.splits)

lemma parse_units_shorter: "parse_units s = Some (x, r) \<Longrightarrow> length r < length s"
proof (induction "length s" arbitrary: s x r rule: less_induct)
  case less
  show ?case
  proof (cases s)
    case Nil
    with less.prems show ?thesis by simp
  next
    case (Cons c cs)
    have ih: "\<And>t y. length t < length s \<Longrightarrow> parse_units t = Some (y, r) \<Longrightarrow> length r < length t"
      using less.hyps by blast
    show ?thesis
    proof (cases "c = 34")
      case True
      with less.prems Cons show ?thesis by simp
    next
      case n34: False
      show ?thesis
      proof (cases "c = 92")
        case True
        show ?thesis
        proof (cases cs)
          case Nil
          with less.prems Cons n34 True show ?thesis by simp
        next
          case e: (Cons e rr)
          show ?thesis
          proof (cases "e = 117")
            case u: True
            from less.prems Cons n34 True e u obtain h1 h2 h3 h4 r' v where
              rr: "rr = h1 # h2 # h3 # h4 # r'"
              and p: "cons_unit v (parse_units r') = Some (x, r)"
              by (auto split: list.splits option.splits)
            from cons_unit_SomeD [OF p] obtain y where "parse_units r' = Some (y, r)" ..
            from ih [OF _ this] show ?thesis by (simp add: Cons e rr)
          next
            case nu: False
            from less.prems Cons n34 True e nu obtain v where
              p: "cons_unit v (parse_units rr) = Some (x, r)"
              by (auto split: option.splits)
            from cons_unit_SomeD [OF p] obtain y where "parse_units rr = Some (y, r)" ..
            from ih [OF _ this] show ?thesis by (simp add: Cons e)
          qed
        qed
      next
        case n92: False
        from less.prems Cons n34 n92 have p: "cons_unit c (parse_units cs) = Some (x, r)"
          by (auto split: if_splits)
        from cons_unit_SomeD [OF p] obtain y where "parse_units cs = Some (y, r)" ..
        from ih [OF _ this] show ?thesis by (simp add: Cons)
      qed
    qed
  qed
qed

lemma parse_int_part_shorter: "parse_int_part s = Some (n, r) \<Longrightarrow> length r < length s"
proof -
  assume a: "parse_int_part s = Some (n, r)"
  then have ne: "takeWhile is_digit s \<noteq> []" and r: "r = dropWhile is_digit s"
    by (auto simp: parse_int_part_def Let_def split: if_splits)
  have "length (takeWhile is_digit s) + length (dropWhile is_digit s) = length s"
    by (metis length_append takeWhile_dropWhile_id)
  with ne r show ?thesis by (cases "takeWhile is_digit s") auto
qed

lemma skip_fraction_le: "skip_fraction r = Some r1 \<Longrightarrow> length r1 \<le> length r"
  by (auto simp: skip_fraction_def split: list.splits if_splits
      intro: le_trans [OF length_dropWhile_le])

lemma skip_exponent_le: "skip_exponent r = Some r1 \<Longrightarrow> length r1 \<le> length r"
  by (auto simp: skip_exponent_def Let_def split: list.splits if_splits
      intro: le_trans [OF length_dropWhile_le])

lemma parse_number_shorter: "parse_number lenient s = Some (v, r) \<Longrightarrow> length r < length s"
proof -
  assume a: "parse_number lenient s = Some (v, r)"
  define s1 where "s1 = (if (case s of [] \<Rightarrow> False | c # _ \<Rightarrow> c = 45) then tl s else s)"
  from a obtain n r0 where ip: "parse_int_part s1 = Some (n, r0)"
    by (auto simp: parse_number_def Let_def s1_def split: option.splits)
  have l0: "length r0 < length s1" using ip by (rule parse_int_part_shorter)
  have l1: "length s1 \<le> length s" by (cases s) (auto simp: s1_def)
  have "length r \<le> length r0"
  proof (cases "starts_fraction_or_exponent r0")
    case False
    with a ip show ?thesis by (simp add: parse_number_def Let_def s1_def)
  next
    case True
    with a ip obtain r1 where f: "skip_fraction r0 = Some r1" and e: "skip_exponent r1 = Some r"
      by (auto simp: parse_number_def Let_def s1_def split: option.splits if_splits)
    from skip_fraction_le [OF f] skip_exponent_le [OF e] show ?thesis by linarith
  qed
  with l0 l1 show ?thesis by linarith
qed

lemma parse_literal_shorter: "parse_literal s = Some (v, r) \<Longrightarrow> length r < length s"
  by (cases s) (auto simp: parse_literal_def js_def split: if_splits)

lemma parse_scalar_shorter: "parse_scalar lenient s = Some (v, r) \<Longrightarrow> length r < length s"
  by (cases s)
    (auto simp: parse_scalar_def split: if_splits option.splits
      dest: parse_units_shorter parse_number_shorter parse_literal_shorter)

lemma skip_ws_le: "length (skip_ws s) \<le> length s"
  by (simp add: skip_ws_def length_dropWhile_le)

lemma parse_value_shorter:
  "parse_value l s = Some (v, r) \<longrightarrow> length r < length s"
  "parse_elements l s = Some (vs, r) \<longrightarrow> length r < length s"
  "parse_members l s = Some (kvs, r) \<longrightarrow> length r < length s"
proof (induction l s and l s and l s arbitrary: v r and vs r and kvs r
    rule: parse_value_parse_elements_parse_members.induct)
  case (1 lenient s)
  show ?case
  proof
    assume a: "parse_value lenient s = Some (v, r)"
    then obtain c cs where sk: "skip_ws s = c # cs"
      by (subst (asm) parse_value.simps) (auto split: list.splits)
    have lcs: "length cs < length s" using sk by (rule skip_ws_length)
    show "length r < length s"
    proof (cases "c = 91")
      case True
      from a sk True obtain d r0 where sk2: "skip_ws cs = d # r0"
        by (subst (asm) parse_value.simps) (auto split: list.splits)
      show ?thesis
      proof (cases "d = 93")
        case d: True
        from a sk True sk2 d have "r = r0"
          by (subst (asm) parse_value.simps) simp
        with skip_ws_length [OF sk2] lcs show ?thesis by simp
      next
        case d: False
        from a sk True sk2 d obtain vs where "parse_elements lenient cs = Some (vs, r)"
          by (subst (asm) parse_value.simps) (auto split: option.splits)
        with 1(1) [OF sk True sk2 d] lcs show ?thesis by fastforce
      qed
    next
      case n91: False
      show ?thesis
      proof (cases "c = 123")
        case True
        from a sk n91 True obtain d r0 where sk2: "skip_ws cs = d # r0"
          by (subst (asm) parse_value.simps) (auto split: list.splits)
        show ?thesis
        proof (cases "d = 125")
          case d: True
          from a sk n91 True sk2 d have "r = r0"
            by (subst (asm) parse_value.simps) simp
          with skip_ws_length [OF sk2] lcs show ?thesis by simp
        next
          case d: False
          from a sk n91 True sk2 d obtain kvs where "parse_members lenient cs = Some (kvs, r)"
            by (subst (asm) parse_value.simps) (auto split: option.splits)
          with 1(2) [OF sk n91 True sk2 d] lcs show ?thesis by fastforce
        qed
      next
        case False
        from a sk n91 False have "parse_scalar lenient (c # cs) = Some (v, r)"
          by (subst (asm) parse_value.simps) simp
        from parse_scalar_shorter [OF this] have "length r < length (skip_ws s)"
          by (simp add: sk)
        with skip_ws_le [of s] show ?thesis by linarith
      qed
    qed
  qed
next
  case (2 lenient s)
  show ?case
  proof
    assume a: "parse_elements lenient s = Some (vs, r)"
    then obtain v0 r0 where pv: "parse_value lenient s = Some (v0, r0)"
      by (subst (asm) parse_elements.simps) (auto split: option.splits)
    from 2(1) pv have l0: "length r0 < length s" by simp
    from a pv obtain c r' where sk: "skip_ws r0 = c # r'"
      by (subst (asm) parse_elements.simps) (auto split: list.splits)
    have l1: "length r' < length r0" using sk by (rule skip_ws_length)
    show "length r < length s"
    proof (cases "c = 93")
      case True
      from a pv sk True have "r = r'" by (subst (asm) parse_elements.simps) simp
      with l0 l1 show ?thesis by simp
    next
      case False
      from a pv sk False have g: "c = 44 \<and> length r' < length s"
        by (subst (asm) parse_elements.simps) (auto split: if_splits)
      from a pv sk False g obtain ws where "parse_elements lenient r' = Some (ws, r)"
        by (subst (asm) parse_elements.simps) (auto split: option.splits)
      with 2(2) [OF pv refl sk False g] l0 l1 show ?thesis by fastforce
    qed
  qed
next
  case (3 lenient s)
  show ?case
  proof
    assume a: "parse_members lenient s = Some (kvs, r)"
    then obtain q cs where sk: "skip_ws s = q # cs"
      by (subst (asm) parse_members.simps) (auto split: list.splits)
    from a sk have q: "\<not> q \<noteq> 34"
      by (subst (asm) parse_members.simps) (auto split: if_splits)
    from a sk q obtain k r0 where pu: "parse_units cs = Some (k, r0)"
      by (subst (asm) parse_members.simps) (auto split: option.splits)
    from a sk q pu obtain colon r1 where sk1: "skip_ws r0 = colon # r1"
      by (subst (asm) parse_members.simps) (auto split: list.splits)
    from a sk q pu sk1 have g: "colon = 58 \<and> length r1 < length s"
      by (subst (asm) parse_members.simps) (auto split: if_splits)
    from a sk q pu sk1 g obtain v0 r2 where pv: "parse_value lenient r1 = Some (v0, r2)"
      by (subst (asm) parse_members.simps) (auto split: option.splits)
    from 3(1) [OF sk q pu refl sk1 g] pv have l2: "length r2 < length r1" by simp
    from a sk q pu sk1 g pv obtain c r3 where sk3: "skip_ws r2 = c # r3"
      by (subst (asm) parse_members.simps) (auto split: list.splits)
    have l3: "length r3 < length r2" using sk3 by (rule skip_ws_length)
    show "length r < length s"
    proof (cases "c = 125")
      case True
      from a sk q pu sk1 g pv sk3 True have "r = r3"
        by (subst (asm) parse_members.simps) simp
      with l2 l3 g show ?thesis by simp
    next
      case False
      from a sk q pu sk1 g pv sk3 False have g3: "c = 44 \<and> length r3 < length s"
        by (subst (asm) parse_members.simps) (auto split: if_splits)
      from a sk q pu sk1 g pv sk3 False g3 obtain ws where
        "parse_members lenient r3 = Some (ws, r)"
        by (subst (asm) parse_members.simps) (auto split: option.splits)
      with 3(2) [OF sk q pu refl sk1 g pv refl sk3 False g3] g3 show ?thesis by fastforce
    qed
  qed
qed

lemma parse_elements_unguarded:
  "parse_elements lenient s =
     (case parse_value lenient s of
        None \<Rightarrow> None
      | Some (v, r) \<Rightarrow>
          (case skip_ws r of
             [] \<Rightarrow> None
           | c # r' \<Rightarrow>
               if c = 93 then Some ([v], r')
               else if c = 44 then
                 (case parse_elements lenient r' of
                    None \<Rightarrow> None
                  | Some (vs, r'') \<Rightarrow> Some (v # vs, r''))
               else None))"
proof -
  have g: "length r' < length s"
    if "parse_value lenient s = Some (v, r)" and "skip_ws r = c # r'" for v r c r'
    using parse_value_shorter(1) [of lenient s v r] skip_ws_length [OF that(2)] that(1) by simp
  show ?thesis
    by (subst parse_elements.simps) (auto split: option.splits list.splits dest: g)
qed

lemma parse_members_unguarded:
  "parse_members lenient s =
     (case skip_ws s of
        [] \<Rightarrow> None
      | q # cs \<Rightarrow>
          if q \<noteq> 34 then None
          else
            (case parse_units cs of
               None \<Rightarrow> None
             | Some (k, r) \<Rightarrow>
                 (case skip_ws r of
                    [] \<Rightarrow> None
                  | colon # r1 \<Rightarrow>
                      if colon = 58 then
                        (case parse_value lenient r1 of
                           None \<Rightarrow> None
                         | Some (v, r2) \<Rightarrow>
                             (case skip_ws r2 of
                                [] \<Rightarrow> None
                              | c # r3 \<Rightarrow>
                                  if c = 125 then Some ([(k, v)], r3)
                                  else if c = 44 then
                                    (case parse_members lenient r3 of
                                       None \<Rightarrow> None
                                     | Some (kvs, r4) \<Rightarrow> Some ((k, v) # kvs, r4))
                                  else None))
                      else None)))"
proof -
  have g1: "length r1 < length s"
    if "skip_ws s = q # cs" and "parse_units cs = Some (k, r)" and "skip_ws r = colon # r1"
    for q cs k r colon r1
    using skip_ws_length [OF that(1)] parse_units_shorter [OF that(2)] skip_ws_length [OF that(3)]
    by simp
  have g3: "length r3 < length s"
    if "skip_ws s = q # cs" and "parse_units cs = Some (k, r)" and "skip_ws r = colon # r1"
      and "parse_value lenient r1 = Some (v, r2)" and "skip_ws r2 = c # r3"
    for q cs k r colon r1 v r2 c r3
    using g1 [OF that(1-3)] parse_value_shorter(1) [of lenient r1 v r2] that(4)
      skip_ws_length [OF that(5)]
    by simp
  show ?thesis
    by (subst parse_members.simps) (auto split: option.splits list.splits dest: g1 g3)
qed

lemma encodeState_outside_latin1:
  "secret \<noteq> [] \<Longrightarrow> \<not> latin1 (JSON_stringify data) \<Longrightarrow>
   encodeState HMAC data secret = Inl InvalidCharacterError"
  by (simp add: encodeState_eq)

lemma oauth_callback_error_throws:
  assumes "truthy_str (OAUTH_STATE_SECRET e) = Some stateSecret"
    and "truthy_str (req_query req (js ''error'')) = Some err"
    and "truthy_str (req_query req (js ''state'')) = Some state"
    and "decodeState HMAC state stateSecret = Inr (Some stateData)"
    and "own_prop stateData (js ''redirect_uri'') = Some (JStr uri)" and "uri \<noteq> []"
    and "new_URL uri = None"
  shows "oauth_callback HMAC new_URL now e req = Inl TypeError"
  unfolding oauth_callback_error [OF assms(1,2)]
  using assms(3-7) by (simp add: string_prop_str redirect_to_client_def)

lemma zero_time_encode:
  "encodeState example_hmac zero_time_payload (js ''state-secret'') = Inr zero_time_state"
proof -
  have "JSON_stringify zero_time_payload
      = js ''{\"redirect_uri\":\"https://client.example/cb\",\"client_state\":\"xyz\",\"timestamp\":0}''"
    by (simp add: zero_time_payload_def json_eval)
  then have "latin1 (JSON_stringify zero_time_payload)" by (simp add: latin1_def js_def)
  then show ?thesis
    unfolding zero_time_state_def
    by (rule encodeState_issue_token [OF example_secret_ne])
qed

lemma zero_time_decode:
  "decodeState example_hmac zero_time_state (js ''state-secret'') = Inr (Some zero_time_payload)"
  using decodeState_encodeState [OF zero_time_encode, of "[]"]
  by (simp add: zero_time_payload_def)

lemma error_code_callback_request_query:
  assumes "state \<noteq> []"
  shows "truthy_str (req_query (error_code_callback_request state) (js ''error''))
           = Some (js ''access_denied'')"
    and "truthy_str (req_query (error_code_callback_request state) (js ''state'')) = Some state"
    and "truthy_str (req_query (error_code_callback_request state) (js ''error_description'')) = None"
    and "req_query (error_code_callback_request state) (js ''code'') = Some (js ''ABC123'')"
  using assms by (simp_all add: error_code_callback_request_def GET_def truthy_str_def js_def)

lemma codec_round_trip_latin1:
  assumes "secret \<noteq> []" and "latin1 (JSON_stringify payload)" and "payload \<noteq> JNull"
  shows "\<exists>token. encodeState HMAC payload secret = Inr token
           \<and> decodeState HMAC token secret = Inr (Some payload)"
proof -
  let ?t = "b64_encode (JSON_stringify payload) @ 46 # sign_b64 HMAC secret (JSON_stringify payload)"
  have enc: "encodeState HMAC payload secret = Inr ?t"
    using assms(1,2) by (simp add: encodeState_eq)
  from decodeState_encodeState [OF enc assms(3), of "[]"]
  have "decodeState HMAC ?t secret = Inr (Some payload)" by simp
  with enc show ?thesis by blast
qed

lemma oauth_callback_error_redirect:
  assumes "truthy_str (OAUTH_STATE_SECRET e) = Some stateSecret"
    and "truthy_str (req_query req (js ''error'')) = Some err"
  shows "(\<forall>state stateData uri target client_state.
            truthy_str (req_query req (js ''state'')) = Some state
            \<and> decodeState HMAC state stateSecret = Inr (Some stateData)
            \<and> own_prop stateData (js ''redirect_uri'') = Some (JStr uri) \<and> uri \<noteq> []
            \<and> new_URL uri = Some target
            \<and> string_prop stateData (js ''client_state'') = Inr client_state
          \<longrightarrow> oauth_callback HMAC new_URL now e req =
                Inr (Redirect
                  (case client_state of
                     None \<Rightarrow> searchParams_set (js ''error'') err target
                   | Some cs \<Rightarrow>
                       searchParams_set (js ''state'') cs
                         (searchParams_set (js ''error'') err target))))
       \<and> (\<forall>body. oauth_callback HMAC new_URL now e req = Inr (Json 400 body)
          \<longrightarrow> body = JObj [(js ''error'', JStr (js ''OAuth error: '' @
                    (case truthy_str (req_query req (js ''error_description'')) of
                       None \<Rightarrow> err | Some d \<Rightarrow> d)))]
              \<and> (truthy_str (req_query req (js ''state'')) = None
                 \<or> (\<exists>state. truthy_str (req_query req (js ''state'')) = Some state
                      \<and> (decodeState HMAC state stateSecret = Inr None
                         \<or> (\<exists>stateData. decodeState HMAC state stateSecret = Inr (Some stateData)
                              \<and> truthy_prop stateData (js ''redirect_uri'') = None)))))"
proof (rule conjI)
  show "\<forall>state stateData uri target client_state.
            truthy_str (req_query req (js ''state'')) = Some state
            \<and> decodeState HMAC state stateSecret = Inr (Some stateData)
            \<and> own_prop stateData (js ''redirect_uri'') = Some (JStr uri) \<and> uri \<noteq> []
            \<and> new_URL uri = Some target
            \<and> string_prop stateData (js ''client_state'') = Inr client_state
          \<longrightarrow> oauth_callback HMAC new_URL now e req =
                Inr (Redirect
                  (case client_state of
                     None \<Rightarrow> searchParams_set (js ''error'') err target
                   | Some cs \<Rightarrow>
                       searchParams_set (js ''state'') cs
                         (searchParams_set (js ''error'') err target)))"
  proof (intro allI impI)
  fix state stateData uri target client_state
    assume a: "truthy_str (req_query req (js ''state'')) = Some state
              \<and> decodeState HMAC state stateSecret = Inr (Some stateData)
              \<and> own_prop stateData (js ''redirect_uri'') = Some (JStr uri) \<and> uri \<noteq> []
              \<and> new_URL uri = Some target
              \<and> string_prop stateData (js ''client_state'') = Inr client_state"
    then have r: "string_prop stateData (js ''redirect_uri'') = Inr (Some uri)"
      by (simp add: string_prop_str)
    show "oauth_callback HMAC new_URL now e req =
                  Inr (Redirect
                    (case client_state of
                       None \<Rightarrow> searchParams_set (js ''error'') err target
                     | Some cs \<Rightarrow>
                         searchParams_set (js ''state'') cs
                           (searchParams_set (js ''error'') err target)))"
      unfolding oauth_callback_error [OF assms]
      using a r by (simp add: redirect_to_client_def Let_def split: option.splits)
  qed
next
  show "\<forall>body. oauth_callback HMAC new_URL now e req = Inr (Json 400 body)
          \<longrightarrow> body = JObj [(js ''error'', JStr (js ''OAuth error: '' @
                    (case truthy_str (req_query req (js ''error_description'')) of
                       None \<Rightarrow> err | Some d \<Rightarrow> d)))]
              \<and> (truthy_str (req_query req (js ''state'')) = None
                 \<or> (\<exists>state. truthy_str (req_query req (js ''state'')) = Some state
                      \<and> (decodeState HMAC state stateSecret = Inr None
                         \<or> (\<exists>stateData. decodeState HMAC state stateSecret = Inr (Some stateData)
                              \<and> truthy_prop stateData (js ''redirect_uri'') = None))))"
  proof (intro allI impI)
  fix body
    assume b: "oauth_callback HMAC new_URL now e req = Inr (Json 400 body)"
    show "body = JObj [(js ''error'', JStr (js ''OAuth error: '' @
                      (case truthy_str (req_query req (js ''error_description'')) of
                         None \<Rightarrow> err | Some d \<Rightarrow> d)))]
                \<and> (truthy_str (req_query req (js ''state'')) = None
                   \<or> (\<exists>state. truthy_str (req_query req (js ''state'')) = Some state
                        \<and> (decodeState HMAC state stateSecret = Inr None
                           \<or> (\<exists>stateData. decodeState HMAC state stateSecret = Inr (Some stateData)
                                \<and> truthy_prop stateData (js ''redirect_uri'') = None))))"
    proof (cases "truthy_str (req_query req (js ''state''))")
      case None
      with b show ?thesis unfolding oauth_callback_error [OF assms] by (simp add: Let_def)
    next
      case (Some st)
      show ?thesis
      proof (cases "decodeState HMAC st stateSecret")
        case (Inl x)
        with b Some show ?thesis unfolding oauth_callback_error [OF assms] by (simp add: Let_def)
      next
        case (Inr decoded)
        show ?thesis
        proof (cases decoded)
          case None
          with b Some Inr show ?thesis
            unfolding oauth_callback_error [OF assms] by (simp add: Let_def)
        next
          case sd: (Some stateData)
          show ?thesis
          proof (cases "string_prop stateData (js ''redirect_uri'')")
            case (Inl x)
            with b Some Inr sd show ?thesis
              unfolding oauth_callback_error [OF assms] by (simp add: Let_def)
          next
            case r: (Inr ru)
            show ?thesis
            proof (cases ru)
              case None
              then have "truthy_prop stateData (js ''redirect_uri'') = None"
                using r by (simp add: string_prop_None_iff)
              with b Some Inr sd r None show ?thesis
                unfolding oauth_callback_error [OF assms] by (simp add: Let_def)
            next
              case (Some uri)
              with b \<open>truthy_str (req_query req (js ''state'')) = Some st\<close> Inr sd r
              have "redirect_to_client new_URL stateData uri (js ''error'') err = Inr (Json 400 body)"
                unfolding oauth_callback_error [OF assms] by (simp add: Let_def)
              then show ?thesis by (simp add: redirect_to_client_not_400)
            qed
          qed
        qed
      qed
    qed
  qed
qed

section \<open>The claims\<close>

text \<open>
  Claim C9. \<^verbatim>\<open>POST /mcp\<close> answers 401 exactly when the Authorization header is
  absent or is the empty string once the first occurrence of \<^verbatim>\<open>"Bearer "\<close> is
  removed. Every other header value is accepted, and what is left of it after that
  removal is the access token of the upstream client; a value in which
  \<^verbatim>\<open>"Bearer "\<close> does not occur, such as \<^verbatim>\<open>"Basic xyz"\<close>, is that token
  unchanged.
\<close>

theorem mcp_post_bearer:
  "((\<exists>body. mcp_post req = Inr (Json 401 body)) \<longleftrightarrow>
      (case req_header req (js ''authorization'') of
         None \<Rightarrow> True
       | Some h \<Rightarrow> js_replace h (js ''Bearer '') [] = []))
   \<and> (\<forall>h. req_header req (js ''authorization'') = Some h \<and> js_replace h (js ''Bearer '') [] \<noteq> []
          \<longrightarrow> mcp_post req = Inr (Transport (js_replace h (js ''Bearer '') [])))
   \<and> (\<forall>h. \<not> js_includes h (js ''Bearer '') \<longrightarrow> js_replace h (js ''Bearer '') [] = h)"
proof (intro conjI allI impI)
  show "(\<exists>body. mcp_post req = Inr (Json 401 body)) \<longleftrightarrow>
      (case req_header req (js ''authorization'') of
         None \<Rightarrow> True
       | Some h \<Rightarrow> js_replace h (js ''Bearer '') [] = [])"
    by (auto simp: mcp_post_def truthy_str_def Let_def split: option.splits)
next
  fix h
  assume "req_header req (js ''authorization'') = Some h \<and> js_replace h (js ''Bearer '') [] \<noteq> []"
  then show "mcp_post req = Inr (Transport (js_replace h (js ''Bearer '') []))"
    by (simp add: mcp_post_def truthy_str_def Let_def)
next
  fix h
  assume "\<not> js_includes h (js ''Bearer '')"
  moreover have "js ''Bearer '' \<noteq> []" by (simp add: js_def)
  ultimately show "js_replace h (js ''Bearer '') [] = h" by (simp add: js_replace_absent)
qed

theorem mcp_post_bearer_witness:
  "mcp_post (POST_json (js ''/mcp'') [(js ''authorization'', js ''Basic xyz'')] JNull)
     = Inr (Transport (js ''Basic xyz''))
   \<and> mcp_post (POST_json (js ''/mcp'') [(js ''authorization'', js ''Bearer tok'')] JNull)
     = Inr (Transport (js ''tok''))"
proof -
  let ?r1 = "POST_json (js ''/mcp'') [(js ''authorization'', js ''Basic xyz'')] JNull"
  let ?r2 = "POST_json (js ''/mcp'') [(js ''authorization'', js ''Bearer tok'')] JNull"
  have h1: "req_header ?r1 (js ''authorization'') = Some (js ''Basic xyz'')"
    by (simp add: POST_json_def js_def)
  have h2: "req_header ?r2 (js ''authorization'') = Some (js ''Bearer tok'')"
    by (simp add: POST_json_def js_def)
  have n1: "\<not> js_includes (js ''Basic xyz'') (js ''Bearer '')" by (simp add: js_def)
  have e1: "js_replace (js ''Basic xyz'') (js ''Bearer '') [] = js ''Basic xyz''"
    using mcp_post_bearer [of ?r1] n1 by blast
  have e2: "js_replace (js ''Bearer tok'') (js ''Bearer '') [] = js ''tok''"
    by (simp add: js_def)
  have "mcp_post ?r1 = Inr (Transport (js_replace (js ''Basic xyz'') (js ''Bearer '') []))"
    using mcp_post_bearer [of ?r1] h1 e1 by (simp add: js_def)
  moreover have "mcp_post ?r2 = Inr (Transport (js_replace (js ''Bearer tok'') (js ''Bearer '') []))"
    using mcp_post_bearer [of ?r2] h2 e2 by (simp add: js_def)
  ultimately show ?thesis by (simp only: e1 e2)
qed

text \<open>
  Claim C6. Whenever \<^verbatim>\<open>POST /oauth/token\<close> answers 200, for either grant type and
  whatever the upstream token response contains (a scope of its own included), the
  \<^verbatim>\<open>scope\<close> of the body is the server's fixed scope string.
\<close>

theorem oauth_token_scope:
  assumes "oauth_token HMAC fetch e req = Inr (Json 200 body)"
  shows "own_prop body (js ''scope'') = Some (JStr STRAVA_SCOPES)"
proof -
  from assms obtain failure r where "token_result failure r = Inr (Json 200 body)"
    unfolding oauth_token_def Let_def
    by (auto split: option.splits prod.splits if_splits sum.splits)
  then show ?thesis by (rule token_result_scope)
qed


theorem oauth_token_scope_witness:
  "oauth_token example_hmac example_fetch example_env
     (POST_form (js ''/oauth/token'')
        [(js ''grant_type'', js ''refresh_token''), (js ''refresh_token'', js ''r0'')])
   = Inr (Json 200 example_token_response)
   \<and> own_prop example_token_response (js ''scope'') = Some (JStr STRAVA_SCOPES)
   \<and> own_prop example_token_data (js ''scope'') = Some (JStr (js ''read''))"
proof -
  have "own_prop example_token_data (js ''scope'') = Some (JStr (js ''read''))"
    by (simp add: example_token_data_def js_def)
  then show ?thesis
    using example_refresh oauth_token_scope [OF example_refresh] by simp
qed

text \<open>
  Claim C5, as the code has it. Each OAuth endpoint answers with the HTTP 500
  configuration error when a secret that it reads is absent or empty:
  \<^verbatim>\<open>/oauth/token\<close> reads all three, \<^verbatim>\<open>/oauth/authorize\<close> the client id and
  the state secret, \<^verbatim>\<open>/oauth/callback\<close> the state secret. \<^verbatim>\<open>/oauth/register\<close>
  reads none and answers as it does with every configuration. The health endpoint and
  the three metadata endpoints answer 200 with every configuration. The claim as stated
  (every OAuth endpoint, any one secret) fails at the registration endpoint with no
  secret configured and at the authorize endpoint without the client secret.
\<close>

theorem configuration_guards:
  "(req_method req = js ''POST'' \<and> req_path req = js ''/oauth/token''
      \<and> (truthy_str (STRAVA_CLIENT_ID e) = None \<or> truthy_str (STRAVA_CLIENT_SECRET e) = None
           \<or> truthy_str (OAUTH_STATE_SECRET e) = None)
      \<longrightarrow> app HMAC new_URL fetch now randomUUID e req =
            Inr (Json 500 (JObj [(js ''error'', JStr (js ''server_error'')),
                                (js ''error_description'', JStr (js ''OAuth not configured''))])))
   \<and> (req_method req = js ''GET'' \<and> req_path req = js ''/oauth/authorize''
      \<and> (truthy_str (STRAVA_CLIENT_ID e) = None \<or> truthy_str (OAUTH_STATE_SECRET e) = None)
      \<longrightarrow> app HMAC new_URL fetch now randomUUID e req =
            Inr (Json 500 (JObj [(js ''error'', JStr (js ''OAuth not configured''))])))
   \<and> (req_method req = js ''GET'' \<and> req_path req = js ''/oauth/callback''
      \<and> truthy_str (OAUTH_STATE_SECRET e) = None
      \<longrightarrow> app HMAC new_URL fetch now randomUUID e req =
            Inr (Json 500 (JObj [(js ''error'', JStr (js ''OAuth not configured''))])))
   \<and> (req_method req = js ''POST'' \<and> req_path req = js ''/oauth/register''
      \<longrightarrow> app HMAC new_URL fetch now randomUUID e req = oauth_register randomUUID req)
   \<and> (req_method req = js ''GET'' \<and> req_path req = js ''/''
      \<longrightarrow> app HMAC new_URL fetch now randomUUID e req = Inr (Text 200 (js ''Strava MCP server'')))
   \<and> (req_method req = js ''GET''
      \<and> (req_path req = js ''/.well-known/oauth-protected-resource''
           \<or> req_path req = js ''/.well-known/oauth-protected-resource/mcp''
           \<or> req_path req = js ''/.well-known/oauth-authorization-server'')
      \<longrightarrow> (\<exists>body. app HMAC new_URL fetch now randomUUID e req = Inr (Json 200 body)))"
proof (intro conjI impI)
  assume "req_method req = js ''POST'' \<and> req_path req = js ''/oauth/token''
      \<and> (truthy_str (STRAVA_CLIENT_ID e) = None \<or> truthy_str (STRAVA_CLIENT_SECRET e) = None
           \<or> truthy_str (OAUTH_STATE_SECRET e) = None)"
  then show "app HMAC new_URL fetch now randomUUID e req =
            Inr (Json 500 (JObj [(js ''error'', JStr (js ''server_error'')),
                                (js ''error_description'', JStr (js ''OAuth not configured''))]))"
    using oauth_token_unconfigured [of e HMAC fetch req] by (simp add: app_def js_def)
next
  assume "req_method req = js ''GET'' \<and> req_path req = js ''/oauth/authorize''
      \<and> (truthy_str (STRAVA_CLIENT_ID e) = None \<or> truthy_str (OAUTH_STATE_SECRET e) = None)"
  then show "app HMAC new_URL fetch now randomUUID e req =
            Inr (Json 500 (JObj [(js ''error'', JStr (js ''OAuth not configured''))]))"
    using oauth_authorize_unconfigured [of e HMAC now req] by (simp add: app_def js_def)
next
  assume "req_method req = js ''GET'' \<and> req_path req = js ''/oauth/callback''
      \<and> truthy_str (OAUTH_STATE_SECRET e) = None"
  then show "app HMAC new_URL fetch now randomUUID e req =
            Inr (Json 500 (JObj [(js ''error'', JStr (js ''OAuth not configured''))]))"
    using oauth_callback_unconfigured [of e HMAC new_URL now req] by (simp add: app_def js_def)
next
  assume "req_method req = js ''POST'' \<and> req_path req = js ''/oauth/register''"
  then show "app HMAC new_URL fetch now randomUUID e req = oauth_register randomUUID req"
    by (simp add: app_def js_def)
next
  assume "req_method req = js ''GET'' \<and> req_path req = js ''/''"
  then show "app HMAC new_URL fetch now randomUUID e req = Inr (Text 200 (js ''Strava MCP server''))"
    by (simp add: app_def health_def js_def)
next
  assume "req_method req = js ''GET''
      \<and> (req_path req = js ''/.well-known/oauth-protected-resource''
           \<or> req_path req = js ''/.well-known/oauth-protected-resource/mcp''
           \<or> req_path req = js ''/.well-known/oauth-authorization-server'')"
  then show "\<exists>body. app HMAC new_URL fetch now randomUUID e req = Inr (Json 200 body)"
    by (auto simp: app_def js_def protected_resource_metadata_def
        authorization_server_metadata_def Let_def)
qed

theorem configuration_guards_witness:
  "app example_hmac example_URL example_fetch 1700000000000 example_uuid env_without_client_secret
     (POST_form (js ''/oauth/token'') [(js ''grant_type'', js ''refresh_token'')])
   = Inr (Json 500 (JObj [(js ''error'', JStr (js ''server_error'')),
                         (js ''error_description'', JStr (js ''OAuth not configured''))]))
   \<and> app example_hmac example_URL example_fetch 1700000000000 example_uuid unconfigured_env
       (GET (js ''/'') []) = Inr (Text 200 (js ''Strava MCP server''))"
proof -
  let ?t = "POST_form (js ''/oauth/token'') [(js ''grant_type'', js ''refresh_token'')]"
  have 1: "req_method ?t = js ''POST'' \<and> req_path ?t = js ''/oauth/token''
      \<and> (truthy_str (STRAVA_CLIENT_ID env_without_client_secret) = None
          \<or> truthy_str (STRAVA_CLIENT_SECRET env_without_client_secret) = None
          \<or> truthy_str (OAUTH_STATE_SECRET env_without_client_secret) = None)"
    by (simp add: POST_form_def env_without_client_secret_def truthy_str_def)
  have 2: "req_method (GET (js ''/'') []) = js ''GET'' \<and> req_path (GET (js ''/'') []) = js ''/''"
    by (simp add: GET_def)
  from configuration_guards [of ?t env_without_client_secret example_hmac example_URL
      example_fetch 1700000000000 example_uuid] 1
  have a: "app example_hmac example_URL example_fetch 1700000000000 example_uuid
      env_without_client_secret ?t
      = Inr (Json 500 (JObj [(js ''error'', JStr (js ''server_error'')),
                            (js ''error_description'', JStr (js ''OAuth not configured''))]))"
    by blast
  from configuration_guards [of "GET (js ''/'') []" unconfigured_env example_hmac example_URL
      example_fetch 1700000000000 example_uuid] 2
  have b: "app example_hmac example_URL example_fetch 1700000000000 example_uuid unconfigured_env
       (GET (js ''/'') []) = Inr (Text 200 (js ''Strava MCP server''))"
    by blast
  from a b show ?thesis by (rule conjI)
qed

theorem configuration_guards_counterexample:
  "app example_hmac example_URL example_fetch 1700000000000 example_uuid unconfigured_env
     (POST_json (js ''/oauth/register'') []
        (JObj [(js ''redirect_uris'', JArr [JStr (js ''https://client.example/cb'')])]))
   = Inr (Json 200 (JObj
       [(js ''client_id'', JStr example_uuid),
        (js ''client_secret_expires_at'', JNum 0),
        (js ''redirect_uris'', JArr [JStr (js ''https://client.example/cb'')]),
        (js ''grant_types'', JArr [JStr (js ''authorization_code''), JStr (js ''refresh_token'')]),
        (js ''response_types'', JArr [JStr (js ''code'')]),
        (js ''token_endpoint_auth_method'', JStr (js ''none''))]))
   \<and> app example_hmac example_URL example_fetch 1700000000000 example_uuid
       env_without_client_secret authorize_request
     = Inr (Redirect
       (searchParams_set (js ''approval_prompt'') (js ''auto'')
         (searchParams_set (js ''state'') example_state
           (searchParams_set (js ''scope'') STRAVA_SCOPES
             (searchParams_set (js ''redirect_uri'')
                (base_url authorize_request @ js ''/oauth/callback'')
               (searchParams_set (js ''response_type'') (js ''code'')
                 (searchParams_set (js ''client_id'') (js ''12345'')
                   \<lparr>url_base = STRAVA_AUTHORIZE_URL, url_params = []\<rparr>)))))))"
proof -
  have r: "app example_hmac example_URL example_fetch 1700000000000 example_uuid unconfigured_env
     (POST_json (js ''/oauth/register'') []
        (JObj [(js ''redirect_uris'', JArr [JStr (js ''https://client.example/cb'')])]))
   = Inr (Json 200 (JObj
       [(js ''client_id'', JStr example_uuid),
        (js ''client_secret_expires_at'', JNum 0),
        (js ''redirect_uris'', JArr [JStr (js ''https://client.example/cb'')]),
        (js ''grant_types'', JArr [JStr (js ''authorization_code''), JStr (js ''refresh_token'')]),
        (js ''response_types'', JArr [JStr (js ''code'')]),
        (js ''token_endpoint_auth_method'', JStr (js ''none''))]))"
    by (simp add: app_def POST_json_def oauth_register_def truthy_prop_def js_def)
  have m: "req_method authorize_request = js ''GET''"
    and p: "req_path authorize_request = js ''/oauth/authorize''"
    by (simp_all add: authorize_request_def GET_def)
  have route: "app example_hmac example_URL example_fetch 1700000000000 example_uuid
       env_without_client_secret authorize_request
     = oauth_authorize example_hmac 1700000000000 env_without_client_secret authorize_request"
    by (simp add: app_def m p) (simp add: js_def)
  have e1: "truthy_str (STRAVA_CLIENT_ID env_without_client_secret) = Some (js ''12345'')"
    and e2: "truthy_str (OAUTH_STATE_SECRET env_without_client_secret) = Some (js ''state-secret'')"
    by (simp_all add: env_without_client_secret_def example_env_def truthy_str_def js_def)
  show ?thesis
    by (simp only: r route example_authorize [OF e1 e2] simp_thms)
qed

text \<open>
  Claim C2. The round trip of the codec fails where \<^verbatim>\<open>encodeState\<close> returns no token.
  \<^verbatim>\<open>encodeState\<close> signs the UTF-8 bytes of the JSON text of the payload, but hands the
  text itself to \<^verbatim>\<open>btoa\<close>, which throws on a code unit above 0xFF. For the payload
  that the authorize endpoint builds for a client state of the one character U+20AC, a JSON
  object that \<^verbatim>\<open>JSON.parse\<close> reads back from its text, \<^verbatim>\<open>encodeState\<close> throws an
  \<^verbatim>\<open>InvalidCharacterError\<close>, so there is nothing to decode. Where the secret is not
  empty and the JSON text stays within Latin-1 the round trip holds
  (\<open>codec_round_trip_latin1\<close>).
\<close>

theorem encodeState_rejects_wide_state:
  "JSON_parse (JSON_stringify wide_state_payload) = Inr wide_state_payload
   \<and> encodeState example_hmac wide_state_payload (js ''state-secret'') = Inl InvalidCharacterError"
proof -
  have "JSON_stringify wide_state_payload
      = js ''{\"redirect_uri\":\"https://client.example/cb\",\"client_state\":\"'' @ [0x20AC]
          @ js ''\",\"timestamp\":1700000000000}''"
    by (simp add: wide_state_payload_def json_eval)
  then have "\<not> latin1 (JSON_stringify wide_state_payload)"
    by (simp add: latin1_def js_def)
  then have "encodeState example_hmac wide_state_payload (js ''state-secret'')
      = Inl InvalidCharacterError"
    by (rule encodeState_outside_latin1 [OF example_secret_ne])
  then show ?thesis by (simp add: JSON_parse_stringify)
qed

text \<open>
  Claim C10. \<^verbatim>\<open>decodeState\<close> reads the first two segments of its argument only. For
  every token that \<^verbatim>\<open>encodeState\<close> returns for a payload \<open>P\<close> under a secret
  \<open>S\<close>, and every string \<open>X\<close>, \<^verbatim>\<open>decodeState\<close> of the token followed by
  \<^verbatim>\<open>"."\<close> and \<open>X\<close> returns \<open>P\<close> under \<open>S\<close> (\<^verbatim>\<open>null\<close>, here \<open>None\<close>,
  for the payload \<^verbatim>\<open>null\<close>), as it does for the token itself. More generally,
  appending a further segment to a string of at least two segments does not change what
  \<^verbatim>\<open>decodeState\<close> returns.
\<close>

theorem extra_segments_ignored:
  assumes "encodeState HMAC payload secret = Inr token"
  shows "decodeState HMAC (token @ 46 # extra) secret
           = Inr (if payload = JNull then None else Some payload)
         \<and> decodeState HMAC (token @ 46 # extra) secret = decodeState HMAC token secret
         \<and> (46 \<in> set t \<longrightarrow> decodeState HMAC (t @ 46 # extra) secret = decodeState HMAC t secret)"
proof -
  let ?d = "JSON_stringify payload"
  from assms have s: "secret \<noteq> []" and l: "latin1 ?d"
    and t: "token = b64_encode ?d @ 46 # sign_b64 HMAC secret ?d"
    by (simp_all add: encodeState_Inr)
  have d: "decodeState HMAC (token @ rest) secret
      = Inr (if payload = JNull then None else Some payload)"
    if "rest = [] \<or> hd rest = 46" for rest
    using decodeState_token [OF s l JSON_stringify_ne that, of HMAC]
    by (simp add: t JSON_parse_stringify)
  have 1: "decodeState HMAC (token @ 46 # extra) secret
      = Inr (if payload = JNull then None else Some payload)"
    by (rule d) simp
  have 2: "decodeState HMAC token secret = Inr (if payload = JNull then None else Some payload)"
    using d [of "[]"] by simp
  have 3: "46 \<in> set t \<longrightarrow> decodeState HMAC (t @ 46 # extra) secret = decodeState HMAC t secret"
    by (simp add: decodeState_extra_segments)
  from 1 2 3 show ?thesis by simp
qed

theorem extra_segments_ignored_witness:
  "decodeState example_hmac (example_state @ 46 # js ''anything.at.all'') (js ''state-secret'')
     = Inr (Some example_state_payload)
   \<and> decodeState example_hmac (example_state @ 46 # js ''anything.at.all'') (js ''state-secret'')
     = decodeState example_hmac example_state (js ''state-secret'')"
proof -
  have n: "example_state_payload \<noteq> JNull" by (simp add: example_state_payload_def)
  from extra_segments_ignored [OF example_state_encode, where extra = "js ''anything.at.all''"] n
  show ?thesis by (simp add: example_state_decode)
qed

text \<open>
  Claim C3, as the code has it. At the callback, for a request without an upstream
  \<^verbatim>\<open>error\<close> parameter, with a code present and a validly signed state: when the
  timestamp of the state is \<open>now - 10 * 60 * 1000 - 1\<close> and not 0, the answer is the HTTP
  400 \<^verbatim>\<open>State expired\<close>; when it is \<open>now - 9 * 60 * 1000\<close>, the answer is not
  \<^verbatim>\<open>State expired\<close> and the handler wraps the code: where \<^verbatim>\<open>encodeState\<close>
  returns the wrapped code \<open>W\<close>, the answer is the body \<^verbatim>\<open>{code: W}\<close> for a state
  without a \<^verbatim>\<open>redirect_uri\<close>, and for a \<^verbatim>\<open>redirect_uri\<close> that \<^verbatim>\<open>new URL\<close>
  accepts a redirect to it with \<^verbatim>\<open>code\<close> set to \<open>W\<close> and \<^verbatim>\<open>state\<close> set to
  the \<^verbatim>\<open>client_state\<close> of the state, if it has one. The claim as stated fails on a
  request that carries an \<^verbatim>\<open>error\<close> parameter as well, which the handler answers
  before it looks at the age of the state, and where the first timestamp is 0, which the
  handler treats as no timestamp (claim C8).
\<close>

theorem expiry_boundary:
  assumes "truthy_str (OAUTH_STATE_SECRET e) = Some stateSecret"
    and "truthy_str (req_query req (js ''error'')) = None"
    and "truthy_str (req_query req (js ''code'')) = Some code"
    and "truthy_str (req_query req (js ''state'')) = Some state"
    and "decodeState HMAC state stateSecret = Inr (Some stateData)"
    and "own_prop stateData (js ''timestamp'') = Some (JNum t)"
  shows "(t = now - 10 * 60 * 1000 - 1 \<and> t \<noteq> 0 \<longrightarrow>
            oauth_callback HMAC new_URL now e req =
              Inr (Json 400 (JObj [(js ''error'', JStr (js ''State expired''))])))
       \<and> (t = now - 9 * 60 * 1000 \<longrightarrow>
            oauth_callback HMAC new_URL now e req \<noteq>
              Inr (Json 400 (JObj [(js ''error'', JStr (js ''State expired''))]))
            \<and> (\<forall>W. encodeState HMAC (JObj [(js ''strava_code'', JStr code)]) stateSecret = Inr W \<longrightarrow>
                 (truthy_prop stateData (js ''redirect_uri'') = None \<longrightarrow>
                    oauth_callback HMAC new_URL now e req =
                      Inr (Json 200 (JObj [(js ''code'', JStr W)])))
                 \<and> (\<forall>R target client_state.
                       own_prop stateData (js ''redirect_uri'') = Some (JStr R) \<and> R \<noteq> []
                       \<and> new_URL R = Some target
                       \<and> string_prop stateData (js ''client_state'') = Inr client_state \<longrightarrow>
                       oauth_callback HMAC new_URL now e req =
                         Inr (Redirect
                           (case client_state of
                              None \<Rightarrow> searchParams_set (js ''code'') W target
                            | Some cs \<Rightarrow>
                                searchParams_set (js ''state'') cs
                                  (searchParams_set (js ''code'') W target))))))"
proof (rule conjI)
  have tr: "truthy stateData" using assms(6) by (rule own_prop_truthy)
  note cb = oauth_callback_decoded [OF assms(1-5) tr, of new_URL now]
  show "t = now - 10 * 60 * 1000 - 1 \<and> t \<noteq> 0 \<longrightarrow>
            oauth_callback HMAC new_URL now e req =
              Inr (Json 400 (JObj [(js ''error'', JStr (js ''State expired''))]))"
    unfolding cb number_prop_num [OF assms(6)] by simp
  show "t = now - 9 * 60 * 1000 \<longrightarrow>
            oauth_callback HMAC new_URL now e req \<noteq>
              Inr (Json 400 (JObj [(js ''error'', JStr (js ''State expired''))]))
            \<and> (\<forall>W. encodeState HMAC (JObj [(js ''strava_code'', JStr code)]) stateSecret = Inr W \<longrightarrow>
                 (truthy_prop stateData (js ''redirect_uri'') = None \<longrightarrow>
                    oauth_callback HMAC new_URL now e req =
                      Inr (Json 200 (JObj [(js ''code'', JStr W)])))
                 \<and> (\<forall>R target client_state.
                       own_prop stateData (js ''redirect_uri'') = Some (JStr R) \<and> R \<noteq> []
                       \<and> new_URL R = Some target
                       \<and> string_prop stateData (js ''client_state'') = Inr client_state \<longrightarrow>
                       oauth_callback HMAC new_URL now e req =
                         Inr (Redirect
                           (case client_state of
                              None \<Rightarrow> searchParams_set (js ''code'') W target
                            | Some cs \<Rightarrow>
                                searchParams_set (js ''state'') cs
                                  (searchParams_set (js ''code'') W target)))))"
  proof
    assume t: "t = now - 9 * 60 * 1000"
    have w: "oauth_callback HMAC new_URL now e req
        = wrap_and_redirect HMAC new_URL stateSecret stateData code"
      unfolding cb number_prop_num [OF assms(6)] using t by simp
    have a: "oauth_callback HMAC new_URL now e req \<noteq>
        Inr (Json 400 (JObj [(js ''error'', JStr (js ''State expired''))]))"
      unfolding w by (rule wrap_and_redirect_not_400)
    have b: "oauth_callback HMAC new_URL now e req = Inr (Json 200 (JObj [(js ''code'', JStr W)]))"
      if "encodeState HMAC (JObj [(js ''strava_code'', JStr code)]) stateSecret = Inr W"
        and "truthy_prop stateData (js ''redirect_uri'') = None" for W
    proof -
      from that(2) have "string_prop stateData (js ''redirect_uri'') = Inr None"
        by (simp add: string_prop_None_iff)
      with that(1) show ?thesis unfolding w by (simp add: wrap_and_redirect_def)
    qed
    have c: "oauth_callback HMAC new_URL now e req =
          Inr (Redirect
            (case client_state of
               None \<Rightarrow> searchParams_set (js ''code'') W target
             | Some cs \<Rightarrow>
                 searchParams_set (js ''state'') cs (searchParams_set (js ''code'') W target)))"
      if "encodeState HMAC (JObj [(js ''strava_code'', JStr code)]) stateSecret = Inr W"
        and "own_prop stateData (js ''redirect_uri'') = Some (JStr R) \<and> R \<noteq> []
             \<and> new_URL R = Some target
             \<and> string_prop stateData (js ''client_state'') = Inr client_state"
      for W R target client_state
    proof -
      from that(2) have "string_prop stateData (js ''redirect_uri'') = Inr (Some R)"
        by (simp add: string_prop_str)
      with that show ?thesis
        unfolding w
        by (simp add: wrap_and_redirect_def redirect_to_client_def Let_def split: option.splits)
    qed
    from a b c show "oauth_callback HMAC new_URL now e req \<noteq>
              Inr (Json 400 (JObj [(js ''error'', JStr (js ''State expired''))]))
            \<and> (\<forall>W. encodeState HMAC (JObj [(js ''strava_code'', JStr code)]) stateSecret = Inr W \<longrightarrow>
                 (truthy_prop stateData (js ''redirect_uri'') = None \<longrightarrow>
                    oauth_callback HMAC new_URL now e req =
                      Inr (Json 200 (JObj [(js ''code'', JStr W)])))
                 \<and> (\<forall>R target client_state.
                       own_prop stateData (js ''redirect_uri'') = Some (JStr R) \<and> R \<noteq> []
                       \<and> new_URL R = Some target
                       \<and> string_prop stateData (js ''client_state'') = Inr client_state \<longrightarrow>
                       oauth_callback HMAC new_URL now e req =
                         Inr (Redirect
                           (case client_state of
                              None \<Rightarrow> searchParams_set (js ''code'') W target
                            | Some cs \<Rightarrow>
                                searchParams_set (js ''state'') cs
                                  (searchParams_set (js ''code'') W target)))))"
      by blast
  qed
qed

theorem expiry_boundary_witness:
  "oauth_callback example_hmac example_URL 1700000600001 example_env (callback_request example_state)
     = Inr (Json 400 (JObj [(js ''error'', JStr (js ''State expired''))]))
   \<and> oauth_callback example_hmac example_URL 1700000540000 example_env (callback_request example_state)
     = Inr (Redirect
         (searchParams_set (js ''state'') (js ''xyz'')
           (searchParams_set (js ''code'') example_wrapped_code
             \<lparr>url_base = js ''https://client.example/cb'', url_params = []\<rparr>)))"
proof -
  note q = callback_request_query [OF example_state_ne]
  note b = expiry_boundary [OF example_env_secret q example_state_decode example_state_timestamp]
  have enc: "encodeState example_hmac (JObj [(js ''strava_code'', JStr (js ''ABC123''))])
      (js ''state-secret'') = Inr example_wrapped_code"
    using example_code_encode by (simp only: example_code_payload_def)
  have r: "own_prop example_state_payload (js ''redirect_uri'')
       = Some (JStr (js ''https://client.example/cb''))"
    by (simp add: example_state_payload_def js_def)
  have n: "js ''https://client.example/cb'' \<noteq> []" by (simp add: js_def)
  have u: "example_URL (js ''https://client.example/cb'')
      = Some \<lparr>url_base = js ''https://client.example/cb'', url_params = []\<rparr>"
    by (simp add: example_URL_def)
  have c: "string_prop example_state_payload (js ''client_state'') = Inr (Some (js ''xyz''))"
    by (simp add: string_prop_def truthy_prop_def example_state_payload_def js_def)
  have 1: "oauth_callback example_hmac example_URL 1700000600001 example_env
       (callback_request example_state)
     = Inr (Json 400 (JObj [(js ''error'', JStr (js ''State expired''))]))"
    using b [of 1700000600001 example_URL] by simp
  have "(1700000000000::int) = 1700000540000 - 9 * 60 * 1000" by simp
  with b [of 1700000540000 example_URL]
  have "oauth_callback example_hmac example_URL 1700000540000 example_env
          (callback_request example_state)
        = Inr (Redirect
            (case Some (js ''xyz'') of
               None \<Rightarrow> searchParams_set (js ''code'') example_wrapped_code
                 \<lparr>url_base = js ''https://client.example/cb'', url_params = []\<rparr>
             | Some cs \<Rightarrow>
                 searchParams_set (js ''state'') cs
                   (searchParams_set (js ''code'') example_wrapped_code
                     \<lparr>url_base = js ''https://client.example/cb'', url_params = []\<rparr>)))"
    using enc r n u c by blast
  with 1 show ?thesis by simp
qed

theorem expiry_boundary_counterexample:
  "decodeState example_hmac example_state (js ''state-secret'') = Inr (Some example_state_payload)
   \<and> own_prop example_state_payload (js ''timestamp'')
       = Some (JNum (1700000600001 - 10 * 60 * 1000 - 1))
   \<and> req_query (error_code_callback_request example_state) (js ''code'') = Some (js ''ABC123'')
   \<and> oauth_callback example_hmac example_URL 1700000600001 example_env
       (error_code_callback_request example_state)
     = Inr (Redirect
         (searchParams_set (js ''state'') (js ''xyz'')
           (searchParams_set (js ''error'') (js ''access_denied'')
             \<lparr>url_base = js ''https://client.example/cb'', url_params = []\<rparr>)))
   \<and> decodeState example_hmac zero_time_state (js ''state-secret'') = Inr (Some zero_time_payload)
   \<and> own_prop zero_time_payload (js ''timestamp'') = Some (JNum (600001 - 10 * 60 * 1000 - 1))
   \<and> oauth_callback example_hmac example_URL 600001 example_env (callback_request zero_time_state)
     = Inr (Redirect
         (searchParams_set (js ''state'') (js ''xyz'')
           (searchParams_set (js ''code'') example_wrapped_code
             \<lparr>url_base = js ''https://client.example/cb'', url_params = []\<rparr>)))"
proof -
  note q = error_code_callback_request_query [OF example_state_ne]
  have ts: "own_prop example_state_payload (js ''timestamp'')
       = Some (JNum (1700000600001 - 10 * 60 * 1000 - 1))"
    using example_state_timestamp by simp
  have sp: "string_prop example_state_payload (js ''redirect_uri'')
       = Inr (Some (js ''https://client.example/cb''))"
    by (simp add: string_prop_def truthy_prop_def example_state_payload_def js_def)
  have c: "string_prop example_state_payload (js ''client_state'') = Inr (Some (js ''xyz''))"
    by (simp add: string_prop_def truthy_prop_def example_state_payload_def js_def)
  have u: "example_URL (js ''https://client.example/cb'')
      = Some \<lparr>url_base = js ''https://client.example/cb'', url_params = []\<rparr>"
    by (simp add: example_URL_def)
  have 1: "oauth_callback example_hmac example_URL 1700000600001 example_env
       (error_code_callback_request example_state)
     = Inr (Redirect
         (searchParams_set (js ''state'') (js ''xyz'')
           (searchParams_set (js ''error'') (js ''access_denied'')
             \<lparr>url_base = js ''https://client.example/cb'', url_params = []\<rparr>)))"
    unfolding oauth_callback_error [OF example_env_secret q(1)]
    by (simp add: q(2) example_state_decode sp redirect_to_client_def u c)
  have ne0: "zero_time_state \<noteq> []" by (rule token_ne [OF zero_time_encode])
  note q0 = callback_request_query [OF ne0]
  have tr0: "truthy zero_time_payload" by (simp add: zero_time_payload_def)
  have ts0: "own_prop zero_time_payload (js ''timestamp'') = Some (JNum 0)"
    by (simp add: zero_time_payload_def js_def)
  have r0: "own_prop zero_time_payload (js ''redirect_uri'')
       = Some (JStr (js ''https://client.example/cb''))"
    by (simp add: zero_time_payload_def js_def)
  have c0: "own_prop zero_time_payload (js ''client_state'') = Some (JStr (js ''xyz''))"
    by (simp add: zero_time_payload_def js_def)
  have 2: "oauth_callback example_hmac example_URL 600001 example_env (callback_request zero_time_state)
     = Inr (Redirect
         (searchParams_set (js ''state'') (js ''xyz'')
           (searchParams_set (js ''code'') example_wrapped_code
             \<lparr>url_base = js ''https://client.example/cb'', url_params = []\<rparr>)))"
    unfolding oauth_callback_decoded [OF example_env_secret q0 zero_time_decode tr0]
      number_prop_num [OF ts0]
    by (simp add: example_wrap [OF r0 c0])
  have ts0': "own_prop zero_time_payload (js ''timestamp'') = Some (JNum (600001 - 10 * 60 * 1000 - 1))"
    using ts0 by simp
  from 1 2 show ?thesis
    by (simp only: example_state_decode ts q(4) zero_time_decode ts0' simp_thms)
qed

text \<open>
  Claim C8. For a validly signed state whose payload has no \<^verbatim>\<open>timestamp\<close> or has the
  timestamp 0, the callback skips the expiry check: whatever the clock reads, the handler
  goes on to wrap the code and the answer is not \<^verbatim>\<open>State expired\<close>.
\<close>

theorem skipped_expiry_check:
  assumes "truthy_str (OAUTH_STATE_SECRET e) = Some stateSecret"
    and "truthy_str (req_query req (js ''error'')) = None"
    and "truthy_str (req_query req (js ''code'')) = Some code"
    and "truthy_str (req_query req (js ''state'')) = Some state"
    and "decodeState HMAC state stateSecret = Inr (Some stateData)"
    and "truthy stateData"
    and "own_prop stateData (js ''timestamp'') = None
         \<or> own_prop stateData (js ''timestamp'') = Some (JNum 0)"
  shows "oauth_callback HMAC new_URL now e req =
           wrap_and_redirect HMAC new_URL stateSecret stateData code
         \<and> oauth_callback HMAC new_URL now e req \<noteq>
           Inr (Json 400 (JObj [(js ''error'', JStr (js ''State expired''))]))"
proof -
  note cb = oauth_callback_decoded [OF assms(1-6), of new_URL now]
  from assms(7) have "number_prop stateData (js ''timestamp'') = Inr None"
    by (auto simp: number_prop_num number_prop_absent)
  then show ?thesis unfolding cb by (simp add: wrap_and_redirect_not_400)
qed

theorem skipped_expiry_check_witness:
  "oauth_callback example_hmac example_URL 4102444800000 example_env (callback_request untimed_state)
     = Inr (Redirect
         (searchParams_set (js ''state'') (js ''xyz'')
           (searchParams_set (js ''code'') example_wrapped_code
             \<lparr>url_base = js ''https://client.example/cb'', url_params = []\<rparr>)))"
proof -
  note q = callback_request_query [OF untimed_state_ne]
  have tr: "truthy untimed_payload" by (simp add: untimed_payload_def)
  have nt: "own_prop untimed_payload (js ''timestamp'') = None
     \<or> own_prop untimed_payload (js ''timestamp'') = Some (JNum 0)"
    by (simp add: untimed_payload_def js_def)
  have w: "wrap_and_redirect example_hmac example_URL (js ''state-secret'') untimed_payload
       (js ''ABC123'')
     = Inr (Redirect
         (searchParams_set (js ''state'') (js ''xyz'')
           (searchParams_set (js ''code'') example_wrapped_code
             \<lparr>url_base = js ''https://client.example/cb'', url_params = []\<rparr>)))"
    by (rule example_wrap) (simp_all add: untimed_payload_def js_def)
  from skipped_expiry_check [OF example_env_secret q untimed_decode tr nt,
      of example_URL 4102444800000]
  show ?thesis by (simp only: w)
qed

text \<open>
  Claim C4, as the code has it. For a callback request without an upstream error that
  carries a validly signed state whose timestamp (other than 0) is more than 10 minutes
  old: with a code present and not empty the answer is the HTTP 400 \<^verbatim>\<open>State expired\<close>;
  with the code absent or empty the answer is the HTTP 400 \<^verbatim>\<open>Missing code or state\<close>,
  since the handler tests for the code before it decodes the state. The claim as stated
  (state expired whether or not the code is present) fails on a request without a code.
\<close>

theorem expired_state:
  assumes "truthy_str (OAUTH_STATE_SECRET e) = Some stateSecret"
    and "truthy_str (req_query req (js ''error'')) = None"
    and "truthy_str (req_query req (js ''state'')) = Some state"
    and "decodeState HMAC state stateSecret = Inr (Some stateData)"
    and "own_prop stateData (js ''timestamp'') = Some (JNum t)"
    and "t \<noteq> 0" and "now - t > 10 * 60 * 1000"
  shows "(\<forall>code. truthy_str (req_query req (js ''code'')) = Some code \<longrightarrow>
            oauth_callback HMAC new_URL now e req =
              Inr (Json 400 (JObj [(js ''error'', JStr (js ''State expired''))])))
       \<and> (truthy_str (req_query req (js ''code'')) = None \<longrightarrow>
            oauth_callback HMAC new_URL now e req =
              Inr (Json 400 (JObj [(js ''error'', JStr (js ''Missing code or state''))])))"
proof (intro conjI allI impI)
  fix code
  assume c: "truthy_str (req_query req (js ''code'')) = Some code"
  have tr: "truthy stateData" using assms(5) by (rule own_prop_truthy)
  show "oauth_callback HMAC new_URL now e req =
              Inr (Json 400 (JObj [(js ''error'', JStr (js ''State expired''))]))"
    unfolding oauth_callback_decoded [OF assms(1,2) c assms(3,4) tr] number_prop_num [OF assms(5)]
    using assms(6,7) by simp
next
  assume "truthy_str (req_query req (js ''code'')) = None"
  then show "oauth_callback HMAC new_URL now e req =
              Inr (Json 400 (JObj [(js ''error'', JStr (js ''Missing code or state''))]))"
    using oauth_callback_missing [OF assms(1,2)] by blast
qed

theorem expired_state_witness:
  "oauth_callback example_hmac example_URL 1700003600000 example_env (callback_request example_state)
     = Inr (Json 400 (JObj [(js ''error'', JStr (js ''State expired''))]))"
proof -
  note q = callback_request_query [OF example_state_ne]
  have "(1700000000000::int) \<noteq> 0" and "(1700003600000::int) - 1700000000000 > 10 * 60 * 1000"
    by simp_all
  from expired_state [OF example_env_secret q(1,3) example_state_decode example_state_timestamp this,
      of example_URL] q(2)
  show ?thesis by blast
qed

theorem expired_state_counterexample:
  "decodeState example_hmac example_state (js ''state-secret'') = Inr (Some example_state_payload)
   \<and> own_prop example_state_payload (js ''timestamp'') = Some (JNum 1700000000000)
   \<and> (1700003600000::int) - 1700000000000 > 10 * 60 * 1000
   \<and> req_query (callback_request_without_code example_state) (js ''code'') = None
   \<and> req_query (callback_request_without_code example_state) (js ''error'') = None
   \<and> oauth_callback example_hmac example_URL 1700003600000 example_env
       (callback_request_without_code example_state)
     = Inr (Json 400 (JObj [(js ''error'', JStr (js ''Missing code or state''))]))"
proof -
  note q = callback_request_without_code_query [OF example_state_ne]
  have "oauth_callback example_hmac example_URL 1700003600000 example_env
       (callback_request_without_code example_state)
     = Inr (Json 400 (JObj [(js ''error'', JStr (js ''Missing code or state''))]))"
    by (rule oauth_callback_missing [OF example_env_secret q(1)]) (simp add: q(2))
  moreover have "req_query (callback_request_without_code example_state) (js ''code'') = None"
    and "req_query (callback_request_without_code example_state) (js ''error'') = None"
    by (simp_all add: callback_request_without_code_def GET_def js_def)
  ultimately show ?thesis
    by (simp add: example_state_decode example_state_timestamp)
qed

text \<open>
  Claim C7. On an upstream \<^verbatim>\<open>error\<close> the callback redirects to the
  \<^verbatim>\<open>redirect_uri\<close> of the decoded state with \<^verbatim>\<open>error\<close> set, and answers with the
  direct HTTP 400 body only when it finds no \<^verbatim>\<open>redirect_uri\<close>
  (\<open>oauth_callback_error_redirect\<close>); but it hands the \<^verbatim>\<open>redirect_uri\<close> to
  \<^verbatim>\<open>new URL\<close> unguarded. The authorize endpoint signs whatever \<^verbatim>\<open>redirect_uri\<close>
  it is given: for \<^verbatim>\<open>redirect_uri=not a url\<close> it issues a signed state, and at the
  callback with an \<^verbatim>\<open>error\<close> and that state \<^verbatim>\<open>new URL\<close> throws a
  \<^verbatim>\<open>TypeError\<close>: the answer is neither the redirect nor the direct HTTP 400 body.
\<close>

theorem upstream_error_redirect_throws:
  "oauth_authorize example_hmac 1700000000000 example_env bad_authorize_request
     = Inr (Redirect
       (searchParams_set (js ''approval_prompt'') (js ''auto'')
         (searchParams_set (js ''state'') bad_redirect_state
           (searchParams_set (js ''scope'') STRAVA_SCOPES
             (searchParams_set (js ''redirect_uri'')
                (base_url bad_authorize_request @ js ''/oauth/callback'')
               (searchParams_set (js ''response_type'') (js ''code'')
                 (searchParams_set (js ''client_id'') (js ''12345'')
                   \<lparr>url_base = STRAVA_AUTHORIZE_URL, url_params = []\<rparr>)))))))
   \<and> decodeState example_hmac bad_redirect_state (js ''state-secret'')
       = Inr (Some bad_redirect_payload)
   \<and> own_prop bad_redirect_payload (js ''redirect_uri'') = Some (JStr (js ''not a url''))
   \<and> example_URL (js ''not a url'') = None
   \<and> oauth_callback example_hmac example_URL 1700000060000 example_env
       (error_callback_request bad_redirect_state) = Inl TypeError"
proof -
  have p: "object_literal
     [(js ''redirect_uri'', map_option JStr (req_query bad_authorize_request (js ''redirect_uri''))),
      (js ''client_state'', map_option JStr (req_query bad_authorize_request (js ''state''))),
      (js ''timestamp'', Some (JNum 1700000000000))]
   = bad_redirect_payload"
    by (simp add: bad_authorize_request_def GET_def object_literal_def bad_redirect_payload_def js_def)
  have a: "oauth_authorize example_hmac 1700000000000 example_env bad_authorize_request
     = Inr (Redirect
       (searchParams_set (js ''approval_prompt'') (js ''auto'')
         (searchParams_set (js ''state'') bad_redirect_state
           (searchParams_set (js ''scope'') STRAVA_SCOPES
             (searchParams_set (js ''redirect_uri'')
                (base_url bad_authorize_request @ js ''/oauth/callback'')
               (searchParams_set (js ''response_type'') (js ''code'')
                 (searchParams_set (js ''client_id'') (js ''12345'')
                   \<lparr>url_base = STRAVA_AUTHORIZE_URL, url_params = []\<rparr>)))))))"
    by (rule oauth_authorize_ok [OF example_env_client_id example_env_secret])
       (simp only: p bad_redirect_encode)
  have ne: "bad_redirect_state \<noteq> []" by (rule token_ne [OF bad_redirect_encode])
  note q = error_callback_request_query [OF ne]
  have r: "own_prop bad_redirect_payload (js ''redirect_uri'') = Some (JStr (js ''not a url''))"
    by (simp add: bad_redirect_payload_def js_def)
  have n: "js ''not a url'' \<noteq> []" by (simp add: js_def)
  have u: "example_URL (js ''not a url'') = None"
    by (simp add: example_URL_def js_def)
  have c: "oauth_callback example_hmac example_URL 1700000060000 example_env
       (error_callback_request bad_redirect_state) = Inl TypeError"
    by (rule oauth_callback_error_throws
        [where new_URL = example_URL, OF example_env_secret q(1,2) bad_redirect_decode r n u])
  from a c r u show ?thesis by (simp only: bad_redirect_decode simp_thms)
qed

text \<open>
  Claim C1, as the code has it. With the three secrets configured, a redirect URI \<open>R\<close>
  that \<^verbatim>\<open>new URL\<close> accepts, a client state \<open>X\<close> and an upstream code \<open>C\<close>, all
  three non-empty and without a code unit above 0xFF:
  \<^verbatim>\<open>GET /oauth/authorize?redirect_uri=R&state=X\<close> answers with a redirect to the
  upstream authorize URL whose \<^verbatim>\<open>state\<close> parameter is the signed state \<open>S\<close>;
  \<^verbatim>\<open>GET /oauth/callback?code=C&state=S\<close> at most 10 minutes later answers with a
  redirect to \<open>R\<close> with \<^verbatim>\<open>state\<close> set to \<open>X\<close> and \<^verbatim>\<open>code\<close> set to a wrapped
  code \<open>W\<close> that decodes under the state secret to \<^verbatim>\<open>{strava_code: C}\<close>; and a
  \<^verbatim>\<open>POST /oauth/token\<close> with \<^verbatim>\<open>grant_type=authorization_code\<close> and
  \<^verbatim>\<open>code=W\<close>, when the upstream exchange of \<open>C\<close> succeeds without an \<^verbatim>\<open>error\<close>
  field, answers 200 with the upstream's \<^verbatim>\<open>access_token\<close>, \<^verbatim>\<open>expires_in\<close> and
  \<^verbatim>\<open>refresh_token\<close>, its \<^verbatim>\<open>token_type\<close> (\<^verbatim>\<open>Bearer\<close> when it has none) and
  the fixed scope. The claim as stated (every \<open>R\<close> and \<open>X\<close>) fails on a state outside
  Latin-1 (authorize throws), on a redirect URI that is not a URL (the callback throws)
  and on an empty state (the redirect carries no \<^verbatim>\<open>state\<close>).
\<close>

theorem delegation_round_trip:
  assumes env: "truthy_str (STRAVA_CLIENT_ID e) = Some clientId"
      "truthy_str (STRAVA_CLIENT_SECRET e) = Some clientSecret"
      "truthy_str (OAUTH_STATE_SECRET e) = Some stateSecret"
    and R: "req_query areq (js ''redirect_uri'') = Some R" "R \<noteq> []" "latin1 R"
      "new_URL R = Some target"
    and X: "req_query areq (js ''state'') = Some X" "X \<noteq> []" "latin1 X"
    and S: "S = issue_token HMAC
                  (JObj [(js ''redirect_uri'', JStr R), (js ''client_state'', JStr X),
                         (js ''timestamp'', JNum now1)]) stateSecret"
    and creq: "req_query creq (js ''code'') = Some C" "C \<noteq> []" "latin1 C"
      "req_query creq (js ''state'') = Some S"
      "truthy_str (req_query creq (js ''error'')) = None"
    and time: "now2 - now1 \<le> 10 * 60 * 1000"
    and W: "W = issue_token HMAC (JObj [(js ''strava_code'', JStr C)]) stateSecret"
    and treq: "(if js_includes (case truthy_str (req_header treq (js ''content-type'')) of
                                 None \<Rightarrow> [] | Some h \<Rightarrow> h)
                     (js ''application/x-www-form-urlencoded'')
                then Some (req_text_params treq) else req_json_params treq) = Some params"
      "map_of params (js ''grant_type'') = Some (js ''authorization_code'')"
      "map_of params (js ''code'') = Some W"
    and upstream: "fetch STRAVA_TOKEN_URL (URLSearchParams
          [(js ''client_id'', clientId),
           (js ''client_secret'', clientSecret),
           (js ''code'', C),
           (js ''grant_type'', js ''authorization_code'')]) = tokenResponse"
      "resp_ok tokenResponse" "resp_json tokenResponse = Some tokenData" "tokenData \<noteq> JNull"
      "truthy_prop tokenData (js ''error'') = None"
  shows "(\<exists>authUrl. oauth_authorize HMAC now1 e areq = Inr (Redirect authUrl)
            \<and> url_base authUrl = STRAVA_AUTHORIZE_URL
            \<and> searchParams_get authUrl (js ''state'') = Some S)
       \<and> (\<exists>redirectUrl. oauth_callback HMAC new_URL now2 e creq = Inr (Redirect redirectUrl)
            \<and> redirectUrl = searchParams_set (js ''state'') X (searchParams_set (js ''code'') W target)
            \<and> url_base redirectUrl = url_base target
            \<and> searchParams_get redirectUrl (js ''state'') = Some X
            \<and> searchParams_get redirectUrl (js ''code'') = Some W)
       \<and> decodeState HMAC W stateSecret = Inr (Some (JObj [(js ''strava_code'', JStr C)]))
       \<and> oauth_token HMAC fetch e treq =
            Inr (Json 200 (object_literal
              [(js ''access_token'', own_prop tokenData (js ''access_token'')),
               (js ''token_type'',
                  (case truthy_prop tokenData (js ''token_type'') of
                     None \<Rightarrow> Some (JStr (js ''Bearer'')) | Some tt \<Rightarrow> Some tt)),
               (js ''expires_in'', own_prop tokenData (js ''expires_in'')),
               (js ''refresh_token'', own_prop tokenData (js ''refresh_token'')),
               (js ''scope'', Some (JStr STRAVA_SCOPES))]))"
proof -
  let ?p1 = "JObj [(js ''redirect_uri'', JStr R), (js ''client_state'', JStr X),
                   (js ''timestamp'', JNum now1)]"
  let ?p2 = "JObj [(js ''strava_code'', JStr C)]"
  have ss: "stateSecret \<noteq> []"
    using env(3) by (auto simp: truthy_str_def split: option.splits if_splits)
  have l1: "latin1 (JSON_stringify ?p1)" using R(3) X(3) by (rule latin1_authorize_payload)
  have l2: "latin1 (JSON_stringify ?p2)" using creq(3) by (rule latin1_code_payload)
  have e1: "encodeState HMAC ?p1 stateSecret = Inr S"
    unfolding S by (rule encodeState_issue_token [OF ss l1])
  have e2: "encodeState HMAC ?p2 stateSecret = Inr W"
    unfolding W by (rule encodeState_issue_token [OF ss l2])
  have uS: "usv S = S" unfolding S by (rule usv_latin1 [OF latin1_issue_token [OF l1]])
  have uW: "usv W = W" unfolding W by (rule usv_latin1 [OF latin1_issue_token [OF l2]])
  have uX: "usv X = X" using X(3) by (rule usv_latin1)
  have neS: "S \<noteq> []" unfolding S by (rule issue_token_ne)
  have neW: "W \<noteq> []" unfolding W by (rule issue_token_ne)
  have d1: "decodeState HMAC S stateSecret = Inr (Some ?p1)"
    using decodeState_encodeState [OF e1, of "[]"] by simp
  have d2: "decodeState HMAC W stateSecret = Inr (Some ?p2)"
    using decodeState_encodeState [OF e2, of "[]"] by simp

  have payload: "object_literal
      [(js ''redirect_uri'', map_option JStr (req_query areq (js ''redirect_uri''))),
       (js ''client_state'', map_option JStr (req_query areq (js ''state''))),
       (js ''timestamp'', Some (JNum now1))] = ?p1"
    by (simp add: R(1) X(1) object_literal_def)
  have a: "oauth_authorize HMAC now1 e areq =
     Inr (Redirect
       (searchParams_set (js ''approval_prompt'') (js ''auto'')
         (searchParams_set (js ''state'') S
           (searchParams_set (js ''scope'') STRAVA_SCOPES
             (searchParams_set (js ''redirect_uri'') (base_url areq @ js ''/oauth/callback'')
               (searchParams_set (js ''response_type'') (js ''code'')
                 (searchParams_set (js ''client_id'') clientId
                   \<lparr>url_base = STRAVA_AUTHORIZE_URL, url_params = []\<rparr>)))))))"
    by (rule oauth_authorize_ok [OF env(1) env(3)]) (simp only: payload e1)
  have names: "js ''state'' \<noteq> js ''approval_prompt''" "js ''state'' \<noteq> js ''code''"
    "js ''code'' \<noteq> js ''state''"
    by (simp_all add: js_def)
  have part1: "\<exists>authUrl. oauth_authorize HMAC now1 e areq = Inr (Redirect authUrl)
            \<and> url_base authUrl = STRAVA_AUTHORIZE_URL
            \<and> searchParams_get authUrl (js ''state'') = Some S"
    unfolding a
    by (simp add: url_base_set searchParams_get_set_other [OF usv_js_names(6) names(1)]
        searchParams_get_set_same [OF usv_js_names(5)] uS)

  have q: "truthy_str (req_query creq (js ''code'')) = Some C"
    "truthy_str (req_query creq (js ''state'')) = Some S"
    using creq(1,2,4) neS by (simp_all add: truthy_str_def)
  have ts: "own_prop ?p1 (js ''timestamp'') = Some (JNum now1)" by (simp add: js_def)
  have ru: "own_prop ?p1 (js ''redirect_uri'') = Some (JStr R)" by (simp add: js_def)
  have cs: "own_prop ?p1 (js ''client_state'') = Some (JStr X)" by (simp add: js_def)
  have tr: "truthy ?p1" by simp
  have fresh: "\<not> (case (if now1 = 0 then None else Some now1) of
                    None \<Rightarrow> False | Some t \<Rightarrow> now2 - t > 10 * 60 * 1000)"
    using time by simp
  have cb1: "oauth_callback HMAC new_URL now2 e creq
      = wrap_and_redirect HMAC new_URL stateSecret ?p1 C"
    unfolding oauth_callback_decoded [OF env(3) creq(5) q d1 tr] number_prop_num [OF ts]
    using fresh by simp
  have cb2: "wrap_and_redirect HMAC new_URL stateSecret ?p1 C
      = Inr (Redirect (searchParams_set (js ''state'') X (searchParams_set (js ''code'') W target)))"
    using R(2) X(2)
    by (simp add: wrap_and_redirect_def e2 string_prop_str [OF ru] string_prop_str [OF cs]
        redirect_to_client_def R(4))
  have part2: "\<exists>redirectUrl. oauth_callback HMAC new_URL now2 e creq = Inr (Redirect redirectUrl)
            \<and> redirectUrl = searchParams_set (js ''state'') X (searchParams_set (js ''code'') W target)
            \<and> url_base redirectUrl = url_base target
            \<and> searchParams_get redirectUrl (js ''state'') = Some X
            \<and> searchParams_get redirectUrl (js ''code'') = Some W"
    unfolding cb1 cb2
    by (simp add: url_base_set searchParams_get_set_same [OF usv_js_names(5)] uX
        searchParams_get_set_other [OF usv_js_names(5) names(3)]
        searchParams_get_set_same [OF usv_js_names(7)] uW)

  have tk: "oauth_token HMAC fetch e treq =
     token_result (js ''Token exchange failed'') tokenResponse"
    unfolding upstream(1) [symmetric]
    by (rule oauth_token_code [OF env treq neW d2])
  have part4: "oauth_token HMAC fetch e treq =
            Inr (Json 200 (object_literal
              [(js ''access_token'', own_prop tokenData (js ''access_token'')),
               (js ''token_type'',
                  (case truthy_prop tokenData (js ''token_type'') of
                     None \<Rightarrow> Some (JStr (js ''Bearer'')) | Some tt \<Rightarrow> Some tt)),
               (js ''expires_in'', own_prop tokenData (js ''expires_in'')),
               (js ''refresh_token'', own_prop tokenData (js ''refresh_token'')),
               (js ''scope'', Some (JStr STRAVA_SCOPES))]))"
    unfolding tk token_result_ok [OF upstream(2,3,4)] by (simp add: upstream(5))
  from part1 part2 d2 part4 show ?thesis by blast
qed

theorem delegation_round_trip_witness:
  "(\<exists>authUrl. oauth_authorize example_hmac 1700000000000 example_env authorize_request
               = Inr (Redirect authUrl)
            \<and> url_base authUrl = STRAVA_AUTHORIZE_URL
            \<and> searchParams_get authUrl (js ''state'') = Some example_state)
   \<and> oauth_callback example_hmac example_URL 1700000060000 example_env
        (callback_request example_state)
      = Inr (Redirect
          (searchParams_set (js ''state'') (js ''xyz'')
            (searchParams_set (js ''code'') example_wrapped_code
              \<lparr>url_base = js ''https://client.example/cb'', url_params = []\<rparr>)))
   \<and> decodeState example_hmac example_wrapped_code (js ''state-secret'')
      = Inr (Some (JObj [(js ''strava_code'', JStr (js ''ABC123''))]))
   \<and> oauth_token example_hmac example_fetch example_env (token_request example_wrapped_code)
      = Inr (Json 200 example_token_response)"
proof -
  let ?target = "\<lparr>url_base = js ''https://client.example/cb'', url_params = []\<rparr>"
  let ?resp = "\<lparr>resp_ok = True, resp_json = Some example_token_data\<rparr>"
  have env: "truthy_str (STRAVA_CLIENT_ID example_env) = Some (js ''12345'')"
    "truthy_str (STRAVA_CLIENT_SECRET example_env) = Some (js ''shhh'')"
    "truthy_str (OAUTH_STATE_SECRET example_env) = Some (js ''state-secret'')"
    by (simp_all add: example_env_def truthy_str_def js_def)
  have R: "req_query authorize_request (js ''redirect_uri'') = Some (js ''https://client.example/cb'')"
    "js ''https://client.example/cb'' \<noteq> []" "latin1 (js ''https://client.example/cb'')"
    "example_URL (js ''https://client.example/cb'') = Some ?target"
    by (simp_all add: authorize_request_def GET_def example_URL_def latin1_def js_def)
  have X: "req_query authorize_request (js ''state'') = Some (js ''xyz'')"
    "js ''xyz'' \<noteq> []" "latin1 (js ''xyz'')"
    by (simp_all add: authorize_request_def GET_def latin1_def js_def)
  have S: "example_state = issue_token example_hmac
      (JObj [(js ''redirect_uri'', JStr (js ''https://client.example/cb'')),
             (js ''client_state'', JStr (js ''xyz'')),
             (js ''timestamp'', JNum 1700000000000)]) (js ''state-secret'')"
    using example_state_issue by (simp only: example_state_payload_def)
  have creq: "req_query (callback_request example_state) (js ''code'') = Some (js ''ABC123'')"
    "js ''ABC123'' \<noteq> []" "latin1 (js ''ABC123'')"
    "req_query (callback_request example_state) (js ''state'') = Some example_state"
    "truthy_str (req_query (callback_request example_state) (js ''error'')) = None"
    by (simp_all add: callback_request_def GET_def latin1_def truthy_str_def js_def)
  have time: "(1700000060000::int) - 1700000000000 \<le> 10 * 60 * 1000" by simp
  have W: "example_wrapped_code = issue_token example_hmac
      (JObj [(js ''strava_code'', JStr (js ''ABC123''))]) (js ''state-secret'')"
    by (simp only: example_wrapped_code_def example_code_payload_def)
  have treq: "(if js_includes
        (case truthy_str (req_header (token_request example_wrapped_code) (js ''content-type'')) of
           None \<Rightarrow> [] | Some h \<Rightarrow> h)
        (js ''application/x-www-form-urlencoded'')
      then Some (req_text_params (token_request example_wrapped_code))
      else req_json_params (token_request example_wrapped_code))
     = Some [(js ''grant_type'', js ''authorization_code''), (js ''code'', example_wrapped_code)]"
    "map_of [(js ''grant_type'', js ''authorization_code''), (js ''code'', example_wrapped_code)]
       (js ''grant_type'') = Some (js ''authorization_code'')"
    "map_of [(js ''grant_type'', js ''authorization_code''), (js ''code'', example_wrapped_code)]
       (js ''code'') = Some example_wrapped_code"
    by (simp_all add: token_request_def POST_form_def truthy_str_def js_def)
  have up: "example_fetch STRAVA_TOKEN_URL (URLSearchParams
          [(js ''client_id'', js ''12345''),
           (js ''client_secret'', js ''shhh''),
           (js ''code'', js ''ABC123''),
           (js ''grant_type'', js ''authorization_code'')]) = ?resp"
    "resp_ok ?resp" "resp_json ?resp = Some example_token_data" "example_token_data \<noteq> JNull"
    "truthy_prop example_token_data (js ''error'') = None"
    by (simp_all add: example_fetch_def example_token_data_def truthy_prop_def js_def)
  have body: "object_literal
              [(js ''access_token'', own_prop example_token_data (js ''access_token'')),
               (js ''token_type'',
                  (case truthy_prop example_token_data (js ''token_type'') of
                     None \<Rightarrow> Some (JStr (js ''Bearer'')) | Some tt \<Rightarrow> Some tt)),
               (js ''expires_in'', own_prop example_token_data (js ''expires_in'')),
               (js ''refresh_token'', own_prop example_token_data (js ''refresh_token'')),
               (js ''scope'', Some (JStr STRAVA_SCOPES))] = example_token_response"
    by (simp add: example_token_data_def example_token_response_def object_literal_def
        truthy_prop_def js_def)
  from delegation_round_trip [where HMAC = example_hmac and new_URL = example_URL
      and fetch = example_fetch and R = "js ''https://client.example/cb''" and target = ?target
      and C = "js ''ABC123''" and clientId = "js ''12345''" and clientSecret = "js ''shhh''"
      and tokenResponse = ?resp,
      OF env R X S creq time W treq up]
  show ?thesis by (simp only: body) blast
qed

theorem delegation_round_trip_counterexample:
  "oauth_authorize example_hmac 1700000000000 example_env wide_state_request
     = Inl InvalidCharacterError
   \<and> oauth_callback example_hmac example_URL 1700000060000 example_env
       (callback_request bad_redirect_state) = Inl TypeError
   \<and> oauth_callback example_hmac example_URL 1700000060000 example_env
       (callback_request empty_state_token)
     = Inr (Redirect
         (searchParams_set (js ''code'') example_wrapped_code
           \<lparr>url_base = js ''https://client.example/cb'', url_params = []\<rparr>))
   \<and> searchParams_get
         (searchParams_set (js ''code'') example_wrapped_code
           \<lparr>url_base = js ''https://client.example/cb'', url_params = []\<rparr>) (js ''state'') = None"
proof -
  have enc: "encodeState example_hmac (JObj [(js ''strava_code'', JStr (js ''ABC123''))])
      (js ''state-secret'') = Inr example_wrapped_code"
    using example_code_encode by (simp only: example_code_payload_def)
  have p: "object_literal
     [(js ''redirect_uri'', map_option JStr (req_query wide_state_request (js ''redirect_uri''))),
      (js ''client_state'', map_option JStr (req_query wide_state_request (js ''state''))),
      (js ''timestamp'', Some (JNum 1700000000000))]
     = JObj [(js ''redirect_uri'', JStr (js ''https://client.example/cb'')),
             (js ''client_state'', JStr [0x20AC]),
             (js ''timestamp'', JNum 1700000000000)]"
    by (simp add: wide_state_request_def GET_def object_literal_def js_def)
  have "JSON_stringify (JObj [(js ''redirect_uri'', JStr (js ''https://client.example/cb'')),
             (js ''client_state'', JStr [0x20AC]),
             (js ''timestamp'', JNum 1700000000000)])
      = js ''{\"redirect_uri\":\"https://client.example/cb\",\"client_state\":\"'' @ [0x20AC]
          @ js ''\",\"timestamp\":1700000000000}''"
    by (simp add: json_eval)
  then have "\<not> latin1 (JSON_stringify (JObj [(js ''redirect_uri'', JStr (js ''https://client.example/cb'')),
             (js ''client_state'', JStr [0x20AC]),
             (js ''timestamp'', JNum 1700000000000)]))"
    by (simp add: latin1_def js_def)
  then have e: "encodeState example_hmac
      (JObj [(js ''redirect_uri'', JStr (js ''https://client.example/cb'')),
             (js ''client_state'', JStr [0x20AC]),
             (js ''timestamp'', JNum 1700000000000)]) (js ''state-secret'')
      = Inl InvalidCharacterError"
    by (simp add: encodeState_eq [OF example_secret_ne])
  have 1: "oauth_authorize example_hmac 1700000000000 example_env wide_state_request
     = Inl InvalidCharacterError"
    unfolding oauth_authorize_def
    by (simp add: example_env_client_id example_env_secret Let_def p e)
  have ne2: "bad_redirect_state \<noteq> []" by (rule token_ne [OF bad_redirect_encode])
  have tr2: "truthy bad_redirect_payload" by (simp add: bad_redirect_payload_def)
  have ts2: "own_prop bad_redirect_payload (js ''timestamp'') = Some (JNum 1700000000000)"
    by (simp add: bad_redirect_payload_def js_def)
  have ru2: "own_prop bad_redirect_payload (js ''redirect_uri'') = Some (JStr (js ''not a url''))"
    by (simp add: bad_redirect_payload_def js_def)
  have sp2: "string_prop bad_redirect_payload (js ''redirect_uri'') = Inr (Some (js ''not a url''))"
    by (simp add: string_prop_str [OF ru2]) (simp add: js_def)
  have u2: "example_URL (js ''not a url'') = None" by (simp add: example_URL_def js_def)
  note q2 = callback_request_query [OF ne2]
  have 2: "oauth_callback example_hmac example_URL 1700000060000 example_env
       (callback_request bad_redirect_state) = Inl TypeError"
    unfolding oauth_callback_decoded [OF example_env_secret q2 bad_redirect_decode tr2]
      number_prop_num [OF ts2]
    by (simp add: wrap_and_redirect_def enc sp2 redirect_to_client_def u2)
  have "JSON_stringify empty_state_payload
      = js ''{\"redirect_uri\":\"https://client.example/cb\",\"client_state\":\"\",\"timestamp\":1700000000000}''"
    by (simp add: empty_state_payload_def json_eval)
  then have "latin1 (JSON_stringify empty_state_payload)" by (simp add: latin1_def js_def)
  then have e3: "encodeState example_hmac empty_state_payload (js ''state-secret'')
      = Inr empty_state_token"
    unfolding empty_state_token_def by (rule encodeState_issue_token [OF example_secret_ne])
  have d3: "decodeState example_hmac empty_state_token (js ''state-secret'')
      = Inr (Some empty_state_payload)"
    using decodeState_encodeState [OF e3, of "[]"] by (simp add: empty_state_payload_def)
  have ne3: "empty_state_token \<noteq> []" by (rule token_ne [OF e3])
  have tr3: "truthy empty_state_payload" by (simp add: empty_state_payload_def)
  have ts3: "own_prop empty_state_payload (js ''timestamp'') = Some (JNum 1700000000000)"
    by (simp add: empty_state_payload_def js_def)
  have ru3: "own_prop empty_state_payload (js ''redirect_uri'')
      = Some (JStr (js ''https://client.example/cb''))"
    by (simp add: empty_state_payload_def js_def)
  have sp3: "string_prop empty_state_payload (js ''redirect_uri'')
      = Inr (Some (js ''https://client.example/cb''))"
    by (simp add: string_prop_str [OF ru3]) (simp add: js_def)
  have cs3: "string_prop empty_state_payload (js ''client_state'') = Inr None"
    by (simp add: string_prop_def truthy_prop_def empty_state_payload_def js_def)
  have u3: "example_URL (js ''https://client.example/cb'')
      = Some \<lparr>url_base = js ''https://client.example/cb'', url_params = []\<rparr>"
    by (simp add: example_URL_def)
  note q3 = callback_request_query [OF ne3]
  have 3: "oauth_callback example_hmac example_URL 1700000060000 example_env
       (callback_request empty_state_token)
     = Inr (Redirect
         (searchParams_set (js ''code'') example_wrapped_code
           \<lparr>url_base = js ''https://client.example/cb'', url_params = []\<rparr>))"
    unfolding oauth_callback_decoded [OF example_env_secret q3 d3 tr3]
      number_prop_num [OF ts3]
    by (simp add: wrap_and_redirect_def enc sp3 redirect_to_client_def u3 cs3)
  have n: "js ''state'' \<noteq> js ''code''" by (simp add: js_def)
  have 4: "searchParams_get
         (searchParams_set (js ''code'') example_wrapped_code
           \<lparr>url_base = js ''https://client.example/cb'', url_params = []\<rparr>) (js ''state'') = None"
    by (simp only: searchParams_get_set_other [OF usv_js_names(7) n])
      (simp add: searchParams_get_def)
  from 1 2 3 4 show ?thesis by simp
qed

end
